(* ===== verification/Prelude.thy ===== *)
theory Prelude
  imports Main "HOL-Library.Word" "HOL-Library.AList" "HOL-Library.Sublist"
begin

text \<open>
  Shared vocabulary of the development: the exception classes of the program as one
  datatype, results (an exception or a value), bytes and big-endian integers as
  Python's struct and int.to_bytes produce them, dictionaries as insertion-ordered
  association lists, and the generic lemmas on them that the component theories use.
\<close>

named_theorems result_simps \<open>evaluation and inversion of results\<close>
named_theorems codec_simps \<open>encode/decode equations\<close>
named_theorems dict_simps \<open>lookup after update and delete\<close>

section \<open>Exceptions and results\<close>

text \<open>The exception classes, grouped by the package that declares them.\<close>

datatype py_error =
    ValueError | TypeError | KeyError | OSError | RuntimeError | StructError
  | IncompleteReadError | InvalidSignature | InvalidTag | IntegrityError

datatype wire_error =
    ProtocolError | TransportError | ConnectionClosedError | ConnectionLimitError
  | EncryptionError | DecryptionError | ReplayOrReorderError | SequenceExhaustedError

datatype lifecycle_error = InvalidConnectionTransition | InvalidTransferTransition

datatype handshake_error =
    HandshakeError | HandshakeTimeoutError | IdentityVerificationError | SignatureVerificationError
  | DeviceRevokedError | KeyChangedError | HandshakeProtocolError | KDFError

datatype trust_error = RotationError | RevocationError

datatype transfer_error =
    UnsafeFilenameError | TransferSecurityError | InsufficientDiskSpaceError | ChunkValidationError

datatype group_error =
    GroupStoreError | MembershipError | AdminError | GroupProtocolError | PolicyError
  | ExternalTrustDeniedError | ExportDeniedError | LeaveRequiresAdminError
  | InterGroupDeniedError | CommunicationDeniedError
  | InvalidCapabilityError | ExpiredCapabilityError | InvalidRequestError | AuditError

datatype connectivity_error =
    RelayNotHostingError | RelayAuthError | RelayTargetUnreachableError
  | RendezvousAuthError | RendezvousSignatureError | RendezvousDeviceIdMismatchError
  | LocatorError | EndpointUpdateError | LinkError | LinkFormatError | WrongPinError
  | LinkSignatureError

datatype vault_error =
    RecoveryCodeError | WeakPassphraseError | VaultExistsError | WrongSecretError
  | SessionLockedError

datatype error =
    Py py_error | Wire wire_error | Life lifecycle_error | Hs handshake_error | Trust trust_error
  | Xfer transfer_error | Grp group_error | Conn connectivity_error | Vault vault_error

type_synonym 'a result = "error + 'a"

definition rbind :: "'a result \<Rightarrow> ('a \<Rightarrow> 'b result) \<Rightarrow> 'b result" where
  "rbind m f = (case m of Inl e \<Rightarrow> Inl e | Inr x \<Rightarrow> f x)"

definition require :: "bool \<Rightarrow> error \<Rightarrow> unit result" where
  "require c e = (if c then Inr () else Inl e)"

definition is_ok :: "'a result \<Rightarrow> bool" where
  "is_ok m = (case m of Inl _ \<Rightarrow> False | Inr _ \<Rightarrow> True)"

lemma rbind_Inl [simp, result_simps]: "rbind (Inl e) f = Inl e"
  by (simp add: rbind_def)

lemma rbind_Inr [simp, result_simps]: "rbind (Inr x) f = f x"
  by (simp add: rbind_def)

lemma rbind_eq_Inr [result_simps]: "rbind m f = Inr y \<longleftrightarrow> (\<exists>x. m = Inr x \<and> f x = Inr y)"
  by (cases m) simp_all

lemma rbind_eq_Inl [result_simps]:
  "rbind m f = Inl e \<longleftrightarrow> m = Inl e \<or> (\<exists>x. m = Inr x \<and> f x = Inl e)"
  by (cases m) simp_all

lemma rbind_cong [fundef_cong]:
  "m = m' \<Longrightarrow> (\<And>x. m' = Inr x \<Longrightarrow> f x = f' x) \<Longrightarrow> rbind m f = rbind m' f'"
  by (cases m') simp_all

lemma rbind_assoc: "rbind (rbind m f) g = rbind m (\<lambda>x. rbind (f x) g)"
  by (cases m) simp_all

lemma require_Inr [simp, result_simps]: "require c e = Inr u \<longleftrightarrow> c"
  by (simp add: require_def)

lemma require_Inl [simp, result_simps]: "require c e = Inl e' \<longleftrightarrow> \<not> c \<and> e' = e"
  by (auto simp: require_def)

lemma require_True [simp]: "require True e = Inr ()"
  by (simp add: require_def)

lemma require_False [simp]: "require False e = Inl e"
  by (simp add: require_def)

lemma is_ok_simps [simp, result_simps]: "is_ok (Inl e) = False" "is_ok (Inr x) = True"
  by (simp_all add: is_ok_def)

lemma is_ok_iff: "is_ok m \<longleftrightarrow> (\<exists>x. m = Inr x)"
  by (cases m) simp_all

text \<open>An operation that reads and changes a state and returns or raises: the state after a raise is
  kept, because handlers see it.\<close>

type_synonym ('s, 'a) op = "'s \<Rightarrow> 'a result \<times> 's"

definition sret :: "'a \<Rightarrow> ('s, 'a) op" where
  "sret x s = (Inr x, s)"

definition sfail :: "error \<Rightarrow> ('s, 'a) op" where
  "sfail e s = (Inl e, s)"

definition slift :: "'a result \<Rightarrow> ('s, 'a) op" where
  "slift m s = (m, s)"

definition sbind :: "('s, 'a) op \<Rightarrow> ('a \<Rightarrow> ('s, 'b) op) \<Rightarrow> ('s, 'b) op" where
  "sbind m f s = (case m s of (Inl e, s') \<Rightarrow> (Inl e, s') | (Inr x, s') \<Rightarrow> f x s')"

definition smodify :: "('s \<Rightarrow> 's) \<Rightarrow> ('s, unit) op" where
  "smodify f s = (Inr (), f s)"

definition sgets :: "('s \<Rightarrow> 'a) \<Rightarrow> ('s, 'a) op" where
  "sgets f s = (Inr (f s), s)"

lemmas op_defs = sret_def sfail_def slift_def smodify_def sgets_def

lemma sbind_Inl [result_simps]: "m s = (Inl e, s') \<Longrightarrow> sbind m f s = (Inl e, s')"
  by (simp add: sbind_def)

lemma sbind_Inr [result_simps]: "m s = (Inr x, s') \<Longrightarrow> sbind m f s = f x s'"
  by (simp add: sbind_def)

lemma sbind_eq_Inr [result_simps]:
  "sbind m f s = (Inr y, s'') \<longleftrightarrow> (\<exists>x s'. m s = (Inr x, s') \<and> f x s' = (Inr y, s''))"
  by (auto simp: sbind_def split: prod.splits sum.splits)

lemma sbind_eq_Inl [result_simps]:
  "sbind m f s = (Inl e, s'') \<longleftrightarrow>
     m s = (Inl e, s'') \<or> (\<exists>x s'. m s = (Inr x, s') \<and> f x s' = (Inl e, s''))"
  by (auto simp: sbind_def split: prod.splits sum.splits)

lemma op_run [simp, result_simps]:
  "sret x s = (Inr x, s)" "sfail e s = (Inl e, s)" "slift m s = (m, s)"
  "smodify g s = (Inr (), g s)" "sgets h s = (Inr (h s), s)"
  by (simp_all add: op_defs)

lemma sbind_run [simp]:
  "sbind (sret x) f s = f x s" "sbind (sfail e) f s = (Inl e, s)"
  "sbind (slift (Inr x)) f s = f x s" "sbind (slift (Inl e)) f s = (Inl e, s)"
  "sbind (smodify g) f s = f () (g s)" "sbind (sgets h) f s = f (h s) s"
  by (simp_all add: sbind_def)

text \<open>A predicate on states kept by an operation, whether it returns or raises.\<close>

definition keeps :: "('s \<Rightarrow> bool) \<Rightarrow> ('s, 'a) op \<Rightarrow> bool" where
  "keeps I m \<longleftrightarrow> (\<forall>s. I s \<longrightarrow> I (snd (m s)))"

lemma keeps_basic [simp, intro]:
  "keeps I (sret x)" "keeps I (sfail e)" "keeps I (slift r)" "keeps I (sgets h)"
  by (simp_all add: keeps_def op_defs)

lemma keeps_sbind [intro]: "keeps I m \<Longrightarrow> (\<And>x. keeps I (f x)) \<Longrightarrow> keeps I (sbind m f)"
  by (force simp: keeps_def sbind_def split: prod.splits sum.splits)

section \<open>Bytes and big-endian integers\<close>

type_synonym byte = "8 word"
type_synonym bytes = "byte list"

definition byte_of :: "nat \<Rightarrow> byte" where
  "byte_of n = of_nat n"

text \<open>Python's \<open>v.to_bytes(n, "big")\<close> for a value in range, and \<open>int.from_bytes\<close>.\<close>

primrec be_bytes :: "nat \<Rightarrow> nat \<Rightarrow> bytes" where
  "be_bytes 0 v = []"
| "be_bytes (Suc n) v = be_bytes n (v div 256) @ [byte_of v]"

definition be_nat :: "bytes \<Rightarrow> nat" where
  "be_nat bs = foldl (\<lambda>a b. a * 256 + unat b) 0 bs"

text \<open>\<open>struct.pack\<close> of an unsigned integer of \<open>n\<close> bytes raises \<open>struct.error\<close> out of range.\<close>

definition pack_uint :: "nat \<Rightarrow> int \<Rightarrow> bytes result" where
  "pack_uint n v = (if 0 \<le> v \<and> v < 256 ^ n then Inr (be_bytes n (nat v)) else Inl (Py StructError))"

lemma unat_byte_less [simp]: "unat (b :: byte) < 256"
  using unsigned_less[of b, where ?'a = nat] by simp

lemma unat_byte_of [simp]: "unat (byte_of n) = n mod 256"
  by (simp add: byte_of_def unat_of_nat)

lemma byte_of_unat [simp]: "byte_of (unat b) = b"
  by (simp add: byte_of_def)

lemma length_be_bytes [simp, codec_simps]: "length (be_bytes n v) = n"
  by (induction n arbitrary: v) simp_all

lemma be_nat_Nil [simp]: "be_nat [] = 0"
  by (simp add: be_nat_def)

lemma be_nat_snoc [simp]: "be_nat (bs @ [b]) = be_nat bs * 256 + unat b"
  by (simp add: be_nat_def)

lemma be_nat_be_bytes [simp, codec_simps]: "v < 256 ^ n \<Longrightarrow> be_nat (be_bytes n v) = v"
proof (induction n arbitrary: v)
  case (Suc n)
  have "v div 256 < 256 ^ n"
    using Suc.prems by (simp add: less_mult_imp_div_less mult.commute)
  then show ?case
    using Suc.IH[of "v div 256"] by simp
qed simp

lemma be_nat_less: "be_nat bs < 256 ^ length bs"
proof (induction bs rule: rev_induct)
  case (snoc b bs)
  have "unat b < 256"
    by simp
  then have "be_nat bs * 256 + unat b < (be_nat bs + 1) * 256"
    by simp
  also have "\<dots> \<le> 256 ^ length bs * 256"
    using snoc.IH by (intro mult_right_mono) simp_all
  finally show ?case
    by (simp add: mult.commute)
qed simp

lemma be_bytes_be_nat [simp, codec_simps]: "be_bytes (length bs) (be_nat bs) = bs"
proof (induction bs rule: rev_induct)
  case (snoc b bs)
  have lt: "unat b < 256"
    by simp
  have "(of_nat 256 :: byte) = 0"
    by transfer simp
  then have "byte_of (be_nat bs * 256 + unat b) = b"
    unfolding byte_of_def by (simp only: of_nat_add of_nat_mult) simp
  then show ?case
    using snoc lt by simp
qed simp

lemma be_bytes_inject:
  "v < 256 ^ n \<Longrightarrow> w < 256 ^ n \<Longrightarrow> be_bytes n v = be_bytes n w \<longleftrightarrow> v = w"
  by (metis be_nat_be_bytes)

lemma pack_uint_Inr [codec_simps]:
  "pack_uint n v = Inr bs \<longleftrightarrow> 0 \<le> v \<and> v < 256 ^ n \<and> bs = be_bytes n (nat v)"
  by (auto simp: pack_uint_def)

lemma be_nat_pack: "pack_uint n v = Inr bs \<Longrightarrow> length bs = n \<and> int (be_nat bs) = v"
proof -
  assume "pack_uint n v = Inr bs"
  then have v: "0 \<le> v" "v < 256 ^ n" and bs: "bs = be_bytes n (nat v)"
    by (auto simp: pack_uint_Inr)
  from v have "nat v < 256 ^ n"
    by (simp add: nat_less_iff)
  then show ?thesis
    using v bs by simp
qed

section \<open>Dictionaries\<close>

text \<open>A Python dict keeps insertion order; assignment to a present key keeps its place.\<close>

type_synonym ('k, 'v) dict = "('k \<times> 'v) list"

abbreviation dict_get :: "('k, 'v) dict \<Rightarrow> 'k \<Rightarrow> 'v option" where
  "dict_get d k \<equiv> map_of d k"

abbreviation dict_set :: "'k \<Rightarrow> 'v \<Rightarrow> ('k, 'v) dict \<Rightarrow> ('k, 'v) dict" where
  "dict_set k v d \<equiv> AList.update k v d"

abbreviation dict_pop :: "'k \<Rightarrow> ('k, 'v) dict \<Rightarrow> ('k, 'v) dict" where
  "dict_pop k d \<equiv> AList.delete k d"

lemma dict_get_set [simp, dict_simps]:
  "dict_get (dict_set k v d) k' = (if k' = k then Some v else dict_get d k')"
  by (simp add: update_conv')

lemma dict_get_pop [simp, dict_simps]:
  "dict_get (dict_pop k d) k' = (if k' = k then None else dict_get d k')"
  by (simp add: delete_conv')

lemma dict_get_filter_key:
  "dict_get (filter (\<lambda>p. P (fst p)) d) k = (if P k then dict_get d k else None)"
  by (induction d) auto

section \<open>Lists\<close>

lemma take_append_exact [simp]: "length xs = n \<Longrightarrow> take n (xs @ ys) = xs"
  by simp

lemma drop_append_exact [simp]: "length xs = n \<Longrightarrow> drop n (xs @ ys) = ys"
  by simp

lemma find_SomeD: "find P xs = Some x \<Longrightarrow> x \<in> set xs \<and> P x"
  by (induction xs) (auto split: if_splits)

lemma find_None_iff': "find P xs = None \<longleftrightarrow> (\<forall>x\<in>set xs. \<not> P x)"
  by (auto simp: find_None_iff)

end
