(* ===== verification/Lifecycle.thy ===== *)
theory Lifecycle
  imports Prelude
begin

text \<open>
  The lifecycles of core/connection_state.py and core/transfer_state.py: the three
  state enumerations with their transition tables, the operations of the state machines,
  and what a sequence of accepted transitions can be. The contract shared by the three
  machines is the locale \<open>lifecycle\<close>; each table interprets it.
\<close>

section \<open>Connection lifecycle (core/connection_state.py)\<close>

datatype connection_state =
  NEW | TCP_CONNECTED | HANDSHAKING | AUTHENTICATED | ESTABLISHED | CLOSING | CLOSED

fun conn_allowed :: "connection_state \<Rightarrow> connection_state set" where
  "conn_allowed NEW = {TCP_CONNECTED, CLOSING}"
| "conn_allowed TCP_CONNECTED = {HANDSHAKING, CLOSING}"
| "conn_allowed HANDSHAKING = {AUTHENTICATED, CLOSING}"
| "conn_allowed AUTHENTICATED = {ESTABLISHED, CLOSING}"
| "conn_allowed ESTABLISHED = {CLOSING}"
| "conn_allowed CLOSING = {CLOSING, CLOSED}"
| "conn_allowed CLOSED = {CLOSED}"

definition is_established :: "connection_state \<Rightarrow> bool" where
  "is_established s \<longleftrightarrow> s = ESTABLISHED"

definition conn_is_terminal :: "connection_state \<Rightarrow> bool" where
  "conn_is_terminal s \<longleftrightarrow> s \<in> {CLOSING, CLOSED}"

definition conn_transition_to :: "connection_state \<Rightarrow> connection_state \<Rightarrow> connection_state result" where
  "conn_transition_to cur new =
     (if new \<notin> conn_allowed cur then Inl (Life InvalidConnectionTransition) else Inr new)"

definition require_established :: "connection_state \<Rightarrow> unit result" where
  "require_established s = (if \<not> is_established s then Inl (Life InvalidConnectionTransition) else Inr ())"

section \<open>Transfer lifecycles (core/transfer_state.py)\<close>

datatype outgoing_state =
  O_OFFERED | O_WAITING_FOR_ACCEPT | O_SENDING | O_WAITING_FOR_COMPLETE_ACK
| O_COMPLETED | O_FAILED | O_REJECTED | O_CANCELLED

fun outgoing_transitions :: "outgoing_state \<Rightarrow> outgoing_state set" where
  "outgoing_transitions O_OFFERED = {O_WAITING_FOR_ACCEPT}"
| "outgoing_transitions O_WAITING_FOR_ACCEPT = {O_SENDING, O_FAILED, O_REJECTED, O_CANCELLED}"
| "outgoing_transitions O_SENDING = {O_WAITING_FOR_COMPLETE_ACK, O_FAILED, O_CANCELLED}"
| "outgoing_transitions O_WAITING_FOR_COMPLETE_ACK = {O_COMPLETED, O_FAILED, O_CANCELLED}"
| "outgoing_transitions O_COMPLETED = {O_COMPLETED}"
| "outgoing_transitions O_FAILED = {O_FAILED}"
| "outgoing_transitions O_REJECTED = {O_REJECTED}"
| "outgoing_transitions O_CANCELLED = {O_CANCELLED}"

datatype incoming_state =
  I_OFFERED | I_ACCEPTED | I_RECEIVING | I_PAUSED | I_RESUMING | I_VERIFYING
| I_COMPLETED | I_REJECTED | I_CANCELLED | I_FAILED | I_EXPIRED

definition incoming_terminal_outcomes :: "incoming_state set" where
  "incoming_terminal_outcomes = {I_REJECTED, I_CANCELLED, I_FAILED, I_EXPIRED}"

fun incoming_transitions :: "incoming_state \<Rightarrow> incoming_state set" where
  "incoming_transitions I_OFFERED = {I_ACCEPTED} \<union> incoming_terminal_outcomes"
| "incoming_transitions I_ACCEPTED = {I_RECEIVING} \<union> incoming_terminal_outcomes"
| "incoming_transitions I_RECEIVING = {I_RECEIVING, I_VERIFYING, I_PAUSED} \<union> incoming_terminal_outcomes"
| "incoming_transitions I_PAUSED = {I_RESUMING} \<union> incoming_terminal_outcomes"
| "incoming_transitions I_RESUMING = {I_RECEIVING} \<union> incoming_terminal_outcomes"
| "incoming_transitions I_VERIFYING = {I_COMPLETED} \<union> incoming_terminal_outcomes"
| "incoming_transitions I_COMPLETED = {I_COMPLETED}"
| "incoming_transitions I_REJECTED = {I_REJECTED}"
| "incoming_transitions I_CANCELLED = {I_CANCELLED}"
| "incoming_transitions I_FAILED = {I_FAILED}"
| "incoming_transitions I_EXPIRED = {I_EXPIRED}"

text \<open>The machine of a transfer: its table is a parameter, as in the constructor.\<close>

definition transfer_is_terminal :: "('s \<Rightarrow> 's set) \<Rightarrow> 's \<Rightarrow> bool" where
  "transfer_is_terminal table s \<longleftrightarrow> table s = {s}"

definition transfer_transition_to :: "('s \<Rightarrow> 's set) \<Rightarrow> 's \<Rightarrow> 's \<Rightarrow> 's result" where
  "transfer_transition_to table cur new =
     (if new \<notin> table cur then Inl (Life InvalidTransferTransition) else Inr new)"

abbreviation out_to :: "outgoing_state \<Rightarrow> outgoing_state \<Rightarrow> outgoing_state result" where
  "out_to \<equiv> transfer_transition_to outgoing_transitions"

abbreviation in_to :: "incoming_state \<Rightarrow> incoming_state \<Rightarrow> incoming_state result" where
  "in_to \<equiv> transfer_transition_to incoming_transitions"

section \<open>The contract of a lifecycle\<close>

text \<open>A run requests the given states one after the other and stops at the first refusal.\<close>

fun run_to :: "('s \<Rightarrow> 's \<Rightarrow> 's result) \<Rightarrow> 's \<Rightarrow> 's list \<Rightarrow> 's result" where
  "run_to step s [] = Inr s"
| "run_to step s (t # ts) = rbind (step s t) (\<lambda>s'. run_to step s' ts)"

lemma run_to_append: "run_to step s (xs @ ys) = rbind (run_to step s xs) (\<lambda>s'. run_to step s' ys)"
  by (induction xs arbitrary: s) (simp_all add: rbind_assoc)

locale lifecycle =
  fixes table :: "'s \<Rightarrow> 's set"
    and step :: "'s \<Rightarrow> 's \<Rightarrow> 's result"
    and over :: "'s set"
  assumes step_iff: "step s t = Inr u \<longleftrightarrow> t \<in> table s \<and> u = t"
    and over_closed: "s \<in> over \<Longrightarrow> table s \<subseteq> over"
    and exit: "s \<notin> over \<Longrightarrow> \<exists>ts u. run_to step s ts = Inr u \<and> u \<in> over"
begin

lemma run_last: "run_to step s ts = Inr u \<Longrightarrow> u = last (s # ts)"
  by (induction ts arbitrary: s) (auto simp: rbind_eq_Inr step_iff)

lemma run_stays_over: "run_to step s ts = Inr u \<Longrightarrow> s \<in> over \<Longrightarrow> u \<in> over"
proof (induction ts arbitrary: s)
  case (Cons t ts)
  then show ?case
    using over_closed[of s] by (auto simp: rbind_eq_Inr step_iff)
qed simp

lemma run_last_step:
  assumes "run_to step s ts = Inr u" "u \<noteq> s"
  obtains ts' p where "run_to step s ts' = Inr p" "p \<noteq> u" "u \<in> table p"
  using assms
proof (induction ts arbitrary: thesis rule: rev_induct)
  case (snoc t ts)
  then obtain p where p: "run_to step s ts = Inr p" "u \<in> table p"
    by (auto simp: run_to_append rbind_eq_Inr step_iff)
  then show ?case
    using snoc by (cases "p = u") auto
qed simp

lemma can_finish: "\<exists>ts u. run_to step s ts = Inr u \<and> u \<in> over"
proof (cases "s \<in> over")
  case True
  then have "run_to step s [] = Inr s \<and> s \<in> over"
    by simp
  then show ?thesis
    by blast
qed (rule exit)

end

lemma conn_step_iff: "conn_transition_to s t = Inr u \<longleftrightarrow> t \<in> conn_allowed s \<and> u = t"
  by (auto simp: conn_transition_to_def)

lemma transfer_step_iff: "transfer_transition_to table s t = Inr u \<longleftrightarrow> t \<in> table s \<and> u = t"
  by (auto simp: transfer_transition_to_def)

lemmas lifecycle_step = conn_step_iff transfer_step_iff incoming_terminal_outcomes_def rbind_eq_Inr

interpretation conn: lifecycle conn_allowed conn_transition_to "{CLOSING, CLOSED}"
proof
  fix s :: connection_state
  assume "s \<notin> {CLOSING, CLOSED}"
  then have "run_to conn_transition_to s [CLOSING] = Inr CLOSING"
    by (cases s) (simp_all add: conn_transition_to_def)
  then show "\<exists>ts u. run_to conn_transition_to s ts = Inr u \<and> u \<in> {CLOSING, CLOSED}"
    by blast
qed (auto simp: conn_step_iff)

interpretation outgoing: lifecycle outgoing_transitions out_to
  "{O_COMPLETED, O_FAILED, O_REJECTED, O_CANCELLED}"
proof
  fix s
  assume "s \<notin> {O_COMPLETED, O_FAILED, O_REJECTED, O_CANCELLED}"
  then have "run_to out_to s (if s = O_OFFERED then [O_WAITING_FOR_ACCEPT, O_FAILED] else [O_FAILED]) = Inr O_FAILED"
    by (cases s) (simp_all add: transfer_transition_to_def)
  then show "\<exists>ts u. run_to out_to s ts = Inr u \<and> u \<in> {O_COMPLETED, O_FAILED, O_REJECTED, O_CANCELLED}"
    by blast
qed (auto simp: transfer_step_iff)

interpretation incoming: lifecycle incoming_transitions in_to
  "insert I_COMPLETED incoming_terminal_outcomes"
proof
  fix s
  assume "s \<notin> insert I_COMPLETED incoming_terminal_outcomes"
  then have "run_to in_to s [I_FAILED] = Inr I_FAILED"
    by (cases s) (simp_all add: transfer_transition_to_def incoming_terminal_outcomes_def)
  then show "\<exists>ts u. run_to in_to s ts = Inr u \<and> u \<in> insert I_COMPLETED incoming_terminal_outcomes"
    unfolding incoming_terminal_outcomes_def by blast
qed (auto simp: transfer_step_iff incoming_terminal_outcomes_def)

section \<open>Properties\<close>

lemma conn_run_cases:
  "run_to conn_transition_to s ts = Inr ESTABLISHED \<Longrightarrow>
   ts = (case s of NEW \<Rightarrow> [TCP_CONNECTED, HANDSHAKING, AUTHENTICATED, ESTABLISHED]
         | TCP_CONNECTED \<Rightarrow> [HANDSHAKING, AUTHENTICATED, ESTABLISHED]
         | HANDSHAKING \<Rightarrow> [AUTHENTICATED, ESTABLISHED]
         | AUTHENTICATED \<Rightarrow> [ESTABLISHED] | _ \<Rightarrow> []) \<and> s \<notin> {CLOSING, CLOSED}"
proof (induction ts arbitrary: s)
  case (Cons t ts)
  from Cons.prems have t: "t \<in> conn_allowed s" and r: "run_to conn_transition_to t ts = Inr ESTABLISHED"
    by (auto simp: lifecycle_step)
  then show ?case
    using Cons.IH[OF r] by (cases s; cases t; simp)
qed auto

text \<open>
  (C27) A connection is ESTABLISHED after exactly one sequence of accepted transitions: TCP
  connect, handshake, authentication, establishment. No step can be skipped or repeated, so a
  frame that passes \<open>require_established\<close> arrives on a connection that was authenticated.
\<close>

theorem established_only_via_handshake:
  "run_to conn_transition_to NEW ts = Inr s \<and> require_established s = Inr () \<longleftrightarrow>
   s = ESTABLISHED \<and> ts = [TCP_CONNECTED, HANDSHAKING, AUTHENTICATED, ESTABLISHED]"
  using conn_run_cases[of NEW ts]
  by (auto simp: require_established_def is_established_def conn_transition_to_def)

lemma out_run_cases:
  "run_to out_to s ts = Inr O_COMPLETED \<Longrightarrow>
   \<exists>n. ts = (case s of O_OFFERED \<Rightarrow> [O_WAITING_FOR_ACCEPT, O_SENDING, O_WAITING_FOR_COMPLETE_ACK, O_COMPLETED]
         | O_WAITING_FOR_ACCEPT \<Rightarrow> [O_SENDING, O_WAITING_FOR_COMPLETE_ACK, O_COMPLETED]
         | O_SENDING \<Rightarrow> [O_WAITING_FOR_COMPLETE_ACK, O_COMPLETED]
         | O_WAITING_FOR_COMPLETE_ACK \<Rightarrow> [O_COMPLETED] | _ \<Rightarrow> []) @ replicate n O_COMPLETED
     \<and> s \<notin> {O_FAILED, O_REJECTED, O_CANCELLED}"
proof (induction ts arbitrary: s)
  case Nil
  then have "s = O_COMPLETED" by simp
  then show ?case by (intro exI[of _ 0]) simp
next
  case (Cons t ts)
  from Cons.prems have t: "t \<in> outgoing_transitions s" and r: "run_to out_to t ts = Inr O_COMPLETED"
    by (auto simp: lifecycle_step)
  from Cons.IH[OF r] obtain n where n: "ts = (case t of O_OFFERED \<Rightarrow> [O_WAITING_FOR_ACCEPT, O_SENDING, O_WAITING_FOR_COMPLETE_ACK, O_COMPLETED]
         | O_WAITING_FOR_ACCEPT \<Rightarrow> [O_SENDING, O_WAITING_FOR_COMPLETE_ACK, O_COMPLETED]
         | O_SENDING \<Rightarrow> [O_WAITING_FOR_COMPLETE_ACK, O_COMPLETED]
         | O_WAITING_FOR_COMPLETE_ACK \<Rightarrow> [O_COMPLETED] | _ \<Rightarrow> []) @ replicate n O_COMPLETED"
     "t \<notin> {O_FAILED, O_REJECTED, O_CANCELLED}"
    by blast
  show ?case
    using t n by (cases s; cases t; simp) (auto intro: exI[of _ "Suc n"] exI[of _ n])
qed

lemma run_replicate_self: "s \<in> table s \<Longrightarrow>
  run_to (transfer_transition_to table) s (replicate n s) = Inr s"
  by (induction n) (simp_all add: transfer_transition_to_def)

text \<open>
  (C28) An outgoing transfer is COMPLETED only along offer, accept, send, completion ack; the
  only freedom is repeating COMPLETED, which the machine accepts as a no-op.
\<close>

theorem outgoing_completed_iff:
  "run_to out_to O_OFFERED ts = Inr O_COMPLETED \<longleftrightarrow>
   (\<exists>n. ts = [O_WAITING_FOR_ACCEPT, O_SENDING, O_WAITING_FOR_COMPLETE_ACK, O_COMPLETED] @ replicate n O_COMPLETED)"
  (is "?l \<longleftrightarrow> ?r")
proof
  assume ?r
  then show ?l
    using run_replicate_self[of O_COMPLETED outgoing_transitions]
    by (auto simp: transfer_transition_to_def)
qed (auto dest: out_run_cases)

text \<open>
  An incoming transfer that reaches COMPLETED was in VERIFYING immediately before it first
  became COMPLETED: no run completes a file without the verification state.
\<close>

lemma incoming_completed_was_verified:
  "run_to in_to I_OFFERED ts = Inr I_COMPLETED \<Longrightarrow>
   \<exists>n ts'. ts = ts' @ [I_VERIFYING] @ replicate (Suc n) I_COMPLETED \<and>
     run_to in_to I_OFFERED (ts' @ [I_VERIFYING]) = Inr I_VERIFYING"
proof (induction ts rule: rev_induct)
  case (snoc t ts)
  then obtain p where p: "run_to in_to I_OFFERED ts = Inr p" "I_COMPLETED \<in> incoming_transitions p"
    and t: "t = I_COMPLETED"
    by (auto simp: run_to_append lifecycle_step)
  show ?case
  proof (cases "p = I_COMPLETED")
    case True
    with snoc.IH p obtain n ts' where "ts = ts' @ [I_VERIFYING] @ replicate (Suc n) I_COMPLETED"
      "run_to in_to I_OFFERED (ts' @ [I_VERIFYING]) = Inr I_VERIFYING"
      by blast
    then show ?thesis
      using t by (intro exI[of _ "Suc n"] exI[of _ ts']) (simp add: replicate_append_same)
  next
    case False
    then have v: "p = I_VERIFYING"
      using p(2) by (cases p) (auto simp: incoming_terminal_outcomes_def)
    with incoming.run_last[OF p(1)] have "last (I_OFFERED # ts) = I_VERIFYING"
      by simp
    then have "ts \<noteq> []" "last ts = I_VERIFYING"
      by (auto split: if_splits)
    then have "ts = butlast ts @ [I_VERIFYING]"
      using append_butlast_last_id[of ts] by simp
    then show ?thesis
      using p(1) v t by (intro exI[of _ 0] exI[of _ "butlast ts"]) simp
  qed
qed simp

lemma run_terminal:
  "run_to (transfer_transition_to table) x xs = Inr y \<Longrightarrow> transfer_is_terminal table x \<Longrightarrow> y = x"
  by (induction xs arbitrary: x) (auto simp: lifecycle_step transfer_is_terminal_def)

lemma outgoing_terminal_iff:
  "transfer_is_terminal outgoing_transitions s \<longleftrightarrow> s \<in> {O_COMPLETED, O_FAILED, O_REJECTED, O_CANCELLED}"
  by (cases s) (auto simp: transfer_is_terminal_def)

lemma incoming_terminal_iff:
  "transfer_is_terminal incoming_transitions s \<longleftrightarrow> s \<in> insert I_COMPLETED incoming_terminal_outcomes"
  by (cases s) (auto simp: transfer_is_terminal_def incoming_terminal_outcomes_def)



end
