(* ===== verification/Text.thy ===== *)
theory Text
  imports Prelude
begin

text \<open>
  Text as the program handles it: Python strings over the code points U+0000 to U+00FF
  (one Isabelle character each), their UTF-8 encoding, decimal and hexadecimal numerals,
  and the 36-character form of a UUID. Bytes that decode to a code point above U+00FF are
  outside the model and are reported like undecodable bytes.
\<close>

section \<open>UTF-8\<close>

definition utf8_char :: "char \<Rightarrow> bytes" where
  "utf8_char c = (let n = of_char c :: nat in
     if n < 128 then [byte_of n] else [byte_of (192 + n div 64), byte_of (128 + n mod 64)])"

definition utf8_encode :: "string \<Rightarrow> bytes" where
  "utf8_encode s = concat (map utf8_char s)"

fun utf8_decode :: "bytes \<Rightarrow> string option" where
  "utf8_decode [] = Some []"
| "utf8_decode (b # bs) =
    (if unat b < 128 then map_option (Cons (char_of (unat b))) (utf8_decode bs)
     else if unat b = 194 \<or> unat b = 195 then
       (case bs of [] \<Rightarrow> None
        | c # cs \<Rightarrow> if 128 \<le> unat c \<and> unat c < 192
            then map_option (Cons (char_of ((unat b - 192) * 64 + (unat c - 128)))) (utf8_decode cs)
            else None)
     else None)"

lemma of_char_less [simp]: "(of_char c :: nat) < 256"
  using nat_of_char_less_256 .

lemma utf8_decode_char [simp]: "utf8_decode (utf8_char c @ bs) = map_option (Cons c) (utf8_decode bs)"
proof -
  have lt: "(of_char c :: nat) < 256"
    by simp
  show ?thesis
  proof (cases "(of_char c :: nat) < 128")
    case False
    with lt have "(of_char c :: nat) div 64 = 2 \<or> (of_char c :: nat) div 64 = 3"
      by linarith
    moreover have "(of_char c :: nat) div 64 = 2 \<Longrightarrow> 128 + of_char c mod 64 = (of_char c :: nat)"
      using div_mult_mod_eq[of "of_char c :: nat" 64] by linarith
    moreover have "(of_char c :: nat) div 64 = 3 \<Longrightarrow> 192 + of_char c mod 64 = (of_char c :: nat)"
      using div_mult_mod_eq[of "of_char c :: nat" 64] by linarith
    ultimately show ?thesis
      using False by (auto simp: utf8_char_def Let_def)
  qed (simp add: utf8_char_def Let_def)
qed

lemma utf8_decode_encode [simp, codec_simps]: "utf8_decode (utf8_encode s) = Some s"
  by (induction s) (simp_all add: utf8_encode_def)

lemma utf8_encode_inject [simp]: "utf8_encode s = utf8_encode t \<longleftrightarrow> s = t"
  by (metis utf8_decode_encode option.inject)

lemma utf8_encode_Nil [simp]: "utf8_encode s = [] \<longleftrightarrow> s = []"
  by (cases s) (auto simp: utf8_encode_def utf8_char_def Let_def)

lemma utf8_encode_append [simp]: "utf8_encode (s @ t) = utf8_encode s @ utf8_encode t"
  by (simp add: utf8_encode_def)

section \<open>Decimal numerals\<close>

definition is_digit :: "char \<Rightarrow> bool" where
  "is_digit c \<longleftrightarrow> 48 \<le> (of_char c :: nat) \<and> (of_char c :: nat) \<le> 57"

definition digit :: "nat \<Rightarrow> char" where
  "digit d = char_of (48 + d)"

definition digit_val :: "char \<Rightarrow> nat" where
  "digit_val c = of_char c - 48"

definition digits_val :: "string \<Rightarrow> nat" where
  "digits_val s = foldl (\<lambda>a c. a * 10 + digit_val c) 0 s"

fun nat_str :: "nat \<Rightarrow> string" where
  "nat_str n = (if n < 10 then [digit n] else nat_str (n div 10) @ [digit (n mod 10)])"

declare nat_str.simps [simp del]

primrec pad_digits :: "nat \<Rightarrow> nat \<Rightarrow> string" where
  "pad_digits 0 n = []"
| "pad_digits (Suc k) n = pad_digits k (n div 10) @ [digit (n mod 10)]"

definition int_str :: "int \<Rightarrow> string" where
  "int_str i = (if i < 0 then CHR ''-'' # nat_str (nat (- i)) else nat_str (nat i))"

lemma is_digit_digit [simp]: "d < 10 \<Longrightarrow> is_digit (digit d)"
  by (simp add: is_digit_def digit_def)

lemma digit_val_digit [simp]: "d < 10 \<Longrightarrow> digit_val (digit d) = d"
  by (simp add: digit_val_def digit_def)

lemma digits_val_snoc [simp]: "digits_val (s @ [c]) = digits_val s * 10 + digit_val c"
  by (simp add: digits_val_def)

lemma digits_val_Nil [simp]: "digits_val [] = 0"
  by (simp add: digits_val_def)

lemma digits_val_nat_str [simp, codec_simps]: "digits_val (nat_str n) = n"
proof (induction n rule: nat_str.induct)
  case (1 n)
  then show ?case
    by (subst nat_str.simps) (simp add: digits_val_def)
qed

lemma nat_str_digits [simp]: "list_all is_digit (nat_str n)"
proof (induction n rule: nat_str.induct)
  case (1 n)
  then show ?case
    by (subst nat_str.simps) simp
qed

lemma nat_str_not_Nil [simp]: "nat_str n \<noteq> []"
  by (subst nat_str.simps) simp

lemma nat_str_hd: "hd (nat_str n) = CHR ''0'' \<Longrightarrow> nat_str n = ''0''"
proof (induction n rule: nat_str.induct)
  case (1 n)
  show ?case
  proof (cases "n < 10")
    case True
    then show ?thesis
      using "1.prems" by (subst nat_str.simps) (subst (asm) nat_str.simps, simp)
  next
    case False
    then have s: "nat_str n = nat_str (n div 10) @ [digit (n mod 10)]"
      by (subst nat_str.simps) simp
    with "1.prems" have "hd (nat_str (n div 10)) = CHR ''0''"
      by simp
    with "1.IH" False have "nat_str (n div 10) = ''0''"
      by simp
    then have "n div 10 = 0"
      using digits_val_nat_str[of "n div 10"] by (simp add: digits_val_def digit_val_def)
    with False show ?thesis
      by simp
  qed
qed

lemma length_pad_digits [simp]: "length (pad_digits k n) = k"
  by (induction k arbitrary: n) simp_all

lemma pad_digits_digits [simp]: "list_all is_digit (pad_digits k n)"
  by (induction k arbitrary: n) simp_all

lemma digits_val_pad_append: "digits_val (s @ pad_digits k n) = digits_val s * 10 ^ k + n mod 10 ^ k"
proof (induction k arbitrary: n)
  case (Suc k)
  have "n mod (10 * 10 ^ k) = 10 * (n div 10 mod 10 ^ k) + n mod 10"
    by (rule mod_mult2_eq)
  then show ?case
    using Suc[of "n div 10"] by (simp add: append_assoc[symmetric] del: append_assoc) 
qed simp

section \<open>Hexadecimal\<close>

definition hex_digit :: "nat \<Rightarrow> char" where
  "hex_digit n = (if n < 10 then char_of (48 + n) else char_of (87 + n))"

definition hex_val :: "char \<Rightarrow> nat option" where
  "hex_val c = (let n = of_char c :: nat in
     if 48 \<le> n \<and> n \<le> 57 then Some (n - 48)
     else if 97 \<le> n \<and> n \<le> 102 then Some (n - 87)
     else if 65 \<le> n \<and> n \<le> 70 then Some (n - 55) else None)"

definition hex_byte :: "byte \<Rightarrow> string" where
  "hex_byte b = [hex_digit (unat b div 16), hex_digit (unat b mod 16)]"

text \<open>\<open>bytes.hex()\<close> writes lower case; \<open>bytes.fromhex\<close> reads both cases (the white space it
  also skips between bytes is outside the model).\<close>

definition to_hex :: "bytes \<Rightarrow> string" where
  "to_hex bs = concat (map hex_byte bs)"

fun from_hex :: "string \<Rightarrow> bytes option" where
  "from_hex [] = Some []"
| "from_hex [c] = None"
| "from_hex (c # d # s) =
     (case (hex_val c, hex_val d, from_hex s) of
        (Some h, Some l, Some bs) \<Rightarrow> Some (byte_of (16 * h + l) # bs)
      | _ \<Rightarrow> None)"

lemma hex_val_digit [simp]: "n < 16 \<Longrightarrow> hex_val (hex_digit n) = Some n"
  by (auto simp: hex_val_def hex_digit_def Let_def)

lemma from_hex_byte [simp]: "from_hex (hex_byte b @ s) = map_option (Cons b) (from_hex s)"
proof -
  have "unat b div 16 < 16"
    using unat_byte_less[of b] by linarith
  moreover have "16 * (unat b div 16) + unat b mod 16 = unat b"
    by simp
  ultimately show ?thesis
    by (simp add: hex_byte_def split: option.split)
qed

lemma from_hex_to_hex [simp, codec_simps]: "from_hex (to_hex bs) = Some bs"
  by (induction bs) (simp_all add: to_hex_def)

lemma length_to_hex [simp]: "length (to_hex bs) = 2 * length bs"
  by (induction bs) (simp_all add: to_hex_def hex_byte_def)

lemma to_hex_inject [simp]: "to_hex a = to_hex b \<longleftrightarrow> a = b"
  by (metis from_hex_to_hex option.inject)

end
