(* ===== verification/Regex.thy ===== *)
theory Regex
  imports Text
begin

text \<open>
  The part of Python's re module that the program uses: whether a pattern matches at a position
  (\<open>match\<close>) or anywhere (\<open>search\<close>) in a text. Only the existence of a match is used, so a
  pattern is interpreted as the list of positions at which a match that starts at a given position
  can end. Also the character classes and \<open>str.strip\<close>.
\<close>

section \<open>Characters\<close>

abbreviation code :: "char \<Rightarrow> nat" where
  "code c \<equiv> of_char c"

definition between :: "nat \<Rightarrow> nat \<Rightarrow> char \<Rightarrow> bool" where
  "between a b c \<longleftrightarrow> a \<le> code c \<and> code c \<le> b"

definition is_ascii_alpha :: "char \<Rightarrow> bool" where
  "is_ascii_alpha c \<longleftrightarrow> between 65 90 c \<or> between 97 122 c"

definition is_ascii_alnum :: "char \<Rightarrow> bool" where
  "is_ascii_alnum c \<longleftrightarrow> is_ascii_alpha c \<or> between 48 57 c"

definition is_word_char :: "char \<Rightarrow> bool" where
  "is_word_char c \<longleftrightarrow> is_ascii_alnum c \<or> code c = 95 \<or>
     code c \<in> {170, 178, 179, 181, 185, 186, 188, 189, 190} \<or>
     between 192 214 c \<or> between 216 246 c \<or> between 248 255 c"

definition is_space :: "char \<Rightarrow> bool" where
  "is_space c \<longleftrightarrow> between 9 13 c \<or> between 28 32 c \<or> code c = 133 \<or> code c = 160"

definition to_lower :: "char \<Rightarrow> char" where
  "to_lower c = (if between 65 90 c \<or> between 192 214 c \<or> between 216 222 c then char_of (code c + 32) else c)"

definition strip :: "string \<Rightarrow> string" where
  "strip s = rev (dropWhile is_space (rev (dropWhile is_space s)))"

section \<open>Patterns\<close>

datatype regex =
    Eps
  | Cls "char \<Rightarrow> bool"
  | Cat regex regex
  | Alt regex regex
  | Rep nat "nat option" regex
  | Boundary
  | Bol
  | Eol

definition lit :: "string \<Rightarrow> regex" where
  "lit s = foldr (\<lambda>c r. Cat (Cls (\<lambda>d. to_lower d = to_lower c)) r) s Eps"

definition at_boundary :: "string \<Rightarrow> nat \<Rightarrow> bool" where
  "at_boundary s i \<longleftrightarrow>
     (0 < i \<and> i \<le> length s \<and> is_word_char (s ! (i - 1))) \<noteq> (i < length s \<and> is_word_char (s ! i))"

text \<open>Iterating one step from a set of positions; a round that adds nothing new may stop, and a text
  of length n has at most n + 1 positions, so n + 1 further rounds reach them all.\<close>

fun iterate :: "(nat \<Rightarrow> nat list) \<Rightarrow> nat \<Rightarrow> nat list \<Rightarrow> nat list" where
  "iterate f 0 ps = ps"
| "iterate f (Suc n) ps = iterate f n (remdups (concat (map f ps)))"

fun iterate_upto :: "(nat \<Rightarrow> nat list) \<Rightarrow> nat \<Rightarrow> nat list \<Rightarrow> nat list" where
  "iterate_upto f 0 ps = ps"
| "iterate_upto f (Suc n) ps = (if ps = [] then [] else remdups (ps @ iterate_upto f n (remdups (concat (map f ps)))))"

fun ends :: "regex \<Rightarrow> string \<Rightarrow> nat \<Rightarrow> nat list" where
  "ends Eps s i = [i]"
| "ends (Cls p) s i = (if i < length s \<and> p (s ! i) then [Suc i] else [])"
| "ends (Cat a b) s i = remdups (concat (map (ends b s) (ends a s i)))"
| "ends (Alt a b) s i = remdups (ends a s i @ ends b s i)"
| "ends (Rep lo hi r) s i =
     iterate_upto (ends r s) (case hi of None \<Rightarrow> Suc (length s) | Some h \<Rightarrow> h - lo) (iterate (ends r s) lo [i])"
| "ends Boundary s i = (if at_boundary s i then [i] else [])"
| "ends Bol s i = (if i = 0 then [i] else [])"
| "ends Eol s i = (if i = length s \<or> Suc i = length s \<and> s ! i = CHR 0x0A then [i] else [])"

definition re_match :: "regex \<Rightarrow> string \<Rightarrow> bool" where
  "re_match r s \<longleftrightarrow> ends r s 0 \<noteq> []"

definition re_search :: "regex \<Rightarrow> string \<Rightarrow> bool" where
  "re_search r s \<longleftrightarrow> list_ex (\<lambda>i. ends r s i \<noteq> []) [0..<Suc (length s)]"

text \<open>A pattern of the form \<open>^[class]{lo,hi}$\<close> given to \<open>match\<close>: the dollar sign also matches before a
  final newline.\<close>

definition match_line :: "(char \<Rightarrow> bool) \<Rightarrow> nat \<Rightarrow> nat \<Rightarrow> string \<Rightarrow> bool" where
  "match_line p lo hi s \<longleftrightarrow>
     (let body = (\<lambda>t. lo \<le> length t \<and> length t \<le> hi \<and> list_all p t)
      in body s \<or> (s \<noteq> [] \<and> last s = CHR 0x0A \<and> body (butlast s)))"

lemma strip_Nil [simp]: "strip [] = []"
  by (simp add: strip_def)

end
