(* ===== verification/Paths.thy ===== *)
theory Paths
  imports Regex
begin

text \<open>
  The functions of Python's str and of os.path (POSIX rules) that the program applies to names and
  paths: splitting, case, joining, base names and extensions, and the truncation of a name's UTF-8
  form. The lemmas give what the path-confinement argument needs of them.
\<close>

section \<open>Strings\<close>

text \<open>\<open>s.split(c)\<close>: never empty.\<close>

fun split_on :: "char \<Rightarrow> string \<Rightarrow> string list" where
  "split_on c [] = [[]]"
| "split_on c (x # xs) =
    (if x = c then [] # split_on c xs
     else (case split_on c xs of [] \<Rightarrow> [[x]] | w # ws \<Rightarrow> (x # w) # ws))"

text \<open>\<open>sep.join(words)\<close>.\<close>

fun join_with :: "string \<Rightarrow> string list \<Rightarrow> string" where
  "join_with sep [] = []"
| "join_with sep [x] = x"
| "join_with sep (x # y # ys) = x @ sep @ join_with sep (y # ys)"

definition lower :: "string \<Rightarrow> string" where
  "lower s = map to_lower s"

text \<open>The upper-case form as far as it stays within U+0000 to U+00FF; the three characters whose upper
  case lies outside stay as they are.\<close>

definition to_upper :: "char \<Rightarrow> char" where
  "to_upper c = (if between 97 122 c \<or> between 224 246 c \<or> between 248 254 c then char_of (code c - 32) else c)"

definition ends_with :: "string \<Rightarrow> string \<Rightarrow> bool" where
  "ends_with s suf \<longleftrightarrow> suffix suf s"

definition rstrip_chars :: "char set \<Rightarrow> string \<Rightarrow> string" where
  "rstrip_chars cs s = rev (dropWhile (\<lambda>c. c \<in> cs) (rev s))"

text \<open>\<open>b[:n]\<close> for a bound of either sign.\<close>

definition py_take :: "int \<Rightarrow> 'a list \<Rightarrow> 'a list" where
  "py_take n xs = (if 0 \<le> n then take (nat n) xs else take (length xs - nat (- n)) xs)"

text \<open>\<open>decode("utf-8", "ignore")\<close>: undecodable bytes are dropped.\<close>

fun decode_ignore :: "bytes \<Rightarrow> string" where
  "decode_ignore [] = []"
| "decode_ignore (b # bs) =
    (if unat b < 128 then char_of (unat b) # decode_ignore bs
     else if unat b = 194 \<or> unat b = 195 then
       (case bs of
          [] \<Rightarrow> []
        | c # cs \<Rightarrow> if 128 \<le> unat c \<and> unat c < 192
            then char_of ((unat b - 192) * 64 + (unat c - 128)) # decode_ignore cs
            else decode_ignore bs)
     else decode_ignore bs)"

section \<open>os.path\<close>

definition basename :: "string \<Rightarrow> string" where
  "basename p = rev (takeWhile (\<lambda>c. c \<noteq> CHR ''/'') (rev p))"

definition path_join :: "string \<Rightarrow> string \<Rightarrow> string" where
  "path_join a b =
    (if b \<noteq> [] \<and> hd b = CHR ''/'' then b
     else if a = [] \<or> last a = CHR ''/'' then a @ b
     else a @ ''/'' @ b)"

text \<open>\<open>splitext\<close> of a path: the extension starts at the last dot of the base name, unless only dots
  stand before it there.\<close>

definition splitext :: "string \<Rightarrow> string \<times> string" where
  "splitext p =
    (let b = basename p; after = takeWhile (\<lambda>c. c \<noteq> CHR ''.'') (rev b);
         stem = rev (drop (Suc (length after)) (rev b))
     in if CHR ''.'' \<in> set b \<and> list_ex (\<lambda>c. c \<noteq> CHR ''.'') stem
        then (take (length p - Suc (length after)) p, CHR ''.'' # rev after)
        else (p, []))"

section \<open>Lemmas\<close>

lemma split_on_not_Nil [simp]: "split_on c s \<noteq> []"
  by (induction s) (auto split: list.split)

lemma split_on_no_sep: "w \<in> set (split_on c s) \<Longrightarrow> c \<notin> set w"
  by (induction s arbitrary: w) (auto split: list.splits if_splits)

lemma split_on_chars: "w \<in> set (split_on c s) \<Longrightarrow> set w \<subseteq> set s"
  by (induction s arbitrary: w) (fastforce split: list.splits if_splits)+

lemma split_on_single: "c \<notin> set s \<Longrightarrow> split_on c s = [s]"
  by (induction s) auto

lemma splitext_append: "fst (splitext p) @ snd (splitext p) = p"
proof -
  define b where "b = basename p"
  define after where "after = takeWhile (\<lambda>c. c \<noteq> CHR ''.'') (rev b)"
  have "suffix b p"
    unfolding b_def basename_def by (metis rev_rev_ident suffix_to_prefix takeWhile_is_prefix)
  then obtain q where p: "p = q @ b"
    by (auto simp: suffix_def)
  show ?thesis
  proof (cases "CHR ''.'' \<in> set b")
    case True
    then have "dropWhile (\<lambda>c. c \<noteq> CHR ''.'') (rev b) \<noteq> []" "hd (dropWhile (\<lambda>c. c \<noteq> CHR ''.'') (rev b)) = CHR ''.''"
      using hd_dropWhile[of "\<lambda>c. c \<noteq> CHR ''.''" "rev b"] by auto
    then obtain r where "dropWhile (\<lambda>c. c \<noteq> CHR ''.'') (rev b) = CHR ''.'' # r"
      by (metis list.collapse)
    then have "rev b = after @ CHR ''.'' # r"
      unfolding after_def by (metis takeWhile_dropWhile_id)
    then have "b = rev r @ CHR ''.'' # rev after"
      by (metis rev_append rev_rev_ident append.assoc append_Cons append_Nil rev.simps(2))
    then have "take (length p - Suc (length after)) p @ CHR ''.'' # rev after = p"
      by (simp add: p)
    then show ?thesis
      by (auto simp: splitext_def Let_def b_def[symmetric] after_def[symmetric])
  qed (auto simp: splitext_def Let_def b_def[symmetric])
qed

lemma splitext_chars: "set (fst (splitext p)) \<subseteq> set p" "set (snd (splitext p)) \<subseteq> set p"
  by (metis splitext_append set_append Un_upper1, metis splitext_append set_append Un_upper2)

lemma basename_plain: "CHR ''/'' \<notin> set p \<Longrightarrow> basename p = p"
  by (simp add: basename_def rev_swap) (auto simp: takeWhile_eq_all_conv)

lemma basename_join:
  assumes "CHR ''/'' \<notin> set n" "n \<noteq> []"
  shows "basename (path_join d n) = n"
proof -
  have "hd n \<noteq> CHR ''/''"
    using assms by (metis hd_in_set)
  have t: "takeWhile (\<lambda>c. c \<noteq> CHR ''/'') (rev n @ CHR ''/'' # x) = rev n" for x
    using assms(1) by (subst takeWhile_append2) auto
  show ?thesis
  proof (cases "d = []")
    case False
    then obtain e x where d: "d = e @ [x]"
      by (metis append_butlast_last_id)
    then show ?thesis
      using \<open>hd n \<noteq> CHR ''/''\<close> t by (auto simp: path_join_def basename_def)
  qed (use \<open>hd n \<noteq> CHR ''/''\<close> assms(1) in \<open>simp add: path_join_def basename_plain\<close>)
qed

end
