(* ===== verification/Files.thy ===== *)
theory Files
  imports Paths Sha256
begin

text \<open>
  The file system as the transfer code sees it: names bound to files, and file contents that an open
  handle keeps reaching after its name is gone or bound to another file (POSIX unlink and rename).
  Writes reach the file at once (no buffering). Also the
  streaming readers of src/core/transfer/chunker.py and hashing.py, and resume.py. The lemmas say what
  each operation leaves of the other names.
\<close>

section \<open>Names and contents\<close>

type_synonym handle = nat

record fs =
  names :: "(string, handle) dict"
  contents :: "(handle, bytes) dict"
  next_handle :: handle

definition exists_file :: "fs \<Rightarrow> string \<Rightarrow> bool" where
  "exists_file f p \<longleftrightarrow> dict_get (names f) p \<noteq> None"

definition data_of :: "fs \<Rightarrow> handle \<Rightarrow> bytes" where
  "data_of f h = (case dict_get (contents f) h of None \<Rightarrow> [] | Some b \<Rightarrow> b)"

definition read_file :: "fs \<Rightarrow> string \<Rightarrow> bytes option" where
  "read_file f p = map_option (data_of f) (dict_get (names f) p)"

definition set_data :: "handle \<Rightarrow> bytes \<Rightarrow> fs \<Rightarrow> fs" where
  "set_data h b f = f\<lparr> contents := dict_set h b (contents f) \<rparr>"

text \<open>\<open>handle.truncate(n)\<close>, and a write at position \<open>n\<close>: a file that is shorter is filled with
  zeros.\<close>

definition truncate_data :: "handle \<Rightarrow> nat \<Rightarrow> fs \<Rightarrow> fs" where
  "truncate_data h n f = set_data h (take n (data_of f h) @ replicate (n - length (data_of f h)) 0) f"

definition write_data :: "handle \<Rightarrow> nat \<Rightarrow> bytes \<Rightarrow> fs \<Rightarrow> fs" where
  "write_data h n b f = set_data h
     (take n (data_of f h) @ replicate (n - length (data_of f h)) 0 @ b @ drop (n + length b) (data_of f h)) f"

text \<open>\<open>open(p, "wb")\<close> empties the file of that name or makes one.\<close>

definition open_wb :: "string \<Rightarrow> fs \<Rightarrow> handle \<times> fs" where
  "open_wb p f =
    (case dict_get (names f) p of
       Some h \<Rightarrow> (h, set_data h [] f)
     | None \<Rightarrow> (next_handle f, set_data (next_handle f) []
         (f\<lparr> names := dict_set p (next_handle f) (names f), next_handle := Suc (next_handle f) \<rparr>)))"

definition remove_file :: "string \<Rightarrow> fs \<Rightarrow> fs" where
  "remove_file p f = f\<lparr> names := dict_pop p (names f) \<rparr>"

text \<open>\<open>os.replace(a, b)\<close> of an existing file.\<close>

definition replace_file :: "string \<Rightarrow> string \<Rightarrow> fs \<Rightarrow> fs" where
  "replace_file a b f =
    (case dict_get (names f) a of
       None \<Rightarrow> f
     | Some h \<Rightarrow> f\<lparr> names := dict_set b h (if a = b then names f else dict_pop a (names f)) \<rparr>)"

text \<open>Writing a whole file through a temporary one and a rename: the name is bound to a new file.\<close>

definition put_file :: "string \<Rightarrow> bytes \<Rightarrow> fs \<Rightarrow> fs" where
  "put_file p b f = set_data (next_handle f) b
     (f\<lparr> names := dict_set p (next_handle f) (names f), next_handle := Suc (next_handle f) \<rparr>)"

section \<open>Chunks and digests\<close>

definition DEFAULT_CHUNK_SIZE :: nat where "DEFAULT_CHUNK_SIZE = 64 * 1024"

text \<open>The generator's loop: each read takes at most \<open>cs\<close> bytes; an empty read ends it.\<close>

function chunk_loop :: "nat \<Rightarrow> nat \<Rightarrow> nat \<Rightarrow> bytes \<Rightarrow> (nat \<times> nat \<times> bytes) list" where
  "chunk_loop cs i offset rest =
    (let chunk = take cs rest
     in if chunk = [] then []
        else (i, offset, chunk) # chunk_loop cs (Suc i) (offset + length chunk) (drop cs rest))"
  by pat_completeness auto
termination
  by (relation "measure (\<lambda>(cs, i, offset, rest). length rest)") auto

declare chunk_loop.simps [simp del]

definition read_chunks :: "bytes \<Rightarrow> nat \<Rightarrow> nat \<Rightarrow> (nat \<times> nat \<times> bytes) list result" where
  "read_chunks file start_offset cs =
    (if start_offset > length file then Inl (Py ValueError)
     else Inr (chunk_loop cs (start_offset div cs) start_offset (drop start_offset file)))"

text \<open>The digest object is fed the file in pieces; its result is that of the whole.\<close>

definition sha256_file :: "bytes \<Rightarrow> string" where
  "sha256_file file = sha256_hex (concat (map (\<lambda>(i, off, c). c) (chunk_loop DEFAULT_CHUNK_SIZE 0 0 file)))"

definition get_part_path :: "string \<Rightarrow> string" where
  "get_part_path dest_path = dest_path @ ''.part''"

text \<open>\<open>finalize_part_file\<close>: the missing file is FileNotFoundError, an OSError.\<close>

definition finalize_part_file :: "string \<Rightarrow> string \<Rightarrow> fs \<Rightarrow> unit result \<times> fs" where
  "finalize_part_file part_path dest_path f =
    (if exists_file f part_path then (Inr (), replace_file part_path dest_path f) else (Inl (Py OSError), f))"

section \<open>Lemmas\<close>

lemma chunk_loop_concat: "0 < cs \<Longrightarrow> concat (map (\<lambda>(i, off, c). c) (chunk_loop cs i offset rest)) = rest"
  by (induction cs i offset rest rule: chunk_loop.induct) (subst chunk_loop.simps, simp add: Let_def)

lemma sha256_file [simp]: "sha256_file b = sha256_hex b"
  by (simp add: sha256_file_def chunk_loop_concat DEFAULT_CHUNK_SIZE_def)

lemma data_of_set [simp]: "data_of (set_data h b f) k = (if k = h then b else data_of f k)"
  by (simp add: data_of_def set_data_def)

lemma names_set_data [simp]: "names (set_data h b f) = names f" "next_handle (set_data h b f) = next_handle f"
  by (simp_all add: set_data_def)

lemma write_data_simps [simp]:
  "names (write_data h n b f) = names f" "next_handle (write_data h n b f) = next_handle f"
  "k \<noteq> h \<Longrightarrow> data_of (write_data h n b f) k = data_of f k"
  "length (data_of f h) = n \<Longrightarrow> data_of (write_data h n b f) h = data_of f h @ b"
  by (simp_all add: write_data_def)

lemma truncate_data_simps [simp]:
  "names (truncate_data h n f) = names f" "next_handle (truncate_data h n f) = next_handle f"
  "k \<noteq> h \<Longrightarrow> data_of (truncate_data h n f) k = data_of f k"
  "n \<le> length (data_of f h) \<Longrightarrow> data_of (truncate_data h n f) h = take n (data_of f h)"
  by (simp_all add: truncate_data_def)

lemma data_of_names [simp]: "data_of (f\<lparr> names := n \<rparr>) = data_of f" "data_of (f\<lparr> names := n, next_handle := k \<rparr>) = data_of f"
  by (simp_all add: data_of_def fun_eq_iff)

lemma remove_file_simps [simp]:
  "dict_get (names (remove_file p f)) q = (if q = p then None else dict_get (names f) q)"
  "data_of (remove_file p f) = data_of f" "next_handle (remove_file p f) = next_handle f"
  by (simp_all add: remove_file_def)

lemma replace_file_simps [simp]:
  "dict_get (names (replace_file a b f)) q =
    (case dict_get (names f) a of
       None \<Rightarrow> dict_get (names f) q
     | Some h \<Rightarrow> if q = b then Some h else if q = a then None else dict_get (names f) q)"
  "data_of (replace_file a b f) = data_of f" "next_handle (replace_file a b f) = next_handle f"
  by (auto simp: replace_file_def split: option.splits)

lemma put_file_simps [simp]:
  "dict_get (names (put_file p b f)) q = (if q = p then Some (next_handle f) else dict_get (names f) q)"
  "data_of (put_file p b f) k = (if k = next_handle f then b else data_of f k)"
  "next_handle (put_file p b f) = Suc (next_handle f)"
  by (simp_all add: put_file_def)

lemma open_wb_simps:
  "open_wb p f = (h, g) \<Longrightarrow> dict_get (names g) p = Some h \<and> data_of g h = [] \<and>
     (\<forall>q. q \<noteq> p \<longrightarrow> dict_get (names g) q = dict_get (names f) q) \<and> (\<forall>k. k \<noteq> h \<longrightarrow> data_of g k = data_of f k)"
  by (auto simp: open_wb_def split: option.splits)

end
