(* ===== verification/Filenames.thy ===== *)
theory Filenames
  imports Paths
begin

text \<open>
  Model of src/core/security/filenames.py: reducing a name that arrived over the network to one
  harmless path component. Whether the host is Windows is an argument. The lemmas show that the result
  has no separator and no control character, is neither empty, "." nor "..", and fits the byte limit.
\<close>

definition MAX_FILENAME_BYTES :: nat where "MAX_FILENAME_BYTES = 255"
definition MAX_EXTENSION_BYTES :: nat where "MAX_EXTENSION_BYTES = 16"

definition WINDOWS_RESERVED :: "string list" where
  "WINDOWS_RESERVED = [''CON'', ''PRN'', ''AUX'', ''NUL''] @
     map (\<lambda>i. ''COM'' @ nat_str i) [1..<10] @ map (\<lambda>i. ''LPT'' @ nat_str i) [1..<10]"

definition WINDOWS_ILLEGAL :: string where
  "WINDOWS_ILLEGAL = [CHR ''<'', CHR ''>'', CHR '':'', CHR 0x22, CHR ''|'', CHR ''?'', CHR ''*'']"

definition truncate_name :: "string \<Rightarrow> nat \<Rightarrow> string" where
  "truncate_name name max_bytes =
    (if length (utf8_encode name) \<le> max_bytes then name
     else (let (stem0, ext0) = splitext name;
               (stem, ext) = (if length (utf8_encode ext0) > MAX_EXTENSION_BYTES then (name, []) else (stem0, ext0));
               budget = int max_bytes - int (length (utf8_encode ext));
               stem' = decode_ignore (py_take budget (utf8_encode stem))
           in (if stem' = [] then ''file'' else stem') @ ext))"

definition last_component :: "string \<Rightarrow> string" where
  "last_component name = last (split_on (CHR ''/'') (map (\<lambda>c. if c = CHR 0x5C then CHR ''/'' else c) name))"

definition printable :: "char \<Rightarrow> bool" where
  "printable c \<longleftrightarrow> 32 \<le> code c \<and> code c \<noteq> 127"

definition windows_name :: "string \<Rightarrow> string" where
  "windows_name leaf = rstrip_chars {CHR ''.'', CHR '' ''}
     (map (\<lambda>c. if c \<in> set WINDOWS_ILLEGAL then CHR ''_'' else c) leaf)"

definition reserved_stem :: "string \<Rightarrow> bool" where
  "reserved_stem leaf \<longleftrightarrow> map to_upper (takeWhile (\<lambda>c. c \<noteq> CHR ''.'') leaf) \<in> set WINDOWS_RESERVED"

text \<open>A value that is not a str is \<open>None\<close>.\<close>

definition sanitize_filename :: "bool \<Rightarrow> string option \<Rightarrow> nat \<Rightarrow> string option \<Rightarrow> string result" where
  "sanitize_filename windows fallback max_bytes name =
    (let unusable = (case fallback of Some f \<Rightarrow> Inr f | None \<Rightarrow> Inl (Xfer UnsafeFilenameError))
     in case name of
       None \<Rightarrow> unusable
     | Some n \<Rightarrow>
         (let leaf0 = strip (filter printable (last_component n));
              leaf = (if windows then windows_name leaf0 else leaf0)
          in if leaf \<in> {[], ''.'', ''..''} then unusable
             else Inr (truncate_name (if windows \<and> reserved_stem leaf then CHR ''_'' # leaf else leaf) max_bytes)))"

section \<open>Lemmas\<close>

definition plain_name :: "string \<Rightarrow> bool" where
  "plain_name n \<longleftrightarrow> n \<notin> {[], ''.'', ''..''} \<and> CHR ''/'' \<notin> set n \<and> CHR 0x5C \<notin> set n \<and> list_all printable n"

lemma last_component_chars: "CHR ''/'' \<notin> set (last_component n)" "CHR 0x5C \<notin> set (last_component n)"
proof -
  let ?m = "map (\<lambda>c. if c = CHR 0x5C then CHR ''/'' else c) n"
  have w: "last_component n \<in> set (split_on (CHR ''/'') ?m)"
    by (simp add: last_component_def)
  from split_on_no_sep[OF w] show "CHR ''/'' \<notin> set (last_component n)" .
  from split_on_chars[OF w] show "CHR 0x5C \<notin> set (last_component n)"
    by auto
qed

lemma strip_chars: "set (strip s) \<subseteq> set s"
  unfolding strip_def by (auto dest!: set_dropWhileD)

lemma rstrip_chars_chars: "set (rstrip_chars cs s) \<subseteq> set s"
  unfolding rstrip_chars_def by (auto dest!: set_dropWhileD)

lemma utf8_encode_empty [simp]: "utf8_encode [] = []"
  by simp

lemma utf8_lead_byte:
  assumes "\<not> (of_char c :: nat) < 128"
  obtains a b where "utf8_char c = [a, b]" "unat a = 194 \<or> unat a = 195" "128 \<le> unat b" "unat b < 192"
    "char_of ((unat a - 192) * 64 + (unat b - 128)) = c"
proof
  define n where "n = (of_char c :: nat)"
  have n: "128 \<le> n" "n < 256"
    using assms by (simp_all add: n_def)
  have "2 \<le> n div 64" "n div 64 < 4"
    using div_le_mono[OF n(1), of 64] n(2) by (simp, intro less_mult_imp_div_less) simp
  then have d: "n div 64 = 2 \<or> n div 64 = 3"
    by linarith
  have m: "n mod 64 < 64"
    by simp
  have "192 + n div 64 < 256" "128 + n mod 64 < 256"
    using d m by linarith+
  then have u: "unat (byte_of (192 + n div 64)) = 192 + n div 64" "unat (byte_of (128 + n mod 64)) = 128 + n mod 64"
    by (simp_all only: unat_byte_of mod_less)
  show "utf8_char c = [byte_of (192 + n div 64), byte_of (128 + n mod 64)]"
    using assms by (simp only: utf8_char_def n_def Let_def if_False)
  show "unat (byte_of (192 + n div 64)) = 194 \<or> unat (byte_of (192 + n div 64)) = 195"
    unfolding u using d by linarith
  show "128 \<le> unat (byte_of (128 + n mod 64))" "unat (byte_of (128 + n mod 64)) < 192"
    unfolding u using m by linarith+
  show "char_of ((unat (byte_of (192 + n div 64)) - 192) * 64 + (unat (byte_of (128 + n mod 64)) - 128)) = c"
    by (simp only: u add_diff_cancel_left' div_mult_mod_eq) (simp only: n_def char_of_char)
qed

text \<open>Cutting the UTF-8 form and decoding what is left keeps a prefix of the text, at most one byte
  shorter than the cut.\<close>

lemma decode_ignore_take:
  "\<exists>j. decode_ignore (take k (utf8_encode s)) = take j s \<and> length (utf8_encode (take j s)) \<le> k \<and>
     (k \<le> length (utf8_encode s) \<longrightarrow> k \<le> Suc (length (utf8_encode (take j s))))"
proof (induction s arbitrary: k)
  case Nil
  show ?case
    by (simp add: utf8_encode_def)
next
  case (Cons c s)
  have split: "utf8_encode (c # s) = utf8_char c @ utf8_encode s" for s
    by (simp add: utf8_encode_def)
  show ?case
  proof (cases "(of_char c :: nat) < 128")
    case True
    then have b: "utf8_char c = [byte_of (of_char c)]" "unat (byte_of (of_char c)) = of_char c"
      by (simp_all add: utf8_char_def)
    show ?thesis
    proof (cases k)
      case 0
      then show ?thesis
        by (intro exI[of _ 0]) (simp add: utf8_encode_def)
    next
      case (Suc l)
      obtain j where "decode_ignore (take l (utf8_encode s)) = take j s" "length (utf8_encode (take j s)) \<le> l"
          "l \<le> length (utf8_encode s) \<longrightarrow> l \<le> Suc (length (utf8_encode (take j s)))"
        using Cons.IH by blast
      then show ?thesis
        using True b Suc by (intro exI[of _ "Suc j"]) (simp add: split)
    qed
  next
    case False
    then obtain x y where b: "utf8_char c = [x, y]" "unat x = 194 \<or> unat x = 195" "128 \<le> unat y" "unat y < 192"
        "char_of ((unat x - 192) * 64 + (unat y - 128)) = c"
      by (rule utf8_lead_byte)
    consider "k = 0" | "k = 1" | l where "k = Suc (Suc l)"
      by (metis One_nat_def not0_implies_Suc)
    then show ?thesis
    proof cases
      case 3
      obtain j where "decode_ignore (take l (utf8_encode s)) = take j s" "length (utf8_encode (take j s)) \<le> l"
          "l \<le> length (utf8_encode s) \<longrightarrow> l \<le> Suc (length (utf8_encode (take j s)))"
        using Cons.IH by blast
      then show ?thesis
        using b 3 by (intro exI[of _ "Suc j"]) (auto simp: split)
    qed (use b in \<open>auto simp: split intro!: exI[of _ 0]\<close>)
  qed
qed

lemma truncate_name_spec:
  assumes "20 \<le> m" "m < length (utf8_encode n)"
  shows "set (truncate_name n m) \<subseteq> set n \<and> length (utf8_encode (truncate_name n m)) \<le> m \<and>
    m \<le> Suc (length (utf8_encode (truncate_name n m)))"
proof -
  obtain s0 e0 where s0: "splitext n = (s0, e0)"
    by (cases "splitext n")
  obtain stem ext where se: "(if length (utf8_encode e0) > MAX_EXTENSION_BYTES then (n, []) else (s0, e0)) = (stem, ext)"
    by (cases "if length (utf8_encode e0) > MAX_EXTENSION_BYTES then (n, []) else (s0, e0)")
  have n: "stem @ ext = n" "length (utf8_encode ext) \<le> 16"
    using se s0 splitext_append[of n] by (auto simp: MAX_EXTENSION_BYTES_def split: if_splits)
  define k where "k = m - length (utf8_encode ext)"
  have b: "int m - int (length (utf8_encode ext)) = int k" "k \<ge> 4" "k < length (utf8_encode stem)"
    using assms n by (auto simp: k_def)
  obtain j where j: "decode_ignore (take k (utf8_encode stem)) = take j stem" "length (utf8_encode (take j stem)) \<le> k"
      "k \<le> Suc (length (utf8_encode (take j stem)))"
    using decode_ignore_take[of k stem] b(3) by auto
  have "3 \<le> length (utf8_encode (take j stem))"
    using j(3) b(2) by linarith
  then have ne: "take j stem \<noteq> []"
    by (metis list.size(3) utf8_encode_empty not_numeral_le_zero)
  have "truncate_name n m = take j stem @ ext"
    unfolding truncate_name_def s0 Let_def prod.case se b(1) using assms(2) j(1) ne by (simp add: py_take_def)
  moreover have "set (take j stem @ ext) \<subseteq> set n"
    using set_take_subset[of j stem] n(1) by (metis set_append Un_mono order_refl)
  moreover have "length (utf8_encode (take j stem @ ext)) = length (utf8_encode (take j stem)) + length (utf8_encode ext)"
    by simp
  moreover have "m = k + length (utf8_encode ext)"
    using b(1) by linarith
  ultimately show ?thesis
    using j(2,3) by simp
qed

lemma plain_leaf:
  assumes "leaf \<notin> {[], ''.'', ''..''}" "set leaf \<subseteq> set (last_component n) \<union> {CHR ''_''}" "list_all printable leaf"
  shows "plain_name leaf" "plain_name (CHR ''_'' # leaf)"
proof -
  have "CHR ''/'' \<notin> set leaf" "CHR 0x5C \<notin> set leaf"
    using assms(2) last_component_chars[of n] by auto
  with assms(1,3) show "plain_name leaf" "plain_name (CHR ''_'' # leaf)"
    by (simp_all add: plain_name_def) (simp add: printable_def)
qed

lemma truncate_plain:
  assumes "plain_name n" "20 \<le> m"
  shows "plain_name (truncate_name n m) \<and> length (utf8_encode (truncate_name n m)) \<le> m"
proof (cases "length (utf8_encode n) \<le> m")
  case True
  then show ?thesis
    using assms by (simp add: truncate_name_def)
next
  case False
  then have t: "set (truncate_name n m) \<subseteq> set n" "length (utf8_encode (truncate_name n m)) \<le> m"
      "m \<le> Suc (length (utf8_encode (truncate_name n m)))"
    using truncate_name_spec[of m n] assms(2) by auto
  have "length (utf8_encode (truncate_name n m)) > 2"
    using t(3) assms(2) by linarith
  moreover have "length (utf8_encode ''.'') = 1" "length (utf8_encode ''..'') = 2"
    by code_simp+
  ultimately have "truncate_name n m \<notin> {[], ''.'', ''..''}"
    by auto
  then show ?thesis
    using assms(1) t(1,2) by (auto simp: plain_name_def list_all_iff)
qed

text \<open>
  What a peer's file name becomes: whatever text arrives, either it is refused or the result is one
  plain path component within the byte limit.
\<close>

lemma sanitize_filename_plain:
  assumes "sanitize_filename windows None m name = Inr r" "20 \<le> m"
  shows "plain_name r \<and> length (utf8_encode r) \<le> m"
proof -
  obtain n where n: "name = Some n"
    using assms(1) by (cases name) (auto simp: sanitize_filename_def Let_def)
  define leaf0 where "leaf0 = strip (filter printable (last_component n))"
  define leaf where "leaf = (if windows then windows_name leaf0 else leaf0)"
  define leaf1 where "leaf1 = (if windows \<and> reserved_stem leaf then CHR ''_'' # leaf else leaf)"
  have r: "leaf \<notin> {[], ''.'', ''..''}" "r = truncate_name leaf1 m"
    using assms(1) n by (auto simp: sanitize_filename_def Let_def leaf0_def leaf_def leaf1_def split: if_splits)
  have l0: "set leaf0 \<subseteq> {c \<in> set (last_component n). printable c}"
    using strip_chars[of "filter printable (last_component n)"] by (simp add: leaf0_def)
  have "set (windows_name leaf0) \<subseteq> set leaf0 \<union> {CHR ''_''}"
    using rstrip_chars_chars by (force simp: windows_name_def split: if_splits)
  then have l: "set leaf \<subseteq> {c \<in> set (last_component n). printable c} \<union> {CHR ''_''}"
    using l0 by (auto simp: leaf_def)
  have "list_all printable leaf"
    using l by (auto simp: list_all_iff printable_def)
  with r(1) l have "plain_name leaf1"
    using plain_leaf[of leaf n] by (auto simp: leaf1_def)
  then show ?thesis
    unfolding r(2) using assms(2) by (rule truncate_plain)
qed

end
