(* ===== verification/Json.thy ===== *)
theory Json
  imports Text
begin

text \<open>
  The JSON values the program exchanges and the two functions of Python's json module it
  calls: \<open>dumps\<close> with its default separators and ASCII escapes, and \<open>loads\<close>. The parser is
  executable and total (its fuel is the length of the text), and reading what was
  printed gives the value back. A finite float is a decimal: \<open>JFloat m k\<close> is m / 10^k.
\<close>

section \<open>Values\<close>

datatype json =
    JNull
  | JBool bool
  | JInt int
  | JFloat int nat
  | JNaN
  | JInfinity bool
  | JStr string
  | JList "json list"
  | JDict "(string \<times> json) list"

text \<open>Invariant of Python values: floats in lowest decimal terms, dict keys distinct.\<close>

fun wf_json :: "json \<Rightarrow> bool"
  and wf_list :: "json list \<Rightarrow> bool"
  and wf_items :: "(string \<times> json) list \<Rightarrow> bool" where
  "wf_json (JFloat m k) \<longleftrightarrow> k = 1 \<or> 1 < k \<and> m mod 10 \<noteq> 0"
| "wf_json (JList xs) \<longleftrightarrow> wf_list xs"
| "wf_json (JDict kvs) \<longleftrightarrow> distinct (map fst kvs) \<and> wf_items kvs"
| "wf_json _ \<longleftrightarrow> True"
| "wf_list [] \<longleftrightarrow> True"
| "wf_list (x # xs) \<longleftrightarrow> wf_json x \<and> wf_list xs"
| "wf_items [] \<longleftrightarrow> True"
| "wf_items ((k, v) # kvs) \<longleftrightarrow> wf_json v \<and> wf_items kvs"

text \<open>A Python float that is a number: mantissa and count of decimals.\<close>

type_synonym pyfloat = "int \<times> nat"

definition py_float :: "pyfloat \<Rightarrow> json" where
  "py_float x = JFloat (fst x) (snd x)"

definition json_or_null :: "json option \<Rightarrow> json" where
  "json_or_null x = (case x of None \<Rightarrow> JNull | Some v \<Rightarrow> v)"

section \<open>Printing\<close>

definition u_escape :: "char \<Rightarrow> string" where
  "u_escape c = (let n = of_char c :: nat in CHR 0x5C # ''u00'' @ [hex_digit (n div 16), hex_digit (n mod 16)])"

definition esc_char :: "char \<Rightarrow> string" where
  "esc_char c =
    (if c = CHR 0x22 then [CHR 0x5C, CHR 0x22]
     else if c = CHR 0x5C then [CHR 0x5C, CHR 0x5C]
     else if c = CHR 0x08 then [CHR 0x5C, CHR ''b'']
     else if c = CHR 0x0C then [CHR 0x5C, CHR ''f'']
     else if c = CHR 0x0A then [CHR 0x5C, CHR ''n'']
     else if c = CHR 0x0D then [CHR 0x5C, CHR ''r'']
     else if c = CHR 0x09 then [CHR 0x5C, CHR ''t'']
     else if 32 \<le> (of_char c :: nat) \<and> (of_char c :: nat) < 127 then [c]
     else u_escape c)"

definition dump_string :: "string \<Rightarrow> string" where
  "dump_string s = CHR 0x22 # concat (map esc_char s) @ [CHR 0x22]"

definition float_str :: "int \<Rightarrow> nat \<Rightarrow> string" where
  "float_str m k = (if m < 0 then ''-'' else []) @
     nat_str (nat \<bar>m\<bar> div 10 ^ k) @ ''.'' @ pad_digits k (nat \<bar>m\<bar>)"

text \<open>\<open>w\<close> is the blank the separators end with: one space in \<open>json.dumps\<close>, nothing with
  \<open>separators=(",", ":")\<close>.\<close>

fun print_json :: "string \<Rightarrow> json \<Rightarrow> string"
  and print_list :: "string \<Rightarrow> json list \<Rightarrow> string"
  and print_items :: "string \<Rightarrow> (string \<times> json) list \<Rightarrow> string" where
  "print_json w JNull = ''null''"
| "print_json w (JBool b) = (if b then ''true'' else ''false'')"
| "print_json w (JInt i) = int_str i"
| "print_json w (JFloat m k) = float_str m k"
| "print_json w JNaN = ''NaN''"
| "print_json w (JInfinity neg) = (if neg then ''-Infinity'' else ''Infinity'')"
| "print_json w (JStr s) = dump_string s"
| "print_json w (JList xs) = ''['' @ print_list w xs @ '']''"
| "print_json w (JDict kvs) = ''{'' @ print_items w kvs @ ''}''"
| "print_list w [] = []"
| "print_list w [x] = print_json w x"
| "print_list w (x # y # ys) = print_json w x @ '','' @ w @ print_list w (y # ys)"
| "print_items w [] = []"
| "print_items w [(k, v)] = dump_string k @ '':'' @ w @ print_json w v"
| "print_items w ((k, v) # p # ps) =
     dump_string k @ '':'' @ w @ print_json w v @ '','' @ w @ print_items w (p # ps)"

abbreviation dumps :: "json \<Rightarrow> string" where
  "dumps \<equiv> print_json '' ''"

section \<open>Parsing\<close>

definition is_ws :: "char \<Rightarrow> bool" where
  "is_ws c \<longleftrightarrow> c = CHR '' '' \<or> c = CHR 0x09 \<or> c = CHR 0x0A \<or> c = CHR 0x0D"

abbreviation skip_ws :: "string \<Rightarrow> string" where
  "skip_ws s \<equiv> dropWhile is_ws s"

definition unescape :: "char \<Rightarrow> char option" where
  "unescape c =
    (if c = CHR 0x22 then Some (CHR 0x22) else if c = CHR 0x5C then Some (CHR 0x5C)
     else if c = CHR ''/'' then Some (CHR ''/'') else if c = CHR ''b'' then Some (CHR 0x08)
     else if c = CHR ''f'' then Some (CHR 0x0C) else if c = CHR ''n'' then Some (CHR 0x0A)
     else if c = CHR ''r'' then Some (CHR 0x0D) else if c = CHR ''t'' then Some (CHR 0x09)
     else None)"

text \<open>The characters of a string literal after its opening quote.\<close>

fun parse_chars :: "string \<Rightarrow> (string \<times> string) option" where
  "parse_chars [] = None"
| "parse_chars (c # s) =
    (if c = CHR 0x22 then Some ([], s)
     else if c = CHR 0x5C then
       (case s of
          [] \<Rightarrow> None
        | e # t \<Rightarrow>
            if e = CHR ''u'' then
              (case t of
                 a # b # h # l # t' \<Rightarrow>
                   (case (hex_val a, hex_val b, hex_val h, hex_val l) of
                      (Some 0, Some 0, Some x, Some y) \<Rightarrow>
                        map_option (\<lambda>(cs, r). (char_of (16 * x + y) # cs, r)) (parse_chars t')
                    | _ \<Rightarrow> None)
               | _ \<Rightarrow> None)
            else (case unescape e of
                    None \<Rightarrow> None
                  | Some d \<Rightarrow> map_option (\<lambda>(cs, r). (d # cs, r)) (parse_chars t)))
     else if (of_char c :: nat) < 32 then None
     else map_option (\<lambda>(cs, r). (c # cs, r)) (parse_chars s))"

primrec strip_zeros :: "int \<Rightarrow> nat \<Rightarrow> int \<times> nat" where
  "strip_zeros m 0 = (m, 0)"
| "strip_zeros m (Suc k) = (if 0 < k \<and> m mod 10 = 0 then strip_zeros (m div 10) k else (m, Suc k))"

text \<open>The float m * 10^e in lowest terms.\<close>

definition make_float :: "int \<Rightarrow> int \<Rightarrow> json" where
  "make_float m e = (if 0 \<le> e then JFloat (m * 10 ^ nat e * 10) 1
     else (case strip_zeros m (nat (- e)) of (m', k) \<Rightarrow> JFloat m' k))"

definition parse_frac :: "string \<Rightarrow> string \<times> string" where
  "parse_frac s = (case s of
     c # d # t \<Rightarrow> if c = CHR ''.'' \<and> is_digit d
       then (takeWhile is_digit (d # t), dropWhile is_digit (d # t)) else ([], s)
   | _ \<Rightarrow> ([], s))"

definition parse_exp :: "string \<Rightarrow> int option \<times> string" where
  "parse_exp s = (case s of
     [] \<Rightarrow> (None, s)
   | c # t \<Rightarrow>
       if c = CHR ''e'' \<or> c = CHR ''E'' then
         (let (neg, u) = (case t of [] \<Rightarrow> (False, t)
                          | d # t' \<Rightarrow> if d = CHR ''-'' then (True, t')
                                     else if d = CHR ''+'' then (False, t') else (False, t))
          in if takeWhile is_digit u = [] then (None, s)
             else (Some ((if neg then - 1 else 1) * int (digits_val (takeWhile is_digit u))),
                   dropWhile is_digit u))
       else (None, s))"

definition parse_number :: "string \<Rightarrow> (json \<times> string) option" where
  "parse_number s =
    (let (sg, s1) = (case s of [] \<Rightarrow> (1, s) | c # t \<Rightarrow> if c = CHR ''-'' then (- 1, t) else (1 :: int, s));
         (ip, s2) = (case s1 of [] \<Rightarrow> ([], s1)
                     | c # t \<Rightarrow> if c = CHR ''0'' then ([c], t)
                                else (takeWhile is_digit s1, dropWhile is_digit s1))
     in if ip = [] then None
        else (let (fr, s3) = parse_frac s2; (ex, s4) = parse_exp s3
              in if fr = [] \<and> ex = None then Some (JInt (sg * int (digits_val ip)), s2)
                 else Some (make_float (sg * int (digits_val (ip @ fr)))
                              ((case ex of None \<Rightarrow> 0 | Some e \<Rightarrow> e) - int (length fr)), s4)))"

definition dict_of :: "(string \<times> json) list \<Rightarrow> (string \<times> json) list" where
  "dict_of kvs = foldl (\<lambda>d (k, v). dict_set k v d) [] kvs"

definition parse_atom :: "string \<Rightarrow> (json \<times> string) option" where
  "parse_atom s =
    (if prefix ''null'' s then Some (JNull, drop 4 s)
     else if prefix ''true'' s then Some (JBool True, drop 4 s)
     else if prefix ''false'' s then Some (JBool False, drop 5 s)
     else if prefix ''NaN'' s then Some (JNaN, drop 3 s)
     else if prefix ''Infinity'' s then Some (JInfinity False, drop 8 s)
     else if prefix ''-Infinity'' s then Some (JInfinity True, drop 9 s)
     else parse_number s)"

fun parse_value :: "nat \<Rightarrow> string \<Rightarrow> (json \<times> string) option"
  and parse_elems :: "nat \<Rightarrow> string \<Rightarrow> (json list \<times> string) option"
  and parse_members :: "nat \<Rightarrow> string \<Rightarrow> ((string \<times> json) list \<times> string) option" where
  "parse_value 0 s = None"
| "parse_value (Suc n) s =
    (case s of
       [] \<Rightarrow> None
     | c # t \<Rightarrow>
         if c = CHR 0x22 then map_option (\<lambda>(cs, r). (JStr cs, r)) (parse_chars t)
         else if c = CHR ''['' then
           (case skip_ws t of
              [] \<Rightarrow> None
            | d # t' \<Rightarrow> if d = CHR '']'' then Some (JList [], t')
                       else map_option (\<lambda>(xs, r). (JList xs, r)) (parse_elems n (d # t')))
         else if c = CHR ''{'' then
           (case skip_ws t of
              [] \<Rightarrow> None
            | d # t' \<Rightarrow> if d = CHR ''}'' then Some (JDict [], t')
                       else map_option (\<lambda>(kvs, r). (JDict (dict_of kvs), r)) (parse_members n (d # t')))
         else parse_atom s)"
| "parse_elems 0 s = None"
| "parse_elems (Suc n) s =
    (case parse_value n s of
       None \<Rightarrow> None
     | Some (x, r) \<Rightarrow>
         (case skip_ws r of
            [] \<Rightarrow> None
          | d # t \<Rightarrow> if d = CHR '']'' then Some ([x], t)
                    else if d = CHR '','' then map_option (\<lambda>(xs, q). (x # xs, q)) (parse_elems n (skip_ws t))
                    else None))"
| "parse_members 0 s = None"
| "parse_members (Suc n) s =
    (case s of
       [] \<Rightarrow> None
     | c # t \<Rightarrow>
         if c \<noteq> CHR 0x22 then None
         else (case parse_chars t of
             None \<Rightarrow> None
           | Some (k, r) \<Rightarrow>
               (case skip_ws r of
                  [] \<Rightarrow> None
                | d # u \<Rightarrow>
                    if d \<noteq> CHR '':'' then None
                    else (case parse_value n (skip_ws u) of
                        None \<Rightarrow> None
                      | Some (v, w) \<Rightarrow>
                          (case skip_ws w of
                             [] \<Rightarrow> None
                           | e # x \<Rightarrow>
                               if e = CHR ''}'' then Some ([(k, v)], x)
                               else if e = CHR '','' then
                                 map_option (\<lambda>(kvs, q). ((k, v) # kvs, q)) (parse_members n (skip_ws x))
                               else None)))))"

text \<open>\<open>json.loads\<close>: None is a JSONDecodeError.\<close>

definition loads :: "string \<Rightarrow> json option" where
  "loads s = (case parse_value (Suc (length s)) (skip_ws s) of
     None \<Rightarrow> None
   | Some (v, r) \<Rightarrow> if skip_ws r = [] then Some v else None)"

section \<open>Reading back what was printed\<close>

subsection \<open>Strings\<close>

lemma parse_chars_esc:
  "parse_chars (esc_char c @ s) = map_option (\<lambda>(cs, r). (c # cs, r)) (parse_chars s)"
proof -
  have n: "(of_char c :: nat) div 16 < 16"
    using of_char_less[of c] by linarith
  have "hex_val (CHR ''0'') = Some 0"
    by (simp add: hex_val_def)
  then show ?thesis
    using n by (auto simp: esc_char_def u_escape_def unescape_def Let_def)
qed

lemma parse_chars_string [simp]:
  "parse_chars (concat (map esc_char s) @ CHR 0x22 # r) = Some (s, r)"
  by (induction s) (simp_all add: parse_chars_esc)

subsection \<open>Numbers\<close>

text \<open>What may follow a number so that the number ends there.\<close>

definition num_end :: "string \<Rightarrow> bool" where
  "num_end r \<longleftrightarrow> (case r of [] \<Rightarrow> True
     | c # _ \<Rightarrow> \<not> is_digit c \<and> c \<noteq> CHR ''.'' \<and> c \<noteq> CHR ''e'' \<and> c \<noteq> CHR ''E'')"

lemma digits_split:
  assumes "list_all is_digit ds" and "r = [] \<or> \<not> is_digit (hd r)"
  shows "takeWhile is_digit (ds @ r) = ds" "dropWhile is_digit (ds @ r) = r"
  using assms by (induction ds; cases r; simp)+

lemma is_digit_consts [simp]:
  "is_digit (CHR ''0'')" "\<not> is_digit (CHR ''-'')" "\<not> is_digit (CHR ''.'')" "\<not> is_digit (CHR ''e'')"
  "\<not> is_digit (CHR ''E'')" "\<not> is_digit (CHR '','')" "\<not> is_digit (CHR '']'')" "\<not> is_digit (CHR ''}'')"
  "\<not> is_digit (CHR ''I'')" "\<not> is_digit (CHR ''N'')" "\<not> is_digit (CHR ''n'')" "\<not> is_digit (CHR ''t'')"
  "\<not> is_digit (CHR ''f'')" "\<not> is_digit (CHR 0x22)" "\<not> is_digit (CHR ''['')" "\<not> is_digit (CHR ''{'')"
  "\<not> is_digit (CHR '' '')" "\<not> is_digit (CHR 0x09)" "\<not> is_digit (CHR 0x0A)" "\<not> is_digit (CHR 0x0D)"
  by (simp_all add: is_digit_def)

lemma parse_frac_end [simp]: "num_end r \<Longrightarrow> parse_frac r = ([], r)"
  by (auto simp: parse_frac_def num_end_def split: list.splits)

lemma parse_exp_end [simp]: "num_end r \<Longrightarrow> parse_exp r = (None, r)"
  by (auto simp: parse_exp_def num_end_def split: list.splits)

lemma num_end_hd: "num_end r \<Longrightarrow> r = [] \<or> \<not> is_digit (hd r)"
  by (auto simp: num_end_def split: list.splits)

lemma nat_str_Cons:
  obtains c t where "nat_str n = c # t" "is_digit c" "list_all is_digit t" "c = CHR ''0'' \<longrightarrow> t = []"
proof -
  obtain c t where s: "nat_str n = c # t"
    using nat_str_not_Nil[of n] by (cases "nat_str n") auto
  then have "is_digit c" "list_all is_digit t"
    using nat_str_digits[of n] by auto
  moreover have "c = CHR ''0'' \<longrightarrow> t = []"
    using nat_str_hd[of n] s by simp
  ultimately show thesis
    using that s by blast
qed

text \<open>The integer part of a number, as the parser reads it.\<close>

definition int_part :: "string \<Rightarrow> string \<times> string" where
  "int_part s1 = (case s1 of [] \<Rightarrow> ([], s1)
     | c # t \<Rightarrow> if c = CHR ''0'' then ([c], t)
                else (takeWhile is_digit s1, dropWhile is_digit s1))"

lemma int_part_nat_str:
  assumes "r = [] \<or> \<not> is_digit (hd r)"
  shows "int_part (nat_str n @ r) = (nat_str n, r)"
proof -
  obtain c t where s: "nat_str n = c # t" "is_digit c" "list_all is_digit t" "c = CHR ''0'' \<longrightarrow> t = []"
    by (rule nat_str_Cons[of n])
  then show ?thesis
    using digits_split[of "c # t" r] assms by (auto simp: int_part_def)
qed

lemma parse_number_sign:
  assumes "is_digit c"
  shows "parse_number ((if neg then ''-'' else []) @ c # t) =
    (case int_part (c # t) of (ip, s2) \<Rightarrow> case parse_frac s2 of (fr, s3) \<Rightarrow> case parse_exp s3 of (ex, s4) \<Rightarrow>
       if ip = [] then None
       else if fr = [] \<and> ex = None then Some (JInt ((if neg then - 1 else 1) * int (digits_val ip)), s2)
       else Some (make_float ((if neg then - 1 else 1) * int (digits_val (ip @ fr)))
                    ((case ex of None \<Rightarrow> 0 | Some e \<Rightarrow> e) - int (length fr)), s4))"
  using assms by (auto simp: parse_number_def int_part_def Let_def split: prod.splits)

lemma parse_number_int [simp]:
  assumes "num_end r"
  shows "parse_number (int_str i @ r) = Some (JInt i, r)"
proof -
  obtain c t where s: "nat_str (nat \<bar>i\<bar>) = c # t" "is_digit c"
    by (rule nat_str_Cons[of "nat \<bar>i\<bar>"])
  have "int_str i @ r = (if i < 0 then ''-'' else []) @ c # t @ r"
    using s(1) by (auto simp: int_str_def abs_if split: if_splits)
  moreover have "int_part (c # t @ r) = (nat_str (nat \<bar>i\<bar>), r)"
    using int_part_nat_str[of r "nat \<bar>i\<bar>"] num_end_hd[OF assms] s(1) by simp
  ultimately show ?thesis
    using parse_number_sign[OF s(2), of "i < 0" "t @ r"] assms by auto
qed

lemma strip_zeros_wf: "wf_json (JFloat m k) \<Longrightarrow> strip_zeros m k = (m, k)"
  by (cases k) auto

lemma parse_number_float [simp]:
  assumes "num_end r" and wf: "wf_json (JFloat m k)"
  shows "parse_number (float_str m k @ r) = Some (JFloat m k, r)"
proof -
  define a where "a = nat \<bar>m\<bar>"
  have k: "0 < k"
    using wf by auto
  obtain c t where s: "nat_str (a div 10 ^ k) = c # t" "is_digit c"
    by (rule nat_str_Cons[of "a div 10 ^ k"])
  define q where "q = CHR ''.'' # pad_digits k a @ r"
  obtain d p where p: "pad_digits k a = d # p" "is_digit d" "list_all is_digit p"
    using k pad_digits_digits[of k a] length_pad_digits[of k a]
    by (cases "pad_digits k a") auto
  then have ne: "pad_digits k a \<noteq> []"
    by simp
  have str: "float_str m k @ r = (if m < 0 then ''-'' else []) @ c # t @ q"
    using s(1) by (simp add: float_str_def a_def q_def)
  have ip: "int_part (c # t @ q) = (nat_str (a div 10 ^ k), q)"
    using int_part_nat_str[of q "a div 10 ^ k"] s(1) by (simp add: q_def)
  have fr: "parse_frac q = (pad_digits k a, r)"
    using digits_split[of "d # p" r] p num_end_hd[OF assms(1)] by (simp add: q_def parse_frac_def)
  have val: "digits_val (nat_str (a div 10 ^ k) @ pad_digits k a) = a"
    by (simp only: digits_val_pad_append digits_val_nat_str div_mult_mod_eq)
  have "(if m < 0 then - 1 else 1) * int a = m"
    by (simp add: a_def)
  moreover have "make_float m (- int k) = JFloat m k"
    using k strip_zeros_wf[OF wf] by (simp add: make_float_def)
  ultimately show ?thesis
    unfolding str parse_number_sign[OF s(2)] ip using assms(1) fr val ne by simp
qed

subsection \<open>Values\<close>

fun weight :: "json \<Rightarrow> nat"
  and weight_list :: "json list \<Rightarrow> nat"
  and weight_items :: "(string \<times> json) list \<Rightarrow> nat" where
  "weight (JList xs) = Suc (weight_list xs)"
| "weight (JDict kvs) = Suc (weight_items kvs)"
| "weight _ = 1"
| "weight_list [] = 0"
| "weight_list (x # xs) = Suc (weight x + weight_list xs)"
| "weight_items [] = 0"
| "weight_items ((k, v) # kvs) = Suc (weight v + weight_items kvs)"

lemma parse_atom_number:
  assumes "is_digit c"
  shows "parse_atom ((if neg then ''-'' else []) @ c # t) = parse_number ((if neg then ''-'' else []) @ c # t)"
proof -
  have "c \<noteq> CHR ''n''" "c \<noteq> CHR ''t''" "c \<noteq> CHR ''f''" "c \<noteq> CHR ''N''" "c \<noteq> CHR ''I''" "c \<noteq> CHR ''-''"
    using assms is_digit_consts by blast+
  then show ?thesis
    by (cases neg) (simp_all add: parse_atom_def)
qed

lemma int_str_Cons:
  obtains c t where "int_str i = (if i < 0 then ''-'' else []) @ c # t" "is_digit c"
proof -
  obtain c t where "nat_str (nat \<bar>i\<bar>) = c # t" "is_digit c"
    by (rule nat_str_Cons[of "nat \<bar>i\<bar>"])
  then have "int_str i = (if i < 0 then ''-'' else []) @ c # t"
    by (auto simp: int_str_def abs_if split: if_splits)
  with \<open>is_digit c\<close> show thesis
    by (rule that[rotated])
qed

lemma float_str_Cons:
  obtains c t where "float_str m k = (if m < 0 then ''-'' else []) @ c # t" "is_digit c"
proof -
  obtain c t where "nat_str (nat \<bar>m\<bar> div 10 ^ k) = c # t" "is_digit c"
    by (rule nat_str_Cons[of "nat \<bar>m\<bar> div 10 ^ k"])
  then have "float_str m k = (if m < 0 then ''-'' else []) @ c # t @ ''.'' @ pad_digits k (nat \<bar>m\<bar>)"
    by (simp add: float_str_def)
  with \<open>is_digit c\<close> show thesis
    by (rule that[rotated])
qed

text \<open>The first character of a printed value is none of those that end a list or are skipped.\<close>

definition starter :: "char \<Rightarrow> bool" where
  "starter c \<longleftrightarrow> \<not> is_ws c \<and> c \<noteq> CHR '']'' \<and> c \<noteq> CHR ''}''"

lemma starter_consts [simp]:
  "starter (CHR 0x22)" "starter (CHR ''['')" "starter (CHR ''{'')" "starter (CHR ''n'')"
  "starter (CHR ''t'')" "starter (CHR ''f'')" "starter (CHR ''N'')" "starter (CHR ''I'')" "starter (CHR ''-'')"
  by (simp_all add: starter_def is_ws_def)

lemma starter_digit [simp]: "is_digit c \<Longrightarrow> starter c"
  by (auto simp: starter_def is_ws_def)

lemma signed_Cons:
  "is_digit c \<Longrightarrow> \<exists>d u. (if neg then ''-'' else []) @ c # t = d # u \<and> starter d \<and>
     d \<noteq> CHR 0x22 \<and> d \<noteq> CHR ''['' \<and> d \<noteq> CHR ''{''"
  by (cases neg) auto

lemma dumps_Cons: obtains c t where "print_json w v = c # t" "starter c"
proof (cases v)
  case (JBool b)
  then show ?thesis
    using that by (cases b) auto
next
  case (JInfinity b)
  then show ?thesis
    using that by (cases b) auto
next
  case (JInt i)
  obtain c t where "int_str i = (if i < 0 then ''-'' else []) @ c # t" "is_digit c"
    by (rule int_str_Cons)
  then show ?thesis
    using that signed_Cons[of c "i < 0" t] JInt by auto
next
  case (JFloat m k)
  obtain c t where "float_str m k = (if m < 0 then ''-'' else []) @ c # t" "is_digit c"
    by (rule float_str_Cons)
  then show ?thesis
    using that signed_Cons[of c "m < 0" t] JFloat by auto
qed (use that in \<open>auto simp: dump_string_def\<close>)

lemma starter_not_ws [simp]: "starter c \<Longrightarrow> \<not> is_ws c"
  by (simp add: starter_def)

lemma is_ws_consts [simp]:
  "is_ws (CHR '' '')" "\<not> is_ws (CHR '']'')" "\<not> is_ws (CHR ''}'')" "\<not> is_ws (CHR '','')"
  "\<not> is_ws (CHR '':'')" "\<not> is_ws (CHR 0x22)"
  by (simp_all add: is_ws_def)

lemma num_end_consts [simp]:
  "num_end []" "num_end (CHR '']'' # s)" "num_end (CHR ''}'' # s)" "num_end (CHR '','' # s)"
  by (simp_all add: num_end_def)

lemma dict_of_distinct: "distinct (map fst kvs) \<Longrightarrow> dict_of kvs = kvs"
proof -
  have new: "k \<notin> set (map fst d) \<Longrightarrow> dict_set k v d = d @ [(k, v)]" for k and v :: json and d
    by (induction d) auto
  have "distinct (map fst (d @ kvs)) \<Longrightarrow> foldl (\<lambda>d (k, v). dict_set k v d) d kvs = d @ kvs" for d
    by (induction kvs arbitrary: d) (auto simp: new)
  from this[of "[]"] show "distinct (map fst kvs) \<Longrightarrow> dict_of kvs = kvs"
    by (simp add: dict_of_def)
qed

lemma parse_value_atom:
  "print_json w v = c # t \<Longrightarrow> c \<noteq> CHR 0x22 \<Longrightarrow> c \<noteq> CHR ''['' \<Longrightarrow> c \<noteq> CHR ''{'' \<Longrightarrow>
   parse_value (Suc n) (print_json w v @ r) = parse_atom (print_json w v @ r)"
  by simp

lemma parse_value_number:
  assumes "print_json w v = (if neg then ''-'' else []) @ c # t" "is_digit c"
  shows "parse_value (Suc n) (print_json w v @ r) = parse_number (print_json w v @ r)"
proof -
  obtain d u where "print_json w v = d # u" "d \<noteq> CHR 0x22" "d \<noteq> CHR ''[''" "d \<noteq> CHR ''{''"
    using signed_Cons[OF assms(2), of neg t] assms(1) by auto
  then have "parse_value (Suc n) (print_json w v @ r) = parse_atom (print_json w v @ r)"
    by (rule parse_value_atom)
  also have "\<dots> = parse_number (print_json w v @ r)"
    using parse_atom_number[OF assms(2), of neg "t @ r"] assms(1) by (cases neg) simp_all
  finally show ?thesis .
qed

lemma parse_value_int: "num_end r \<Longrightarrow> parse_value (Suc n) (print_json w (JInt i) @ r) = Some (JInt i, r)"
  using int_str_Cons[of i] parse_value_number[of w "JInt i" "i < 0"] by (metis print_json.simps(3) parse_number_int)

lemma parse_value_float:
  "num_end r \<Longrightarrow> wf_json (JFloat m k) \<Longrightarrow> parse_value (Suc n) (print_json w (JFloat m k) @ r) = Some (JFloat m k, r)"
  using float_str_Cons[of m k] parse_value_number[of w "JFloat m k" "m < 0"]
  by (metis print_json.simps(4) parse_number_float)

lemma parse_value_const:
  "v \<in> {JNull, JBool b, JNaN, JInfinity b} \<Longrightarrow> parse_value (Suc n) (print_json w v @ r) = Some (v, r)"
  by (cases b) (auto simp: parse_atom_def)

lemma parse_value_list:
  assumes "xs \<noteq> []"
  shows "parse_value (Suc n) (print_json w (JList xs) @ r) =
    map_option (\<lambda>(ys, q). (JList ys, q)) (parse_elems n (print_list w xs @ CHR '']'' # r))"
proof -
  obtain y ys where xs: "xs = y # ys"
    using assms by (cases xs) auto
  obtain c t where c: "print_json w y = c # t" "starter c"
    by (rule dumps_Cons)
  then obtain t' where "print_list w xs = c # t'"
    using xs by (cases ys) auto
  with c show ?thesis
    by (auto simp: starter_def)
qed

lemma parse_value_dict:
  assumes "kvs \<noteq> []"
  shows "parse_value (Suc n) (print_json w (JDict kvs) @ r) =
    map_option (\<lambda>(ys, q). (JDict (dict_of ys), q)) (parse_members n (print_items w kvs @ CHR ''}'' # r))"
proof -
  obtain k v ys where xs: "kvs = (k, v) # ys"
    using assms by (cases kvs) auto
  then obtain t' where "print_items w kvs = CHR 0x22 # t'"
    by (cases ys) (auto simp: dump_string_def)
  then show ?thesis
    by simp
qed

definition blank :: "string \<Rightarrow> bool" where
  "blank w \<longleftrightarrow> list_all is_ws w"

lemma blank_space [simp]: "blank '' ''" "blank []"
  by (simp_all add: blank_def)

lemma skip_blank: "blank w \<Longrightarrow> skip_ws (w @ s) = skip_ws s"
  by (simp add: blank_def list_all_iff dropWhile_append2)

lemma skip_ws_dumps [simp]: "skip_ws (print_json w v @ r) = print_json w v @ r"
  by (rule dumps_Cons[of w v]) simp

lemma skip_ws_dump_list [simp]: "skip_ws (print_list w (x # xs) @ r) = print_list w (x # xs) @ r"
  by (cases xs) simp_all

lemma skip_ws_dump_items [simp]: "skip_ws (print_items w (p # ps) @ r) = print_items w (p # ps) @ r"
  by (cases p; cases ps) (simp_all add: dump_string_def)

lemma weight_pos: "0 < weight v"
  by (cases v) simp_all

lemma parse_dumps:
  "blank w \<Longrightarrow> wf_json v \<Longrightarrow> num_end r \<Longrightarrow> weight v \<le> n \<Longrightarrow> parse_value n (print_json w v @ r) = Some (v, r)"
  "blank w \<Longrightarrow> wf_list xs \<Longrightarrow> xs \<noteq> [] \<Longrightarrow> weight_list xs \<le> n \<Longrightarrow>
     parse_elems n (print_list w xs @ CHR '']'' # r) = Some (xs, r)"
  "blank w \<Longrightarrow> wf_items kvs \<Longrightarrow> kvs \<noteq> [] \<Longrightarrow> weight_items kvs \<le> n \<Longrightarrow>
     parse_members n (print_items w kvs @ CHR ''}'' # r) = Some (kvs, r)"
proof (induction w v and w xs and w kvs arbitrary: r n and r n and r n rule: print_json_print_list_print_items.induct)
  case (3 w i)
  then show ?case by (cases n) (simp, metis parse_value_int)
next
  case (4 w m k)
  then show ?case by (cases n) (simp, metis parse_value_float)
next
  case (8 w xs)
  then obtain m where n: "n = Suc m" by (cases n) auto
  show ?case
  proof (cases "xs = []")
    case False
    then show ?thesis
      using 8 n parse_value_list[OF False, of m w r] by simp
  qed (simp add: n)
next
  case (9 w kvs)
  then obtain m where n: "n = Suc m" by (cases n) auto
  show ?case
  proof (cases "kvs = []")
    case False
    then show ?thesis
      using 9 n parse_value_dict[OF False, of m w r] by (simp add: dict_of_distinct)
  qed (simp add: n)
next
  case (12 w x y ys)
  then obtain m where n: "n = Suc m" by (cases n) auto
  have "parse_value m (print_json w x @ '','' @ w @ print_list w (y # ys) @ CHR '']'' # r) =
      Some (x, '','' @ w @ print_list w (y # ys) @ CHR '']'' # r)"
    using 12 n by simp
  moreover have "parse_elems m (print_list w (y # ys) @ CHR '']'' # r) = Some (y # ys, r)"
    using 12 n by simp
  ultimately show ?case
    unfolding n using 12(3) by (simp add: skip_blank)
next
  case (15 w k v p ps)
  then obtain m where n: "n = Suc m" by (cases n) auto
  have "parse_value m (print_json w v @ '','' @ w @ print_items w (p # ps) @ CHR ''}'' # r) =
      Some (v, '','' @ w @ print_items w (p # ps) @ CHR ''}'' # r)"
    using 15 n by (cases p) simp
  moreover have "parse_members m (print_items w (p # ps) @ CHR ''}'' # r) = Some (p # ps, r)"
    using 15 n by (cases p) simp
  ultimately show ?case
    unfolding n using 15(3) by (simp add: dump_string_def skip_blank)
qed (simp_all add: parse_atom_def dump_string_def skip_blank split: nat.splits, (case_tac n; simp add: parse_atom_def dump_string_def skip_blank)+)

lemma weight_le_length:
  "weight v \<le> length (print_json w v)"
  "weight_list xs \<le> Suc (length (print_list w xs))"
  "weight_items kvs \<le> Suc (length (print_items w kvs))"
proof (induction w v and w xs and w kvs rule: print_json_print_list_print_items.induct)
  case (3 w i)
  obtain c t where "int_str i = (if i < 0 then ''-'' else []) @ c # t"
    by (rule int_str_Cons)
  then show ?case
    by simp
next
  case (4 w m k)
  then show ?case
    by (simp add: float_str_def)
next
  case (15 w k v p ps)
  then show ?case by (cases p) simp
qed (simp_all add: dump_string_def)

text \<open>A value that was printed is read back unchanged.\<close>

theorem loads_print: "blank w \<Longrightarrow> wf_json v \<Longrightarrow> loads (print_json w v) = Some v"
proof -
  assume "blank w" "wf_json v"
  then have "parse_value (Suc (length (print_json w v))) (print_json w v @ []) = Some (v, [])"
    using weight_le_length(1)[of v w] by (intro parse_dumps(1)) simp_all
  then show ?thesis
    using skip_ws_dumps[of w v "[]"] by (simp add: loads_def)
qed

lemma loads_dumps [simp, codec_simps]: "wf_json v \<Longrightarrow> loads (dumps v) = Some v"
  by (simp add: loads_print)

text \<open>Printed values end where they end: the rest of a text determines nothing of the value.\<close>

lemma print_json_inject:
  assumes "blank w" "wf_json u" "wf_json v" "num_end r" "num_end s"
    and "print_json w u @ r = print_json w v @ s"
  shows "u = v \<and> r = s"
proof -
  define n where "n = max (weight u) (weight v)"
  have "parse_value n (print_json w u @ r) = Some (u, r)" "parse_value n (print_json w v @ s) = Some (v, s)"
    using assms(1-5) by (simp_all only: n_def parse_dumps(1) max.cobounded1 max.cobounded2)
  with assms(6) show ?thesis
    by (metis option.inject prod.inject)
qed

lemma dumps_not_Nil [simp]: "print_json w v \<noteq> []"
  by (rule dumps_Cons[of w v]) simp

end
