(* ===== verification/Codecs.thy ===== *)
theory Codecs
  imports Json Complex_Main "HOL-Library.Char_ord" "HOL-Library.List_Lexorder"
begin

text \<open>
  The encodings signed payloads and identities are written in, as the Python standard library has
  them: bytes.fromhex, base64 (the decoder skips foreign characters, as b64decode does), the
  big-endian double of struct's ">d", length-prefixed fields, and JSON with sorted keys and compact
  separators. The lemmas are the round trips and the injectivity the signature arguments rest on.
\<close>

unbundle bit_operations_syntax

section \<open>bytes.fromhex\<close>

definition ascii_space :: "char \<Rightarrow> bool" where
  "ascii_space c \<longleftrightarrow> (let n = of_char c :: nat in n = 32 \<or> 9 \<le> n \<and> n \<le> 13)"

fun bytes_fromhex :: "string \<Rightarrow> bytes option" where
  "bytes_fromhex [] = Some []"
| "bytes_fromhex (c # s) =
    (if ascii_space c then bytes_fromhex s
     else (case s of
         [] \<Rightarrow> None
       | d # t \<Rightarrow>
           (case (hex_val c, hex_val d, bytes_fromhex t) of
              (Some h, Some l, Some bs) \<Rightarrow> Some (byte_of (16 * h + l) # bs)
            | _ \<Rightarrow> None)))"

lemma not_space_hex_digit: "n < 16 \<Longrightarrow> \<not> ascii_space (hex_digit n)"
  by (auto simp: ascii_space_def hex_digit_def Let_def)

lemma bytes_fromhex_byte [simp]:
  "bytes_fromhex (hex_byte b @ s) = map_option (Cons b) (bytes_fromhex s)"
proof -
  have "unat b div 16 < 16"
    using unat_byte_less[of b] by linarith
  moreover have "16 * (unat b div 16) + unat b mod 16 = unat b"
    by simp
  ultimately show ?thesis
    by (simp add: hex_byte_def not_space_hex_digit split: option.split)
qed

lemma bytes_fromhex_to_hex [simp, codec_simps]: "bytes_fromhex (to_hex bs) = Some bs"
  by (induction bs) (simp_all add: to_hex_def)

section \<open>Base64\<close>

definition b64_char :: "nat \<Rightarrow> char" where
  "b64_char n =
    (if n < 26 then char_of (65 + n) else if n < 52 then char_of (71 + n)
     else if n < 62 then char_of (n - 4) else if n = 62 then CHR ''+'' else CHR ''/'')"

definition b64_val :: "char \<Rightarrow> nat option" where
  "b64_val c = (let n = of_char c :: nat in
     if 65 \<le> n \<and> n \<le> 90 then Some (n - 65)
     else if 97 \<le> n \<and> n \<le> 122 then Some (n - 71)
     else if 48 \<le> n \<and> n \<le> 57 then Some (n + 4)
     else if c = CHR ''+'' then Some 62 else if c = CHR ''/'' then Some 63 else None)"

fun b64encode :: "bytes \<Rightarrow> string" where
  "b64encode (a # b # c # bs) =
     b64_char (unat a div 4) # b64_char (unat a mod 4 * 16 + unat b div 16) #
     b64_char (unat b mod 16 * 4 + unat c div 64) # b64_char (unat c mod 64) # b64encode bs"
| "b64encode [a, b] =
     [b64_char (unat a div 4), b64_char (unat a mod 4 * 16 + unat b div 16),
      b64_char (unat b mod 16 * 4), CHR ''='']"
| "b64encode [a] = [b64_char (unat a div 4), b64_char (unat a mod 4 * 16), CHR ''='', CHR ''='']"
| "b64encode [] = []"

text \<open>The decoder's state: position in the group of four, the bits left over from the last character
  and the number of pad characters just seen. Foreign characters are skipped; a complete pad ends the
  input; a group left open is an error.\<close>

fun a2b :: "nat \<Rightarrow> nat \<Rightarrow> nat \<Rightarrow> string \<Rightarrow> bytes option" where
  "a2b quad left pads [] = (if quad = 0 then Some [] else None)"
| "a2b quad left pads (c # s) =
    (if c = CHR ''='' then
       (if 2 \<le> quad then if 4 \<le> quad + Suc pads then Some [] else a2b quad left (Suc pads) s
        else a2b quad left pads s)
     else (case b64_val c of
         None \<Rightarrow> a2b quad left pads s
       | Some v \<Rightarrow>
           if quad = 0 then a2b 1 v 0 s
           else if quad = 1 then map_option (Cons (byte_of (left * 4 + v div 16))) (a2b 2 (v mod 16) 0 s)
           else if quad = 2 then map_option (Cons (byte_of (left * 16 + v div 4))) (a2b 3 (v mod 4) 0 s)
           else map_option (Cons (byte_of (left * 64 + v))) (a2b 0 0 0 s)))"

text \<open>\<open>base64.b64decode\<close> of a str: None is binascii.Error or, for a non-ASCII text, ValueError.\<close>

definition b64decode :: "string \<Rightarrow> bytes option" where
  "b64decode s = (if list_all (\<lambda>c. (of_char c :: nat) < 128) s then a2b 0 0 0 s else None)"

lemma b64_val_char [simp]: "n < 64 \<Longrightarrow> b64_val (b64_char n) = Some n"
  by (auto simp: b64_val_def b64_char_def Let_def)

lemma b64_char_ascii [simp]: "n < 64 \<Longrightarrow> (of_char (b64_char n) :: nat) < 128"
  by (auto simp: b64_char_def)

lemma b64_char_not_pad [simp]: "n < 64 \<Longrightarrow> b64_char n \<noteq> CHR ''=''"
proof
  assume "n < 64" "b64_char n = CHR ''=''"
  then have "b64_val (CHR ''='') = Some n"
    using b64_val_char[of n] by simp
  then show False
    by (simp add: b64_val_def)
qed

lemma sextets [simp]:
  "unat (a::byte) div 4 < 64" "unat a mod 4 * 16 + unat (b::byte) div 16 < 64"
  "unat b mod 16 * 4 + unat (c::byte) div 64 < 64" "unat c mod 64 < 64"
  "unat a mod 4 * 16 < 64" "unat b mod 16 * 4 < 64"
  using unat_byte_less[of a] unat_byte_less[of b] unat_byte_less[of c] by linarith+

lemma regroup [simp]:
  "unat (a::byte) div 16 div 16 = 0" "unat a div 16 mod 16 = unat a div 16"
  "unat a div 64 div 4 = 0" "unat a div 64 mod 4 = unat a div 64"
  using unat_byte_less[of a] by (simp_all add: div_mult2_eq[symmetric] less_mult_imp_div_less)

lemma a2b_encode: "a2b 0 0 0 (b64encode bs) = Some bs"
  by (induction bs rule: b64encode.induct) simp_all

lemma b64encode_ascii: "list_all (\<lambda>c. (of_char c :: nat) < 128) (b64encode bs)"
  by (induction bs rule: b64encode.induct) simp_all

lemma b64decode_encode [simp, codec_simps]: "b64decode (b64encode bs) = Some bs"
  by (simp add: b64decode_def a2b_encode b64encode_ascii)

lemma b64encode_inject [simp]: "b64encode a = b64encode b \<longleftrightarrow> a = b"
  by (metis b64decode_encode option.inject)

section \<open>Times and the double of struct's ">d"\<close>

text \<open>A time is the rational number a Python float stands for. Its IEEE 754 encoding rounds to the
  nearest double, ties to even.\<close>

type_synonym time = rat

definition time_of :: "pyfloat \<Rightarrow> time" where
  "time_of t = of_int (fst t) / 10 ^ snd t"

fun bit_len :: "nat \<Rightarrow> nat" where
  "bit_len n = (if n = 0 then 0 else Suc (bit_len (n div 2)))"

definition round_half_even :: "nat \<Rightarrow> nat \<Rightarrow> nat" where
  "round_half_even a b = (let q = a div b; r = a mod b in
     if 2 * r > b \<or> 2 * r = b \<and> odd q then q + 1 else q)"

definition scaled_ge :: "nat \<Rightarrow> nat \<Rightarrow> int \<Rightarrow> bool" where
  "scaled_ge a b e \<longleftrightarrow> (if e \<ge> 0 then a \<ge> 2 ^ 53 * b * 2 ^ nat e else a * 2 ^ nat (- e) \<ge> 2 ^ 53 * b)"

definition double_magnitude :: "nat \<Rightarrow> nat \<Rightarrow> nat" where
  "double_magnitude a b =
    (if a = 0 then 0
     else (let e1 = int (bit_len a) - int (bit_len b) - 53;
               e = max (- 1074) (if scaled_ge a b e1 then e1 + 1 else e1);
               m = (if e \<ge> 0 then round_half_even a (b * 2 ^ nat e) else round_half_even (a * 2 ^ nat (- e)) b)
           in nat (e + 1074) * 2 ^ 52 + m))"

definition pack_double :: "time \<Rightarrow> bytes" where
  "pack_double t = (let (n, d) = quotient_of t in
     be_bytes 8 ((if n < 0 then 2 ^ 63 else 0) + double_magnitude (nat \<bar>n\<bar>) (nat d)))"

lemma length_pack_double [simp]: "length (pack_double t) = 8"
  by (simp add: pack_double_def split: prod.split)

section \<open>Length-prefixed fields\<close>

definition lp_field :: "bytes \<Rightarrow> bytes result" where
  "lp_field b = rbind (pack_uint 4 (int (length b))) (\<lambda>h. Inr (h @ b))"

lemma lp_field_inject:
  assumes "lp_field a = Inr x" "lp_field b = Inr y" "x @ r = y @ s"
  shows "a = b \<and> r = s"
proof -
  obtain h k where h: "pack_uint 4 (int (length a)) = Inr h" "x = h @ a"
    and k: "pack_uint 4 (int (length b)) = Inr k" "y = k @ b"
    using assms(1,2) by (auto simp: lp_field_def rbind_eq_Inr)
  have "length h = 4" "length k = 4"
    using h(1) k(1) by (auto simp: pack_uint_Inr)
  with assms(3) h k have "h = k" and rest: "a @ r = b @ s"
    by auto
  with h(1) k(1) have "int (length a) = int (length b)"
    by (metis be_nat_pack)
  with rest show ?thesis
    by simp
qed

section \<open>JSON with sorted keys and compact separators\<close>

fun sort_json :: "json \<Rightarrow> json"
  and sort_list :: "json list \<Rightarrow> json list"
  and sort_items :: "(string \<times> json) list \<Rightarrow> (string \<times> json) list" where
  "sort_json (JList xs) = JList (sort_list xs)"
| "sort_json (JDict kvs) = JDict (sort_key fst (sort_items kvs))"
| "sort_json v = v"
| "sort_list [] = []"
| "sort_list (x # xs) = sort_json x # sort_list xs"
| "sort_items [] = []"
| "sort_items ((k, v) # kvs) = (k, sort_json v) # sort_items kvs"

definition canonical_json :: "json \<Rightarrow> string" where
  "canonical_json v = print_json [] (sort_json v)"

definition canonical_json_bytes :: "json \<Rightarrow> bytes" where
  "canonical_json_bytes v = utf8_encode (canonical_json v)"

lemma sort_items_keys [simp]: "map fst (sort_items kvs) = map fst kvs"
  by (induction kvs) auto

lemma wf_items_iff: "wf_items kvs \<longleftrightarrow> (\<forall>(k, v)\<in>set kvs. wf_json v)"
  by (induction kvs) auto

lemma distinct_sort_key_fst [simp]:
  "distinct (map fst (sort_key fst kvs)) \<longleftrightarrow> distinct (map fst kvs)"
  by (simp add: distinct_map)

lemma wf_sort:
  "wf_json v \<Longrightarrow> wf_json (sort_json v)"
  "wf_list xs \<Longrightarrow> wf_list (sort_list xs)"
  "wf_items kvs \<Longrightarrow> wf_items (sort_items kvs)"
  by (induction v and xs and kvs rule: sort_json_sort_list_sort_items.induct) (auto simp: wf_items_iff)

text \<open>Equal canonical texts mean equal values, up to the order of keys, whatever follows the text.\<close>

lemma canonical_json_inject:
  assumes "wf_json u" "wf_json v" "num_end r" "num_end s"
    and "canonical_json u @ r = canonical_json v @ s"
  shows "sort_json u = sort_json v \<and> r = s"
  using assms print_json_inject[of "[]" "sort_json u" "sort_json v" r s]
  by (simp add: canonical_json_def wf_sort)

lemma map_of_sort_items: "map_of (sort_items kvs) k = map_option sort_json (map_of kvs k)"
  by (induction kvs) auto

text \<open>Objects with the same canonical text agree on every field.\<close>

lemma canonical_json_field:
  assumes "canonical_json_bytes (JDict a) = canonical_json_bytes (JDict b)"
    and "wf_json (JDict a)" "wf_json (JDict b)"
  shows "map_option sort_json (map_of a k) = map_option sort_json (map_of b k)"
proof -
  have "sort_json (JDict a) = sort_json (JDict b)"
    using canonical_json_inject[OF assms(2,3), of "[]" "[]"] assms(1)
    by (simp add: canonical_json_bytes_def num_end_def)
  then have "set (sort_items a) = set (sort_items b)"
    by simp (metis set_sort)
  moreover have "distinct (map fst (sort_items a))" "distinct (map fst (sort_items b))"
    using assms(2,3) by simp_all
  ultimately have "map_of (sort_items a) = map_of (sort_items b)"
    by (simp add: map_of_inject_set)
  then show ?thesis
    by (metis map_of_sort_items)
qed

end
