(* ===== verification/Partial.thy ===== *)
theory Partial
  imports Files Filenames Codecs
begin

text \<open>
  Model of src/core/transfer/partial.py and of the functions of receiver.py that choose where a
  download goes: the sidecar that records what a partial file belongs to, finding, trusting and
  expiring it, the disk-space check and the choice of a free name inside the downloads directory.
  The clock, the free space and os.path.realpath are arguments; \<open>disk_ok\<close> is whether the
  operating system lets a write succeed. Numbers in a sidecar are within the range of a double.
\<close>

section \<open>Sidecars\<close>

definition META_SUFFIX :: string where "META_SUFFIX = ''.meta''"
definition PART_SUFFIX :: string where "PART_SUFFIX = ''.part''"
definition META_VERSION :: int where "META_VERSION = 1"
definition MAX_META_BYTES :: nat where "MAX_META_BYTES = 4096"
definition COMMIT_INTERVAL :: nat where "COMMIT_INTERVAL = 4 * 1024 * 1024"
definition PARTIAL_MAX_AGE_SECONDS :: time where "PARTIAL_MAX_AGE_SECONDS = 7 * 24 * 3600"
definition MAX_TEXT :: nat where "MAX_TEXT = 1024"

text \<open>\<open>_CHECKSUM_RE.match\<close>: the dollar also matches before a final newline.\<close>

definition checksum_match :: "string \<Rightarrow> bool" where
  "checksum_match s \<longleftrightarrow>
    (let t = (if s \<noteq> [] \<and> last s = CHR 0x0A then butlast s else s)
     in length t = 64 \<and> list_all (\<lambda>c. between 48 57 c \<or> between 97 102 c) t)"

text \<open>What \<open>float()\<close> makes of a JSON number.\<close>

datatype pynum = Fin time | PInf | NInf | NaN

fun py_num :: "json \<Rightarrow> pynum option" where
  "py_num (JInt i) = Some (Fin (of_int i))"
| "py_num (JFloat m k) = Some (Fin (time_of (m, k)))"
| "py_num (JInfinity neg) = Some (if neg then NInf else PInf)"
| "py_num JNaN = Some NaN"
| "py_num _ = None"

fun num_gt :: "pynum \<Rightarrow> pynum \<Rightarrow> bool" where
  "num_gt (Fin a) (Fin b) \<longleftrightarrow> a > b"
| "num_gt PInf (Fin b) \<longleftrightarrow> True"
| "num_gt PInf NInf \<longleftrightarrow> True"
| "num_gt (Fin a) NInf \<longleftrightarrow> True"
| "num_gt _ _ \<longleftrightarrow> False"

record partial_info =
  pi_meta_path :: string
  pi_part_path :: string
  pi_dest_name :: string
  pi_peer_device_id :: string
  pi_filename :: string
  pi_size :: int
  pi_checksum :: string
  pi_committed :: int
  pi_created_at :: pynum
  pi_updated_at :: pynum

definition meta_path_for :: "string \<Rightarrow> string" where
  "meta_path_for part_path = part_path @ META_SUFFIX"

definition is_plain_name :: "string \<Rightarrow> bool" where
  "is_plain_name n \<longleftrightarrow> 0 < length n \<and> length n \<le> MAX_TEXT \<and> n \<notin> {''.'', ''..''} \<and> basename n = n \<and>
     CHR ''/'' \<notin> set n \<and> CHR 0x5C \<notin> set n \<and> CHR 0x00 \<notin> set n"

text \<open>\<open>data.get("version") != META_VERSION\<close>: Python's 1 equals 1.0 and True.\<close>

fun equals_int :: "json option \<Rightarrow> int \<Rightarrow> bool" where
  "equals_int (Some (JInt i)) n \<longleftrightarrow> i = n"
| "equals_int (Some (JFloat m k)) n \<longleftrightarrow> m = n * 10 ^ k"
| "equals_int (Some (JBool b)) n \<longleftrightarrow> (if b then 1 else 0) = n"
| "equals_int _ n \<longleftrightarrow> False"

definition validate_meta :: "json \<Rightarrow> string \<Rightarrow> partial_info option" where
  "validate_meta data meta_path =
    (case data of
       JDict d \<Rightarrow>
         if \<not> equals_int (dict_get d ''version'') META_VERSION then None
         else (case (dict_get d ''peer_device_id'', dict_get d ''filename'', dict_get d ''dest_name'',
                     dict_get d ''checksum'') of
             (Some (JStr peer), Some (JStr filename), Some (JStr dest_name), Some (JStr checksum)) \<Rightarrow>
               if \<not> (0 < length peer \<and> length peer \<le> 128) then None
               else if \<not> (0 < length filename \<and> length filename \<le> MAX_TEXT) then None
               else if \<not> is_plain_name dest_name then None
               else if \<not> checksum_match checksum then None
               else (case (dict_get d ''size'', dict_get d ''committed'') of
                   (Some (JInt sz), Some (JInt committed)) \<Rightarrow>
                     if \<not> (0 \<le> committed \<and> committed \<le> sz) then None
                     else (case (Option.bind (dict_get d ''created_at'') py_num,
                                 Option.bind (dict_get d ''updated_at'') py_num) of
                         (Some created, Some updated) \<Rightarrow>
                           if \<not> ends_with meta_path (PART_SUFFIX @ META_SUFFIX) then None
                           else (let part_path = take (length meta_path - length META_SUFFIX) meta_path
                                 in if basename part_path \<noteq> dest_name @ PART_SUFFIX then None
                                    else Some \<lparr> pi_meta_path = meta_path, pi_part_path = part_path,
                                      pi_dest_name = dest_name, pi_peer_device_id = peer, pi_filename = filename,
                                      pi_size = sz, pi_checksum = checksum, pi_committed = committed,
                                      pi_created_at = created, pi_updated_at = updated \<rparr>)
                       | _ \<Rightarrow> None)
                 | _ \<Rightarrow> None)
           | _ \<Rightarrow> None)
     | _ \<Rightarrow> None)"

definition meta_record ::
  "string \<Rightarrow> string \<Rightarrow> int \<Rightarrow> string \<Rightarrow> string \<Rightarrow> int \<Rightarrow> pyfloat \<Rightarrow> pyfloat \<Rightarrow> json" where
  "meta_record peer filename sz checksum dest_name committed created now = JDict
    [(''version'', JInt META_VERSION), (''peer_device_id'', JStr peer), (''filename'', JStr filename),
     (''size'', JInt sz), (''checksum'', JStr checksum), (''dest_name'', JStr dest_name),
     (''committed'', JInt committed), (''created_at'', py_float created), (''updated_at'', py_float now)]"

definition write_meta ::
  "bool \<Rightarrow> pyfloat \<Rightarrow> string \<Rightarrow> string \<Rightarrow> string \<Rightarrow> int \<Rightarrow> string \<Rightarrow> string \<Rightarrow> int \<Rightarrow> (fs, partial_info) op" where
  "write_meta disk_ok now part_path peer filename sz checksum dest_name committed f =
    (let rec = meta_record peer filename sz checksum dest_name committed now now
     in case validate_meta rec (meta_path_for part_path) of
          None \<Rightarrow> (Inl (Py ValueError), f)
        | Some info \<Rightarrow>
            if disk_ok then (Inr info, put_file (meta_path_for part_path) (utf8_encode (dumps rec)) f)
            else (Inl (Py OSError), f))"

definition read_meta :: "fs \<Rightarrow> string \<Rightarrow> partial_info option" where
  "read_meta f meta_path =
    (case read_file f meta_path of
       None \<Rightarrow> None
     | Some b \<Rightarrow>
         if length b > MAX_META_BYTES then None
         else (case Option.bind (utf8_decode b) loads of
             None \<Rightarrow> None
           | Some data \<Rightarrow> validate_meta data meta_path))"

text \<open>The names \<open>os.scandir\<close> lists for a directory.\<close>

definition scandir :: "fs \<Rightarrow> string \<Rightarrow> string list" where
  "scandir f dir = [n. p \<leftarrow> map fst (names f), n \<leftarrow> [basename p], n \<noteq> [] \<and> path_join dir n = p]"

definition sidecars :: "fs \<Rightarrow> string \<Rightarrow> partial_info list" where
  "sidecars f dir = List.map_filter (\<lambda>n. read_meta f (path_join dir n))
     [n \<leftarrow> scandir f dir. ends_with n (PART_SUFFIX @ META_SUFFIX)]"

definition better :: "partial_info option \<Rightarrow> partial_info \<Rightarrow> partial_info option" where
  "better best info = (case best of
     None \<Rightarrow> Some info
   | Some b \<Rightarrow> if num_gt (pi_updated_at info) (pi_updated_at b) then Some info else best)"

definition find_resumable :: "fs \<Rightarrow> string \<Rightarrow> string \<Rightarrow> string \<Rightarrow> int \<Rightarrow> string \<Rightarrow> partial_info option" where
  "find_resumable f dir peer filename sz checksum =
    foldl better None
      [i \<leftarrow> sidecars f dir. (pi_peer_device_id i, pi_filename i, pi_size i, pi_checksum i) = (peer, filename, sz, checksum) \<and>
         exists_file f (pi_part_path i)]"

definition resume_offset_for :: "fs \<Rightarrow> partial_info \<Rightarrow> nat \<Rightarrow> nat" where
  "resume_offset_for f info cs =
    (case read_file f (pi_part_path info) of
       None \<Rightarrow> 0
     | Some b \<Rightarrow> (let trusted = nat (min (pi_committed info) (min (int (length b)) (pi_size info)))
                 in trusted - trusted mod cs))"

definition discard :: "string \<Rightarrow> fs \<Rightarrow> fs" where
  "discard part_path f = remove_file (meta_path_for part_path) (remove_file part_path f)"

definition is_expired_at :: "time \<Rightarrow> time \<Rightarrow> partial_info \<Rightarrow> bool" where
  "is_expired_at now max_age info =
    (case pi_updated_at info of Fin t \<Rightarrow> now - t > max_age | NInf \<Rightarrow> True | _ \<Rightarrow> False)"

text \<open>The entries are listed once; each sidecar is read when its turn comes.\<close>

definition sweep_one :: "time \<Rightarrow> string \<Rightarrow> string \<Rightarrow> fs \<Rightarrow> fs" where
  "sweep_one now dir n f =
    (if ends_with n (PART_SUFFIX @ META_SUFFIX) then
       (case read_meta f (path_join dir n) of
          None \<Rightarrow> f
        | Some info \<Rightarrow> if is_expired_at now PARTIAL_MAX_AGE_SECONDS info then discard (pi_part_path info) f else f)
     else f)"

definition sweep_expired :: "time \<Rightarrow> string \<Rightarrow> fs \<Rightarrow> fs" where
  "sweep_expired now dir f = fold (sweep_one now dir) (scandir f dir) f"

section \<open>Where a download goes\<close>

definition MAX_INCOMING_FILE_SIZE :: int where "MAX_INCOMING_FILE_SIZE = 2 * 1024 * 1024 * 1024"
definition DISK_SAFETY_MARGIN :: int where "DISK_SAFETY_MARGIN = 10 * 1024 * 1024"

text \<open>\<open>free\<close> is \<open>shutil.disk_usage\<close>'s answer, None when it raises OSError.\<close>

definition check_disk_space :: "int option \<Rightarrow> int \<Rightarrow> bool" where
  "check_disk_space free required = (case free of None \<Rightarrow> True | Some n \<Rightarrow> n \<ge> required + DISK_SAFETY_MARGIN)"

definition candidate :: "string \<Rightarrow> string \<Rightarrow> string \<Rightarrow> nat \<Rightarrow> string" where
  "candidate dir base ext k = path_join dir (base @ '' ('' @ nat_str k @ '')'' @ ext)"

definition taken :: "fs \<Rightarrow> bool \<Rightarrow> string \<Rightarrow> bool" where
  "taken f allow_part p \<longleftrightarrow> exists_file f p \<or> \<not> allow_part \<and> exists_file f (get_part_path p)"

lemma nat_str_inject: "nat_str a = nat_str b \<longleftrightarrow> a = b"
  by (metis digits_val_nat_str)

lemma path_join_inject:
  assumes "path_join d a = path_join d b" "a \<noteq> []" "b \<noteq> []" "hd a \<noteq> CHR ''/''" "hd b \<noteq> CHR ''/''"
  shows "a = b"
  using assms by (auto simp: path_join_def split: if_splits)

lemma candidate_inject:
  assumes "CHR ''/'' \<notin> set base" "candidate d base ext j = candidate d base ext k"
  shows "j = k"
proof -
  have h: "hd (base @ '' ('' @ x) \<noteq> CHR ''/''" for x
    using assms(1) by (cases base) auto
  have "base @ '' ('' @ nat_str j @ '')'' @ ext = base @ '' ('' @ nat_str k @ '')'' @ ext"
    using assms(2) unfolding candidate_def by (rule path_join_inject) (use h in auto)
  then show ?thesis
    by (simp add: nat_str_inject)
qed

lemma finite_taken:
  assumes "CHR ''/'' \<notin> set base"
  shows "finite {k. taken f a (candidate d base ext k)}"
proof -
  have i: "inj (candidate d base ext)" "inj (\<lambda>k. get_part_path (candidate d base ext k))"
    using candidate_inject[OF assms] by (auto simp: inj_def get_part_path_def)
  have "finite {p. exists_file f p}"
    using finite_dom_map_of[of "names f"] by (simp add: exists_file_def dom_def)
  then have "finite (candidate d base ext -` {p. exists_file f p} \<union>
      (\<lambda>k. get_part_path (candidate d base ext k)) -` {p. exists_file f p})"
    using i by (intro finite_UnI finite_vimageI)
  then show ?thesis
    by (rule finite_subset[rotated]) (auto simp: taken_def)
qed

text \<open>The loop over numbered names. A base with a separator does not occur (the name is sanitised); for
  it the search is cut off so that the function is total.\<close>

function number_name :: "fs \<Rightarrow> bool \<Rightarrow> string \<Rightarrow> string \<Rightarrow> string \<Rightarrow> nat \<Rightarrow> string" where
  "number_name f allow_part dir base ext k =
    (if CHR ''/'' \<notin> set base \<and> taken f allow_part (candidate dir base ext k)
     then number_name f allow_part dir base ext (Suc k) else candidate dir base ext k)"
  by pat_completeness auto
termination
proof (relation "measure (\<lambda>(f, a, d, b, e, k). card {j. k \<le> j \<and> taken f a (candidate d b e j)})", goal_cases)
  case (2 f a d b e k)
  have "finite {j. taken f a (candidate d b e j)}"
    using finite_taken[of b f a d e] 2 by simp
  then have fin: "finite {j. k \<le> j \<and> taken f a (candidate d b e j)}"
    by (rule rev_finite_subset) blast
  have mem: "k \<in> {j. k \<le> j \<and> taken f a (candidate d b e j)} - {j. Suc k \<le> j \<and> taken f a (candidate d b e j)}"
    using 2 by simp
  have "{j. Suc k \<le> j \<and> taken f a (candidate d b e j)} \<subseteq> {j. k \<le> j \<and> taken f a (candidate d b e j)}"
    using Suc_leD by blast
  with mem have "{j. Suc k \<le> j \<and> taken f a (candidate d b e j)} \<subset> {j. k \<le> j \<and> taken f a (candidate d b e j)}"
    by blast
  from psubset_card_mono[OF fin this] show ?case
    by simp
qed simp

declare number_name.simps [simp del]

definition path_parts :: "string \<Rightarrow> string list" where
  "path_parts p = [w \<leftarrow> split_on (CHR ''/'') p. w \<noteq> [] \<and> w \<noteq> ''.'']"

text \<open>\<open>os.path.commonpath([a, b])\<close> of absolute paths, compared with \<open>b\<close>.\<close>

definition commonpath_is :: "string \<Rightarrow> string \<Rightarrow> bool" where
  "commonpath_is a b \<longleftrightarrow>
    ''/'' @ join_with ''/'' (longest_common_prefix (path_parts a) (path_parts b)) = b"

definition resolve_safe_dest_path ::
  "(string \<Rightarrow> string) \<Rightarrow> bool \<Rightarrow> fs \<Rightarrow> bool \<Rightarrow> string \<Rightarrow> string \<Rightarrow> string result" where
  "resolve_safe_dest_path realpath windows f allow_part filename dir =
    (case sanitize_filename windows None (MAX_FILENAME_BYTES - 16) (Some filename) of
       Inl _ \<Rightarrow> Inl (Xfer TransferSecurityError)
     | Inr name \<Rightarrow>
         (let (base, ext) = splitext name;
              first = path_join dir name;
              chosen = (if taken f allow_part first then number_name f allow_part dir base ext 1 else first)
          in if commonpath_is (realpath chosen) (realpath dir) then Inr chosen
             else Inl (Xfer TransferSecurityError)))"

section \<open>Lemmas\<close>

text \<open>A path inside a directory: the directory joined with one proper component.\<close>

definition component :: "string \<Rightarrow> bool" where
  "component n \<longleftrightarrow> n \<notin> {[], ''.'', ''..''} \<and> CHR ''/'' \<notin> set n"

definition inside :: "string \<Rightarrow> string \<Rightarrow> bool" where
  "inside dir p \<longleftrightarrow> (\<exists>n. component n \<and> p = path_join dir n)"

lemma component_long: "CHR ''/'' \<notin> set n \<Longrightarrow> 2 < length n \<Longrightarrow> component n"
  by (auto simp: component_def)

lemma path_join_append: "n \<noteq> [] \<Longrightarrow> path_join d n @ x = path_join d (n @ x)"
  by (auto simp: path_join_def)

lemma inside_suffix:
  assumes "inside d p" "CHR ''/'' \<notin> set x" "2 < length x"
  shows "inside d (p @ x)"
proof -
  obtain n where n: "component n" "p = path_join d n"
    using assms(1) by (auto simp: inside_def)
  have ne: "n \<noteq> []" "CHR ''/'' \<notin> set n"
    using n(1) by (simp_all add: component_def)
  have "component (n @ x)"
    using assms(2,3) ne by (intro component_long) simp_all
  moreover have "p @ x = path_join d (n @ x)"
    using n(2) path_join_append[OF ne(1)] by simp
  ultimately show ?thesis
    unfolding inside_def by blast
qed

lemma inside_part: "inside d p \<Longrightarrow> inside d (get_part_path p)"
  unfolding get_part_path_def by (rule inside_suffix) auto

lemma inside_meta: "inside d p \<Longrightarrow> inside d (meta_path_for p)"
  unfolding meta_path_for_def META_SUFFIX_def by (rule inside_suffix) auto

lemma number_name_spec:
  assumes "CHR ''/'' \<notin> set base"
  shows "\<exists>j. number_name f a d base ext k = candidate d base ext j \<and> \<not> taken f a (candidate d base ext j)"
  using assms
proof (induction f a d base ext k rule: number_name.induct)
  case (1 f a d base ext k)
  then show ?case
    by (subst (1) number_name.simps) auto
qed

lemma nat_str_no_slash: "CHR ''/'' \<notin> set (nat_str k)"
proof
  assume "CHR ''/'' \<in> set (nat_str k)"
  then have "is_digit (CHR ''/'')"
    using nat_str_digits[of k] by (simp add: list_all_iff)
  then show False
    by (simp add: is_digit_def)
qed

lemma resolve_safe_dest_path_spec:
  assumes "resolve_safe_dest_path realpath windows f a filename d = Inr p"
  shows "inside d p \<and> \<not> taken f a p"
proof -
  obtain name where n: "sanitize_filename windows None (MAX_FILENAME_BYTES - 16) (Some filename) = Inr name"
    using assms unfolding resolve_safe_dest_path_def
    by (cases "sanitize_filename windows None (MAX_FILENAME_BYTES - 16) (Some filename)") simp_all
  have plain: "plain_name name"
    using sanitize_filename_plain[OF n] by (simp add: MAX_FILENAME_BYTES_def)
  obtain base ext where be: "splitext name = (base, ext)"
    by (cases "splitext name")
  then have chars: "CHR ''/'' \<notin> set base" "CHR ''/'' \<notin> set ext"
    using plain splitext_chars[of name] unfolding plain_name_def be fst_conv snd_conv by blast+
  obtain j where j: "number_name f a d base ext 1 = candidate d base ext j" "\<not> taken f a (candidate d base ext j)"
    using number_name_spec[OF chars(1)] by blast
  have "component (base @ '' ('' @ nat_str j @ '')'' @ ext)"
    by (rule component_long) (simp_all add: chars nat_str_no_slash)
  then have "inside d (candidate d base ext j)"
    unfolding inside_def candidate_def by blast
  moreover have "component name"
    using plain by (simp add: component_def plain_name_def)
  then have "inside d (path_join d name)"
    unfolding inside_def by blast
  moreover have "p = (if taken f a (path_join d name) then candidate d base ext j else path_join d name)"
    using assms unfolding resolve_safe_dest_path_def n sum.case be Let_def prod.case j(1) by (metis sum.distinct(1) sum.inject(2))
  ultimately show ?thesis
    using j(2) by presburger
qed

lemma resume_offset_bounds:
  assumes "0 \<le> pi_committed info" "0 < cs"
  shows "cs dvd resume_offset_for f info cs \<and> int (resume_offset_for f info cs) \<le> pi_committed info \<and>
    (\<forall>b. read_file f (pi_part_path info) = Some b \<longrightarrow> resume_offset_for f info cs \<le> length b)"
proof (cases "read_file f (pi_part_path info)")
  case (Some b)
  define t where "t = nat (min (pi_committed info) (min (int (length b)) (pi_size info)))"
  have r: "resume_offset_for f info cs = t - t mod cs"
    using Some by (simp add: resume_offset_for_def t_def Let_def)
  moreover have "t - t mod cs \<le> t" "cs dvd t - t mod cs"
    by (simp_all add: minus_mod_eq_div_mult)
  moreover have "int t \<le> pi_committed info" "t \<le> length b"
    using assms(1) by (auto simp: t_def)
  ultimately show ?thesis
    using Some by auto
qed (use assms in \<open>simp add: resume_offset_for_def\<close>)

lemma validate_metaD:
  assumes "validate_meta data mp = Some i"
  shows "ends_with mp (PART_SUFFIX @ META_SUFFIX) \<and> pi_part_path i = take (length mp - length META_SUFFIX) mp \<and>
    basename (pi_part_path i) = pi_dest_name i @ PART_SUFFIX \<and> 0 \<le> pi_committed i \<and> pi_committed i \<le> pi_size i"
  using assms unfolding validate_meta_def Let_def
  by (auto split: json.splits option.splits if_splits)

lemma basename_no_slash: "CHR ''/'' \<notin> set (basename p)"
  unfolding basename_def by (metis (full_types) set_rev set_takeWhileD)

lemma scandirD: "n \<in> set (scandir f dir) \<Longrightarrow> n \<noteq> [] \<and> CHR ''/'' \<notin> set n"
  by (auto simp: scandir_def basename_no_slash)

lemma read_meta_part:
  assumes "read_meta f (path_join dir n) = Some i" "CHR ''/'' \<notin> set n" "ends_with n (PART_SUFFIX @ META_SUFFIX)"
  shows "pi_part_path i = path_join dir (pi_dest_name i @ PART_SUFFIX) \<and> inside dir (pi_part_path i) \<and>
    0 \<le> pi_committed i \<and> pi_committed i \<le> pi_size i"
proof -
  obtain u where n: "n = (u @ PART_SUFFIX) @ META_SUFFIX"
    using assms(3) by (auto simp: ends_with_def suffix_def)
  have ne: "u @ PART_SUFFIX \<noteq> []" and slash: "CHR ''/'' \<notin> set (u @ PART_SUFFIX)"
    using assms(2) unfolding n by (simp_all add: PART_SUFFIX_def)
  have join: "path_join dir n = path_join dir (u @ PART_SUFFIX) @ META_SUFFIX"
    unfolding n by (rule path_join_append[OF ne, symmetric])
  obtain data where v: "validate_meta data (path_join dir n) = Some i"
    using assms(1) by (auto simp: read_meta_def split: option.splits if_splits)
  have part: "pi_part_path i = path_join dir (u @ PART_SUFFIX)"
    using validate_metaD[OF v] by (simp add: join)
  then have "basename (pi_part_path i) = u @ PART_SUFFIX"
    using basename_join[OF slash ne] by simp
  then have "pi_dest_name i = u"
    using validate_metaD[OF v] by (metis append_same_eq)
  moreover have "component (u @ PART_SUFFIX)"
    by (rule component_long[OF slash]) (simp add: PART_SUFFIX_def)
  ultimately show ?thesis
    using part validate_metaD[OF v] unfolding inside_def by blast
qed

lemma better_cases: "better b x = Some i \<Longrightarrow> b = Some i \<or> i = x"
  unfolding better_def by (cases b) (simp_all split: if_split_asm)

lemma foldl_better: "foldl better b xs = Some i \<Longrightarrow> b = Some i \<or> i \<in> set xs"
  by (induction xs arbitrary: b) (simp, use better_cases in fastforce)

lemma find_resumableD:
  assumes "find_resumable f dir peer filename sz checksum = Some i"
  shows "pi_part_path i = path_join dir (pi_dest_name i @ PART_SUFFIX) \<and> inside dir (pi_part_path i) \<and>
    0 \<le> pi_committed i \<and> pi_committed i \<le> sz \<and> pi_peer_device_id i = peer \<and> pi_filename i = filename \<and>
    pi_size i = sz \<and> pi_checksum i = checksum \<and> exists_file f (pi_part_path i)"
proof -
  have i: "i \<in> set (sidecars f dir)" "exists_file f (pi_part_path i)"
    "(pi_peer_device_id i, pi_filename i, pi_size i, pi_checksum i) = (peer, filename, sz, checksum)"
    using foldl_better[OF assms[unfolded find_resumable_def]] by auto
  then obtain n where n: "n \<in> set (scandir f dir)" "ends_with n (PART_SUFFIX @ META_SUFFIX)"
    "read_meta f (path_join dir n) = Some i"
    by (auto simp: sidecars_def map_filter_def)
  show ?thesis
    using read_meta_part[OF n(3) _ n(2)] scandirD[OF n(1)] i by auto
qed

section \<open>Choosing a free name\<close>

text \<open>(C39) The search for a free name ends: among the numbered names from \<open>k\<close> on it returns the
  first that neither exists nor, unless partial files are allowed, has a partial file. (Base names have no
  separator: the sanitised file name has none.)\<close>

theorem numbering_ends_at_first_free_name:
  assumes "CHR ''/'' \<notin> set base"
  shows "\<exists>j\<ge>k. number_name f a d base ext k = candidate d base ext j \<and> \<not> taken f a (candidate d base ext j) \<and>
    (\<forall>i. k \<le> i \<longrightarrow> i < j \<longrightarrow> taken f a (candidate d base ext i))"
  using assms
proof (induction f a d base ext k rule: number_name.induct)
  case (1 f a d base ext k)
  show ?case
  proof (cases "taken f a (candidate d base ext k)")
    case True
    obtain j where j: "Suc k \<le> j" "number_name f a d base ext (Suc k) = candidate d base ext j"
      "\<not> taken f a (candidate d base ext j)" "\<forall>i. Suc k \<le> i \<longrightarrow> i < j \<longrightarrow> taken f a (candidate d base ext i)"
      using "1.IH" "1.prems" True by blast
    have "number_name f a d base ext k = candidate d base ext j"
      using True "1.prems" j(2) by (subst number_name.simps) simp
    moreover have "taken f a (candidate d base ext i)" if "k \<le> i" "i < j" for i
      using True j(4) that by (cases "i = k") auto
    ultimately show ?thesis
      using j(1,3) Suc_leD by blast
  next
    case False
    then have "number_name f a d base ext k = candidate d base ext k"
      by (subst number_name.simps) simp
    then show ?thesis
      using False by auto
  qed
qed

theorem numbering_ends_at_first_free_name_witness:
  "number_name \<lparr> names = [(''d/a (1).txt'', 0), (''d/a (2).txt.part'', 1)], contents = [], next_handle = 2 \<rparr>
     False ''d'' ''a'' ''.txt'' 1 = ''d/a (3).txt''"
proof -
  define f where "f = \<lparr> names = [(''d/a (1).txt'', 0), (''d/a (2).txt.part'', 1)], contents = [], next_handle = 2 \<rparr>"
  have t: "taken f False (candidate ''d'' ''a'' ''.txt'' 1)" "taken f False (candidate ''d'' ''a'' ''.txt'' 2)"
    "\<not> taken f False (candidate ''d'' ''a'' ''.txt'' 3)" "candidate ''d'' ''a'' ''.txt'' 3 = ''d/a (3).txt''"
    unfolding f_def by code_simp+
  obtain j where j: "1 \<le> j" "number_name f False ''d'' ''a'' ''.txt'' 1 = candidate ''d'' ''a'' ''.txt'' j"
    "\<not> taken f False (candidate ''d'' ''a'' ''.txt'' j)" "\<forall>i. 1 \<le> i \<longrightarrow> i < j \<longrightarrow> taken f False (candidate ''d'' ''a'' ''.txt'' i)"
    using numbering_ends_at_first_free_name[of "''a''" 1 f False "''d''" "''.txt''"] by auto
  have "j \<noteq> 1" "j \<noteq> 2" "\<not> 3 < j"
    using t(1-3) j(3) j(4)[rule_format, of 3] by auto
  then have "j = 3"
    using j(1) by linarith
  then show ?thesis
    using j(2) t(4) by (simp add: f_def)
qed

end
