(* ===== verification/ErrorCodes.thy ===== *)
theory ErrorCodes
  imports Json Regex
begin

text \<open>
  The application error message (core/protocol/error_codes.py): the closed set of codes with their
  contracts, the filtering of context and message text on both sides, and the building and parsing
  of an error message.
\<close>

section \<open>Codes and contracts\<close>

datatype error_code =
    AUTH_FAILED | POLICY_DENIED | PROTOCOL_MISMATCH | INVALID_FRAME | INVALID_STATE
  | TRANSFER_NOT_FOUND | SIZE_EXCEEDED | DISK_FULL | CHECKSUM_MISMATCH | TRANSFER_EXPIRED
  | RATE_LIMITED | INTERNAL_ERROR

definition all_codes :: "error_code list" where
  "all_codes = [AUTH_FAILED, POLICY_DENIED, PROTOCOL_MISMATCH, INVALID_FRAME, INVALID_STATE,
     TRANSFER_NOT_FOUND, SIZE_EXCEEDED, DISK_FULL, CHECKSUM_MISMATCH, TRANSFER_EXPIRED,
     RATE_LIMITED, INTERNAL_ERROR]"

fun code_value :: "error_code \<Rightarrow> string" where
  "code_value AUTH_FAILED = ''AUTH_FAILED''"
| "code_value POLICY_DENIED = ''POLICY_DENIED''"
| "code_value PROTOCOL_MISMATCH = ''PROTOCOL_MISMATCH''"
| "code_value INVALID_FRAME = ''INVALID_FRAME''"
| "code_value INVALID_STATE = ''INVALID_STATE''"
| "code_value TRANSFER_NOT_FOUND = ''TRANSFER_NOT_FOUND''"
| "code_value SIZE_EXCEEDED = ''SIZE_EXCEEDED''"
| "code_value DISK_FULL = ''DISK_FULL''"
| "code_value CHECKSUM_MISMATCH = ''CHECKSUM_MISMATCH''"
| "code_value TRANSFER_EXPIRED = ''TRANSFER_EXPIRED''"
| "code_value RATE_LIMITED = ''RATE_LIMITED''"
| "code_value INTERNAL_ERROR = ''INTERNAL_ERROR''"

text \<open>\<open>ErrorCode(s)\<close>: the member with that value.\<close>

definition code_of :: "string \<Rightarrow> error_code option" where
  "code_of s = find (\<lambda>c. code_value c = s) all_codes"

record error_contract =
  ct_text :: string
  ct_retryable :: bool
  ct_terminal :: bool
  ct_retry_hint :: "string option"

fun contracts :: "error_code \<Rightarrow> error_contract" where
  "contracts AUTH_FAILED = \<lparr> ct_text = ''The peer did not permit that request.'',
     ct_retryable = False, ct_terminal = True, ct_retry_hint = None \<rparr>"
| "contracts POLICY_DENIED = \<lparr> ct_text = ''A policy on the peer's side denied that request.'',
     ct_retryable = False, ct_terminal = True,
     ct_retry_hint = Some ''This needs a policy change before it can work.'' \<rparr>"
| "contracts PROTOCOL_MISMATCH = \<lparr> ct_text = ''The peer cannot process that request with its current version.'',
     ct_retryable = False, ct_terminal = True,
     ct_retry_hint = Some ''Reconnect after both sides are on a compatible version.'' \<rparr>"
| "contracts INVALID_FRAME = \<lparr> ct_text = ''The peer could not understand a message that was sent to it.'',
     ct_retryable = False, ct_terminal = True, ct_retry_hint = None \<rparr>"
| "contracts INVALID_STATE = \<lparr> ct_text = ''That request does not fit what the peer is currently doing.'',
     ct_retryable = True, ct_terminal = False,
     ct_retry_hint = Some ''Check the current state, then try again.'' \<rparr>"
| "contracts TRANSFER_NOT_FOUND = \<lparr> ct_text = ''The requested transfer is no longer available.'',
     ct_retryable = False, ct_terminal = True, ct_retry_hint = None \<rparr>"
| "contracts SIZE_EXCEEDED = \<lparr> ct_text = ''That transfer is larger than the peer allows.'',
     ct_retryable = False, ct_terminal = True, ct_retry_hint = Some ''Choose a smaller file.'' \<rparr>"
| "contracts DISK_FULL = \<lparr> ct_text = ''The peer does not have enough free space.'',
     ct_retryable = True, ct_terminal = True,
     ct_retry_hint = Some ''Try again once the peer has freed up space.'' \<rparr>"
| "contracts CHECKSUM_MISMATCH = \<lparr> ct_text = ''The received file failed verification.'',
     ct_retryable = False, ct_terminal = True,
     ct_retry_hint = Some ''Send the file again to restart the transfer.'' \<rparr>"
| "contracts TRANSFER_EXPIRED = \<lparr> ct_text = ''That transfer offer has expired.'',
     ct_retryable = True, ct_terminal = True, ct_retry_hint = Some ''Start a new offer.'' \<rparr>"
| "contracts RATE_LIMITED = \<lparr> ct_text = ''The peer is temporarily limiting requests.'',
     ct_retryable = True, ct_terminal = False,
     ct_retry_hint = Some ''Wait a moment, then try again.'' \<rparr>"
| "contracts INTERNAL_ERROR = \<lparr> ct_text = ''The peer hit an unexpected problem.'',
     ct_retryable = False, ct_terminal = True, ct_retry_hint = None \<rparr>"

section \<open>Context filtering\<close>

definition MAX_ERROR_MESSAGE_LEN :: nat where "MAX_ERROR_MESSAGE_LEN = 512"
definition MAX_SENT_MESSAGE_LEN :: nat where "MAX_SENT_MESSAGE_LEN = 200"
definition MAX_CODE_LEN :: nat where "MAX_CODE_LEN = 64"
definition MAX_CONTEXT_ID_LEN :: nat where "MAX_CONTEXT_ID_LEN = 128"

definition ID_KEYS :: "string list" where
  "ID_KEYS = [''message_id'', ''transfer_id'', ''group_id'']"

definition ALLOWED_CONTEXT_KEYS :: "string set" where
  "ALLOWED_CONTEXT_KEYS = set ID_KEYS \<union> {''retry_after''}"

definition id_char :: "char \<Rightarrow> bool" where
  "id_char c \<longleftrightarrow> is_ascii_alnum c \<or> c \<in> set ''_.:-''"

definition id_match :: "string \<Rightarrow> bool" where
  "id_match s = match_line id_char 1 MAX_CONTEXT_ID_LEN s"

text \<open>\<open>0 < retry <= 3600\<close> for an int or a finite float; NaN and the infinities fail it.\<close>

definition retry_ok :: "json \<Rightarrow> bool" where
  "retry_ok v = (case v of
     JInt i \<Rightarrow> 0 < i \<and> i \<le> 3600
   | JFloat m k \<Rightarrow> 0 < m \<and> m \<le> 3600 * 10 ^ k
   | _ \<Rightarrow> False)"

definition filter_context :: "json option \<Rightarrow> (string \<times> json) list" where
  "filter_context context =
    (case context of
       Some (JDict d) \<Rightarrow>
         List.map_filter (\<lambda>key. case dict_get d key of
             Some (JStr s) \<Rightarrow> if id_match s then Some (key, JStr s) else None
           | _ \<Rightarrow> None) ID_KEYS @
         (case dict_get d ''retry_after'' of
            Some v \<Rightarrow> if retry_ok v then [(''retry_after'', v)] else []
          | None \<Rightarrow> [])
     | _ \<Rightarrow> [])"

section \<open>Text safety\<close>

definition is_control :: "char \<Rightarrow> bool" where
  "is_control c \<longleftrightarrow> between 0 31 c \<or> between 127 159 c"

text \<open>\<open>sanitize_for_log\<close> on a string.\<close>

definition sanitize_for_log :: "string \<Rightarrow> nat \<Rightarrow> string" where
  "sanitize_for_log value limit =
    (let text = map (\<lambda>c. if is_control c then CHR ''?'' else c) value
     in if length text > limit then take limit text @ ''...'' else text)"

definition suspicious_res :: "regex list" where
  "suspicious_res =
    (let d13 = Rep 1 (Some 3) (Cls is_digit);
         seg = Cat (lit ''/'') (Rep 1 None (Cls (\<lambda>c. is_word_char c \<or> c = CHR ''.'' \<or> c = CHR ''-'')))
     in [lit ''traceback (most recent call'',
         Cat (lit ''file '') (Cat (Cls (\<lambda>c. c = CHR 0x22)) (Cat (Rep 1 None (Cls (\<lambda>c. c \<noteq> CHR 0x22)))
           (Cat (Cls (\<lambda>c. c = CHR 0x22)) (Cat (lit '', line '') (Rep 1 None (Cls is_digit)))))),
         Cat (Alt Bol (Cls (\<lambda>c. is_space c \<or> c = CHR 0x27 \<or> c = CHR 0x22 \<or> c = CHR ''('')))
           (Rep 2 None seg),
         Cat (Cls is_ascii_alpha) (Cat (lit '':'') (Cat (Cls (\<lambda>c. c = CHR 0x5C))
           (Rep 1 None (Cls (\<lambda>c. is_word_char c \<or> c = CHR 0x5C \<or> c = CHR ''.'' \<or> c = CHR ''-''))))),
         Cat Boundary (Cat d13 (Cat (Rep 3 (Some 3) (Cat (lit ''.'') d13))
           (Cat (Rep 0 (Some 1) (Cat (lit '':'') (Rep 1 None (Cls is_digit)))) Boundary))),
         Cat Boundary (Cat (Rep 32 None (Cls (\<lambda>c. is_digit c \<or> between 97 102 (to_lower c)))) Boundary),
         Cat (Rep 40 None (Cls (\<lambda>c. is_ascii_alnum c \<or> c \<in> set ''+/_-''))) (Rep 0 (Some 2) (lit ''='')),
         Cat Boundary (Cat (Rep 1 None (Cls is_word_char))
           (Cat (Alt (lit ''Error'') (lit ''Exception'')) (Cat Boundary (lit '':''))))])"

definition is_safe_message :: "string \<Rightarrow> bool" where
  "is_safe_message text \<longleftrightarrow>
     strip text \<noteq> [] \<and> \<not> length text > MAX_SENT_MESSAGE_LEN \<and> \<not> list_ex is_control text \<and>
     \<not> list_ex (\<lambda>rx. re_search rx text) suspicious_res"

section \<open>Building and parsing\<close>

definition build_error :: "error_code \<Rightarrow> string option \<Rightarrow> json option \<Rightarrow> int \<Rightarrow> json" where
  "build_error ec message context version =
    (let text = (case message of
           Some m \<Rightarrow> if is_safe_message m then m else ct_text (contracts ec)
         | None \<Rightarrow> ct_text (contracts ec));
         ctx = filter_context context
     in JDict ([(''type'', JStr ''error''), (''version'', JInt version), (''code'', JStr (code_value ec)),
                (''message'', JStr text)] @ (if ctx \<noteq> [] then [(''context'', JDict ctx)] else [])))"

record error_info =
  ei_code :: error_code
  ei_raw_code :: string
  ei_known :: bool
  ei_peer_message :: string
  ei_context :: "(string \<times> json) list"

definition ei_display_text :: "error_info \<Rightarrow> string" where
  "ei_display_text i = ct_text (contracts (ei_code i))"

definition ei_retryable :: "error_info \<Rightarrow> bool" where
  "ei_retryable i = ct_retryable (contracts (ei_code i))"

definition ei_terminal :: "error_info \<Rightarrow> bool" where
  "ei_terminal i = ct_terminal (contracts (ei_code i))"

definition ei_retry_hint :: "error_info \<Rightarrow> string option" where
  "ei_retry_hint i = ct_retry_hint (contracts (ei_code i))"

definition ei_retry_after :: "error_info \<Rightarrow> json option" where
  "ei_retry_after i = dict_get (ei_context i) ''retry_after''"

definition parse_error_message :: "json \<Rightarrow> error_info result" where
  "parse_error_message message =
    (case message of
       JDict m \<Rightarrow>
         if dict_get m ''type'' \<noteq> Some (JStr ''error'') then Inl (Wire ProtocolError)
         else (case dict_get m ''code'' of
           Some (JStr raw_code) \<Rightarrow>
             if raw_code = [] \<or> length raw_code > MAX_CODE_LEN then Inl (Wire ProtocolError)
             else (case dict_get m ''message'' of
               Some (JStr peer_message) \<Rightarrow>
                 if length peer_message > MAX_ERROR_MESSAGE_LEN then Inl (Wire ProtocolError)
                 else if (case dict_get m ''context'' of
                            None \<Rightarrow> False | Some JNull \<Rightarrow> False | Some (JDict _) \<Rightarrow> False | _ \<Rightarrow> True)
                   then Inl (Wire ProtocolError)
                 else Inr \<lparr> ei_code = (case code_of raw_code of Some c \<Rightarrow> c | None \<Rightarrow> INTERNAL_ERROR),
                            ei_raw_code = raw_code,
                            ei_known = (code_of raw_code \<noteq> None),
                            ei_peer_message = sanitize_for_log peer_message MAX_SENT_MESSAGE_LEN,
                            ei_context = filter_context (dict_get m ''context'') \<rparr>
             | _ \<Rightarrow> Inl (Wire ProtocolError))
         | _ \<Rightarrow> Inl (Wire ProtocolError))
     | _ \<Rightarrow> Inl (Wire ProtocolError))"

section \<open>Lemmas\<close>

lemma code_of_value [simp]: "code_of (code_value c) = Some c"
  by (cases c) (simp_all add: code_of_def all_codes_def)

lemma code_value_size: "code_value c \<noteq> [] \<and> length (code_value c) \<le> MAX_CODE_LEN"
  by (cases c) (simp_all add: MAX_CODE_LEN_def)

lemma contract_text_size: "length (ct_text (contracts c)) \<le> MAX_SENT_MESSAGE_LEN"
  by (cases c) (simp_all add: MAX_SENT_MESSAGE_LEN_def)

lemma map_filter_concat:
  "List.map_filter f xs = concat (map (\<lambda>x. case f x of None \<Rightarrow> [] | Some y \<Rightarrow> [y]) xs)"
  by (induction xs) (simp_all add: List.map_filter_def split: option.splits)

text \<open>The entry kept for an identifier key.\<close>

definition id_entry :: "(string \<times> json) list \<Rightarrow> string \<Rightarrow> (string \<times> json) list" where
  "id_entry d key = (case dict_get d key of
     Some (JStr s) \<Rightarrow> if id_match s then [(key, JStr s)] else [] | _ \<Rightarrow> [])"

definition retry_entry :: "(string \<times> json) list \<Rightarrow> (string \<times> json) list" where
  "retry_entry d = (case dict_get d ''retry_after'' of
     Some v \<Rightarrow> if retry_ok v then [(''retry_after'', v)] else [] | None \<Rightarrow> [])"

lemma filter_context_dict:
  "filter_context (Some (JDict d)) =
     id_entry d ''message_id'' @ id_entry d ''transfer_id'' @ id_entry d ''group_id'' @ retry_entry d"
proof -
  have "(case (case dict_get d key of Some (JStr s) \<Rightarrow> if id_match s then Some (key, JStr s) else None | _ \<Rightarrow> None)
      of None \<Rightarrow> [] | Some y \<Rightarrow> [y]) = id_entry d key" for key
    by (simp add: id_entry_def split: option.split json.split)
  then show ?thesis
    by (simp add: filter_context_def ID_KEYS_def map_filter_concat retry_entry_def)
qed

lemma filter_context_other: "(\<forall>d. c \<noteq> Some (JDict d)) \<Longrightarrow> filter_context c = []"
  by (auto simp: filter_context_def split: option.splits json.splits)

lemma entry_keys: "dict_get (id_entry d k) k' = (if k' = k \<and> id_entry d k \<noteq> [] then dict_get d k else None)"
  "dict_get (retry_entry d) k' = (if k' = ''retry_after'' \<and> retry_entry d \<noteq> [] then dict_get d ''retry_after'' else None)"
  by (auto simp: id_entry_def retry_entry_def split: option.splits json.splits)

lemma id_entry_again:
  assumes "dict_get d' k = (if id_entry d k \<noteq> [] then dict_get d k else None)"
  shows "id_entry d' k = id_entry d k"
  using assms by (auto simp: id_entry_def split: option.splits json.splits if_splits)

lemma retry_entry_again:
  assumes "dict_get d' ''retry_after'' = (if retry_entry d \<noteq> [] then dict_get d ''retry_after'' else None)"
  shows "retry_entry d' = retry_entry d"
  using assms by (auto simp: retry_entry_def split: option.splits if_splits)

lemma filter_context_idem [simp]: "filter_context (Some (JDict (filter_context c))) = filter_context c"
proof (cases "\<exists>d. c = Some (JDict d)")
  case True
  then obtain d where c: "c = Some (JDict d)" by blast
  let ?d' = "id_entry d ''message_id'' @ id_entry d ''transfer_id'' @ id_entry d ''group_id'' @ retry_entry d"
  have "id_entry ?d' ''message_id'' = id_entry d ''message_id''"
    "id_entry ?d' ''transfer_id'' = id_entry d ''transfer_id''"
    "id_entry ?d' ''group_id'' = id_entry d ''group_id''"
    by (rule id_entry_again, simp add: map_of_append entry_keys map_add_def split: option.splits)+
  moreover have "retry_entry ?d' = retry_entry d"
    by (rule retry_entry_again) (simp add: map_of_append entry_keys map_add_def split: option.splits)
  ultimately show ?thesis
    by (simp only: c filter_context_dict)
next
  case False
  then have "filter_context c = []"
    by (intro filter_context_other) blast
  then show ?thesis
    by (simp add: filter_context_dict id_entry_def retry_entry_def)
qed

lemma filter_context_entries:
  "(k, v) \<in> set (filter_context c) \<Longrightarrow>
     k \<in> set ID_KEYS \<and> (\<exists>s. v = JStr s \<and> id_match s) \<or> k = ''retry_after'' \<and> retry_ok v"
proof -
  assume kv: "(k, v) \<in> set (filter_context c)"
  then obtain d where c: "c = Some (JDict d)"
    using filter_context_other[of c] by fastforce
  show ?thesis
    using kv unfolding c filter_context_dict
    by (auto simp: id_entry_def retry_entry_def ID_KEYS_def split: option.splits json.splits if_splits)
qed

section \<open>Properties\<close>

lemma parse_build_error:
  "\<exists>shown. parse_error_message (build_error c m ctx v) =
     Inr \<lparr> ei_code = c, ei_raw_code = code_value c, ei_known = True,
           ei_peer_message = sanitize_for_log shown MAX_SENT_MESSAGE_LEN, ei_context = filter_context ctx \<rparr> \<and>
     (shown = ct_text (contracts c) \<or> m = Some shown \<and> is_safe_message shown)"
proof -
  define shown where "shown = (case m of Some m \<Rightarrow> if is_safe_message m then m else ct_text (contracts c)
      | None \<Rightarrow> ct_text (contracts c))"
  have origin: "shown = ct_text (contracts c) \<or> m = Some shown \<and> is_safe_message shown"
    by (auto simp: shown_def split: option.splits)
  then have "length shown \<le> MAX_SENT_MESSAGE_LEN"
    using contract_text_size[of c] by (auto simp: is_safe_message_def)
  then have len: "\<not> length shown > MAX_ERROR_MESSAGE_LEN"
    by (simp add: MAX_SENT_MESSAGE_LEN_def MAX_ERROR_MESSAGE_LEN_def)
  have empty: "filter_context None = []"
    by (simp add: filter_context_def)
  have "parse_error_message (build_error c m ctx v) =
     Inr \<lparr> ei_code = c, ei_raw_code = code_value c, ei_known = True,
           ei_peer_message = sanitize_for_log shown MAX_SENT_MESSAGE_LEN, ei_context = filter_context ctx \<rparr>"
    using code_value_size[of c] len empty
    by (simp add: build_error_def parse_error_message_def Let_def flip: shown_def)
  with origin show ?thesis
    by blast
qed

text \<open>
  (C31) An error message that was built is parsed as the code it was built with, for every code,
  message text and context: the text is bounded, and the receiver's view of the context is exactly
  what the sender let through.
\<close>

theorem error_message_roundtrip:
  "\<exists>shown. parse_error_message (build_error c m ctx v) =
     Inr \<lparr> ei_code = c, ei_raw_code = code_value c, ei_known = True,
           ei_peer_message = sanitize_for_log shown MAX_SENT_MESSAGE_LEN, ei_context = filter_context ctx \<rparr> \<and>
     (shown = ct_text (contracts c) \<or> m = Some shown \<and> is_safe_message shown)"
  by (rule parse_build_error)


definition sample_context :: json where
  "sample_context = JDict [(''path'', JStr ''/home/u''), (''transfer_id'', JStr ''t-1''), (''retry_after'', JInt 5)]"


end
