(* ===== verification/Wire.thy ===== *)
theory Wire
  imports Json
begin

text \<open>
  Framing on the byte stream (core/protocol/frame.py) and the layout of a file chunk
  (core/protocol/binary.py). A stream reader is the list of bytes it will still deliver
  before end of file; reading returns the value and the rest of the stream.
\<close>

unbundle bit_operations_syntax

section \<open>Frames (core/protocol/frame.py)\<close>

definition MAX_MESSAGE_SIZE :: nat where
  "MAX_MESSAGE_SIZE = 100 * 1024 * 1024"

definition BINARY_FLAG :: int where
  "BINARY_FLAG = 0x80000000"

definition LENGTH_PREFIX_SIZE :: nat where
  "LENGTH_PREFIX_SIZE = 4"

definition encode_frame :: "json \<Rightarrow> bytes result" where
  "encode_frame message =
    (let payload = utf8_encode (dumps message)
     in if length payload > MAX_MESSAGE_SIZE then Inl (Wire ProtocolError)
        else rbind (pack_uint LENGTH_PREFIX_SIZE (int (length payload))) (\<lambda>header. Inr (header @ payload)))"

definition encode_binary_frame :: "bytes \<Rightarrow> bytes result" where
  "encode_binary_frame payload =
    (if length payload > MAX_MESSAGE_SIZE then Inl (Wire ProtocolError)
     else rbind (pack_uint LENGTH_PREFIX_SIZE (int (length payload) OR BINARY_FLAG))
            (\<lambda>header. Inr (header @ payload)))"

definition readexactly :: "nat \<Rightarrow> (bytes, bytes) op" where
  "readexactly n s = (if length s < n then (Inl (Py IncompleteReadError), []) else (Inr (take n s), drop n s))"

text \<open>\<open>_read_raw\<close>: whether the frame is binary, and its payload.\<close>

definition read_raw :: "(bytes, bool \<times> bytes) op" where
  "read_raw =
    sbind (readexactly LENGTH_PREFIX_SIZE) (\<lambda>header.
      let raw_length = int (be_nat header);
          is_binary = (raw_length AND BINARY_FLAG) \<noteq> 0;
          len = raw_length AND NOT BINARY_FLAG
      in if len = 0 \<or> len > int MAX_MESSAGE_SIZE then sfail (Wire ProtocolError)
         else sbind (readexactly (nat len)) (\<lambda>payload. sret (is_binary, payload)))"

definition decode_json :: "bytes \<Rightarrow> json result" where
  "decode_json payload =
    (case utf8_decode payload of
       None \<Rightarrow> Inl (Wire ProtocolError)
     | Some t \<Rightarrow> (case loads t of None \<Rightarrow> Inl (Wire ProtocolError) | Some v \<Rightarrow> Inr v))"

definition read_frame :: "(bytes, json) op" where
  "read_frame =
    sbind read_raw (\<lambda>(is_binary, payload).
      if is_binary then sfail (Wire ProtocolError) else slift (decode_json payload))"

datatype frame = JsonFrame json | BinaryFrame bytes

definition read_any_frame :: "(bytes, frame) op" where
  "read_any_frame =
    sbind read_raw (\<lambda>(is_binary, payload).
      if is_binary then sret (BinaryFrame payload)
      else slift (rbind (decode_json payload) (\<lambda>v. Inr (JsonFrame v))))"

text \<open>Writing to the stream: the bytes queued on the writer.\<close>

definition write_frame :: "bytes \<Rightarrow> json \<Rightarrow> bytes result" where
  "write_frame out message = rbind (encode_frame message) (\<lambda>f. Inr (out @ f))"

definition write_binary_frame :: "bytes \<Rightarrow> bytes \<Rightarrow> bytes result" where
  "write_binary_frame out payload = rbind (encode_binary_frame payload) (\<lambda>f. Inr (out @ f))"

section \<open>File chunks (core/protocol/binary.py)\<close>

text \<open>The documented reading of \<open>uuid.UUID(s)\<close>: 32 hexadecimal digits; hyphens, curly braces and a
  URN prefix are optional.\<close>

function remove_sub :: "string \<Rightarrow> string \<Rightarrow> string" where
  "remove_sub p s =
    (if p \<noteq> [] \<and> prefix p s then remove_sub p (drop (length p) s)
     else (case s of [] \<Rightarrow> [] | c # t \<Rightarrow> c # remove_sub p t))"
  by pat_completeness auto
termination
  by (relation "measure (\<lambda>(p, s). length s)") (auto simp: prefix_def)

declare remove_sub.simps [simp del]

definition strip_chars :: "(char \<Rightarrow> bool) \<Rightarrow> string \<Rightarrow> string" where
  "strip_chars P s = rev (dropWhile P (rev (dropWhile P s)))"

definition uuid_bytes :: "string \<Rightarrow> bytes option" where
  "uuid_bytes s =
    (let t = strip_chars (\<lambda>c. c = CHR ''{'' \<or> c = CHR ''}'') (remove_sub ''uuid:'' (remove_sub ''urn:'' s));
         h = filter (\<lambda>c. c \<noteq> CHR ''-'') t
     in if length h \<noteq> 32 then None else from_hex h)"

definition uuid_str :: "bytes \<Rightarrow> string" where
  "uuid_str b = (let h = to_hex b in
     take 8 h @ ''-'' @ take 4 (drop 8 h) @ ''-'' @ take 4 (drop 12 h) @ ''-'' @
     take 4 (drop 16 h) @ ''-'' @ drop 20 h)"

record file_data =
  fd_transfer_id :: string
  fd_sequence :: nat
  fd_offset :: nat
  fd_data :: bytes

definition HEADER_SIZE :: nat where
  "HEADER_SIZE = 28"

definition encode_file_data :: "string \<Rightarrow> int \<Rightarrow> int \<Rightarrow> bytes \<Rightarrow> bytes result" where
  "encode_file_data transfer_id sequence offset data =
    (case uuid_bytes transfer_id of
       None \<Rightarrow> Inl (Wire ProtocolError)
     | Some tid_bytes \<Rightarrow>
         if sequence < 0 \<or> sequence > 0xFFFFFFFF then Inl (Wire ProtocolError)
         else if offset < 0 \<or> offset > 0xFFFFFFFFFFFFFFFF then Inl (Wire ProtocolError)
         else Inr (tid_bytes @ be_bytes 4 (nat sequence) @ be_bytes 8 (nat offset) @ data))"

definition decode_file_data :: "bytes \<Rightarrow> file_data result" where
  "decode_file_data payload =
    (if length payload < HEADER_SIZE then Inl (Wire ProtocolError)
     else Inr \<lparr> fd_transfer_id = uuid_str (take 16 payload),
                fd_sequence = be_nat (take 4 (drop 16 payload)),
                fd_offset = be_nat (take 8 (drop 20 payload)),
                fd_data = drop HEADER_SIZE payload \<rparr>)"

section \<open>Lemmas on frames\<close>

lemmas wire_consts = MAX_MESSAGE_SIZE_def LENGTH_PREFIX_SIZE_def BINARY_FLAG_def

lemma readexactly_append [simp]: "length xs = n \<Longrightarrow> readexactly n (xs @ ys) = (Inr xs, ys)"
  by (simp add: readexactly_def)

lemma readexactly_short: "length s < n \<Longrightarrow> readexactly n s = (Inl (Py IncompleteReadError), [])"
  by (simp add: readexactly_def)

lemma sbind_readexactly [simp]:
  "length xs = n \<Longrightarrow> sbind (readexactly n) f (xs @ ys) = f xs ys"
  "length s < n \<Longrightarrow> sbind (readexactly n) f s = (Inl (Py IncompleteReadError), [])"
  by (simp_all add: sbind_def readexactly_short)

lemma flag_set:
  fixes n :: int
  assumes "0 \<le> n" "n < 2 ^ 31"
  shows "n OR BINARY_FLAG = n + 2 ^ 31"
    and "(n OR BINARY_FLAG) AND BINARY_FLAG \<noteq> 0"
    and "(n OR BINARY_FLAG) AND NOT BINARY_FLAG = n"
    and "n AND BINARY_FLAG = 0"
    and "n AND NOT BINARY_FLAG = n"
proof -
  have flag: "BINARY_FLAG = 2 ^ 31"
    by (simp add: BINARY_FLAG_def)
  have bf: "bit BINARY_FLAG k \<longleftrightarrow> k = 31" for k
    unfolding flag by (simp only: bit_exp_iff) simp
  have tb: "take_bit 31 n = n"
    using assms by (simp add: take_bit_int_eq_self_iff)
  have nb: "\<not> bit n k" if "31 \<le> k" for k
    using that bit_take_bit_iff[of 31 n k] tb by simp
  show zero: "n AND BINARY_FLAG = 0"
    by (rule bit_eqI) (auto simp: bf bit_simps nb)
  show "n OR BINARY_FLAG = n + 2 ^ 31"
    using disjunctive_add_eq_or[OF zero] by (simp add: flag)
  show "(n OR BINARY_FLAG) AND NOT BINARY_FLAG = n"
    by (rule bit_eqI) (auto simp: bf bit_simps nb)
  show "n AND NOT BINARY_FLAG = n"
    by (rule bit_eqI) (auto simp: bf bit_simps nb)
  have "bit ((n OR BINARY_FLAG) AND BINARY_FLAG) 31"
    by (simp add: bf bit_simps)
  then show "(n OR BINARY_FLAG) AND BINARY_FLAG \<noteq> 0"
    by auto
qed

text \<open>What the length field of a frame means to the reader.\<close>

definition header_of :: "bool \<Rightarrow> nat \<Rightarrow> bytes" where
  "header_of is_binary n = be_bytes 4 (if is_binary then n + 2 ^ 31 else n)"

lemma encode_frame_eq:
  "encode_frame v = Inr f \<longleftrightarrow> length (utf8_encode (dumps v)) \<le> MAX_MESSAGE_SIZE \<and>
     f = header_of False (length (utf8_encode (dumps v))) @ utf8_encode (dumps v)"
  by (auto simp: encode_frame_def Let_def pack_uint_def header_of_def wire_consts)

lemma encode_binary_frame_eq:
  "encode_binary_frame p = Inr f \<longleftrightarrow> length p \<le> MAX_MESSAGE_SIZE \<and> f = header_of True (length p) @ p"
proof (cases "length p \<le> MAX_MESSAGE_SIZE")
  case True
  then have "int (length p) OR BINARY_FLAG = int (length p) + 2 ^ 31"
    by (intro flag_set(1)) (simp_all add: wire_consts)
  then show ?thesis
    using True by (auto simp: encode_binary_frame_def pack_uint_def header_of_def nat_add_distrib
        MAX_MESSAGE_SIZE_def LENGTH_PREFIX_SIZE_def)
qed (simp add: encode_binary_frame_def)

lemma length_header_of [simp]: "length (header_of b n) = 4"
  by (simp add: header_of_def)

lemma read_raw_header:
  assumes "n \<le> MAX_MESSAGE_SIZE"
  shows "read_raw (header_of b n @ s) =
    (if n = 0 then (Inl (Wire ProtocolError), s)
     else sbind (readexactly n) (\<lambda>payload. sret (b, payload)) s)"
proof -
  have lt: "0 \<le> int n" "int n < 2 ^ 31"
    using assms by (simp_all add: wire_consts)
  have "be_nat (header_of b n) = (if b then n + 2 ^ 31 else n)"
    using assms unfolding header_of_def by (intro be_nat_be_bytes) (simp add: wire_consts)
  then have raw: "int (be_nat (header_of b n)) = (if b then int n OR BINARY_FLAG else int n)"
    using flag_set(1)[OF lt] by simp
  have "int (be_nat (header_of b n)) AND BINARY_FLAG \<noteq> 0 \<longleftrightarrow> b"
    "int (be_nat (header_of b n)) AND NOT BINARY_FLAG = int n"
    unfolding raw using flag_set(2-5)[OF lt] by (cases b; simp)+
  then show ?thesis
    using assms by (simp add: read_raw_def Let_def LENGTH_PREFIX_SIZE_def)
qed

lemma read_raw_frame:
  "p \<noteq> [] \<Longrightarrow> length p \<le> MAX_MESSAGE_SIZE \<Longrightarrow> read_raw (header_of b (length p) @ p @ s) = (Inr (b, p), s)"
  by (simp add: read_raw_header)

lemma sbind_read_raw:
  "p \<noteq> [] \<Longrightarrow> length p \<le> MAX_MESSAGE_SIZE \<Longrightarrow> sbind read_raw f (header_of b (length p) @ p @ s) = f (b, p) s"
  by (simp add: sbind_def read_raw_frame)

lemma read_raw_short: "length s < 4 \<Longrightarrow> read_raw s = (Inl (Py IncompleteReadError), [])"
  by (simp add: read_raw_def LENGTH_PREFIX_SIZE_def)

lemma decode_json_dumps [simp]: "wf_json v \<Longrightarrow> decode_json (utf8_encode (dumps v)) = Inr v"
  by (simp add: decode_json_def)

text \<open>A strict prefix of a header and its payload is an incomplete read.\<close>

lemma read_raw_truncated:
  assumes "strict_prefix q (header_of b (length p) @ p)" "p \<noteq> []" "length p \<le> MAX_MESSAGE_SIZE"
  shows "read_raw q = (Inl (Py IncompleteReadError), [])"
proof (cases "length q < 4")
  case False
  from assms(1) obtain z where z: "header_of b (length p) @ p = q @ z" "z \<noteq> []"
    by (auto simp: strict_prefix_def prefix_def)
  then have "q = header_of b (length p) @ drop 4 q"
    using False by (metis append_take_drop_id length_header_of not_less take_append_exact take_take
        append_eq_append_conv_if min.absorb1 take_append diff_is_0_eq' take0 append_Nil2)
  moreover have "length (drop 4 q) < length p"
    using arg_cong[OF z(1), of length] z(2) False by (cases z) simp_all
  ultimately show ?thesis
    using read_raw_header[OF assms(3), of b "drop 4 q"] assms(2)
    by simp
qed (rule read_raw_short)

section \<open>The contract of a framing\<close>

fun put_all :: "('f \<Rightarrow> bytes result) \<Rightarrow> 'f list \<Rightarrow> bytes result" where
  "put_all put [] = Inr []"
| "put_all put (f # fs) = rbind (put f) (\<lambda>b. rbind (put_all put fs) (\<lambda>bs. Inr (b @ bs)))"

fun get_n :: "(bytes, 'f) op \<Rightarrow> nat \<Rightarrow> (bytes, 'f list) op" where
  "get_n get 0 = sret []"
| "get_n get (Suc n) = sbind get (\<lambda>f. sbind (get_n get n) (\<lambda>fs. sret (f # fs)))"

locale framing =
  fixes put :: "'f \<Rightarrow> bytes result"
    and get :: "(bytes, 'f) op"
    and ok :: "'f \<Rightarrow> bool"
  assumes get_put: "ok f \<Longrightarrow> put f = Inr b \<Longrightarrow> get (b @ s) = (Inr f, s)"
    and get_truncated:
      "ok f \<Longrightarrow> put f = Inr b \<Longrightarrow> strict_prefix q b \<Longrightarrow> get q = (Inl (Py IncompleteReadError), [])"
begin

lemma get_n_put_all:
  "put_all put fs = Inr b \<Longrightarrow> list_all ok fs \<Longrightarrow> get_n get (length fs) (b @ s) = (Inr fs, s)"
proof (induction fs arbitrary: b)
  case (Cons f fs)
  then obtain c d where "put f = Inr c" "put_all put fs = Inr d" "b = c @ d" "ok f" "list_all ok fs"
    by (auto simp: rbind_eq_Inr)
  then show ?case
    using Cons.IH[of d] get_put[of f c "d @ s"] by (auto simp: sbind_eq_Inr)
qed simp

lemma put_injective: "ok f \<Longrightarrow> ok g \<Longrightarrow> put f = Inr b \<Longrightarrow> put g = Inr b \<Longrightarrow> f = g"
  using get_put[of f b "[]"] get_put[of g b "[]"] by simp

lemma no_frame_prefix_of_another:
  "ok f \<Longrightarrow> ok g \<Longrightarrow> put f = Inr b \<Longrightarrow> put g = Inr c \<Longrightarrow> \<not> strict_prefix b c"
  using get_put[of f b "[]"] get_truncated[of g c b] by auto

end

definition put_any :: "frame \<Rightarrow> bytes result" where
  "put_any f = (case f of JsonFrame v \<Rightarrow> encode_frame v | BinaryFrame p \<Rightarrow> encode_binary_frame p)"

definition frame_ok :: "frame \<Rightarrow> bool" where
  "frame_ok f = (case f of JsonFrame v \<Rightarrow> wf_json v | BinaryFrame p \<Rightarrow> p \<noteq> [])"

interpretation any: framing put_any read_any_frame frame_ok
proof
  fix f b s q
  assume ok: "frame_ok f" and put: "put_any f = Inr b"
  show "read_any_frame (b @ s) = (Inr f, s)"
    using ok put by (cases f) (simp_all add: put_any_def frame_ok_def read_any_frame_def encode_frame_eq
        encode_binary_frame_eq sbind_read_raw)
  assume q: "strict_prefix q b"
  show "read_any_frame q = (Inl (Py IncompleteReadError), [])"
    using ok put q by (cases f) (auto simp: put_any_def frame_ok_def read_any_frame_def encode_frame_eq
        encode_binary_frame_eq intro!: sbind_Inl read_raw_truncated)
qed

interpretation control: framing encode_frame read_frame wf_json
proof
  fix v b s q
  assume ok: "wf_json v" and put: "encode_frame v = Inr b"
  show "read_frame (b @ s) = (Inr v, s)"
    using ok put by (simp add: read_frame_def encode_frame_eq sbind_read_raw)
  assume q: "strict_prefix q b"
  show "read_frame q = (Inl (Py IncompleteReadError), [])"
    using ok put q by (auto simp: read_frame_def encode_frame_eq intro!: sbind_Inl read_raw_truncated)
qed

section \<open>Lemmas on file chunks\<close>

lemma remove_sub_absent: "p \<noteq> [] \<Longrightarrow> hd p \<notin> set s \<Longrightarrow> remove_sub p s = s"
proof (induction s)
  case (Cons c t)
  then have "\<not> prefix p (c # t)"
    by (cases p) auto
  then show ?case
    using Cons by (subst remove_sub.simps) simp
qed (subst remove_sub.simps, cases p, simp_all)

lemma hex_digit_cases: "n < 16 \<Longrightarrow> hex_digit n \<in> set ''0123456789abcdef''"
proof -
  have "list_all (\<lambda>n. hex_digit n \<in> set ''0123456789abcdef'') [0..<16]"
    by code_simp
  then show "n < 16 \<Longrightarrow> hex_digit n \<in> set ''0123456789abcdef''"
    unfolding list_all_iff set_upt by (meson atLeastLessThan_iff le0)
qed

lemma strip_chars_none: "(\<And>c. c \<in> set s \<Longrightarrow> \<not> P c) \<Longrightarrow> strip_chars P s = s"
proof -
  have none: "(\<And>c. c \<in> set t \<Longrightarrow> \<not> P c) \<Longrightarrow> dropWhile P t = t" for t
    by (cases t) auto
  show "(\<And>c. c \<in> set s \<Longrightarrow> \<not> P c) \<Longrightarrow> strip_chars P s = s"
    using none[of s] none[of "rev s"] by (simp add: strip_chars_def)
qed

lemma to_hex_chars: "set (to_hex b) \<subseteq> set ''0123456789abcdef''"
proof (induction b)
  case (Cons x xs)
  have "unat x div 16 < 16"
    using unat_byte_less[of x] by linarith
  then have "set (hex_byte x) \<subseteq> set ''0123456789abcdef''"
    using hex_digit_cases[of "unat x div 16"] hex_digit_cases[of "unat x mod 16"]
    unfolding hex_byte_def by (simp only: list.set insert_subset mod_less_divisor zero_less_numeral empty_subsetI)
  then show ?case
    using Cons unfolding to_hex_def by (simp only: list.map concat.simps set_append Un_subset_iff)
qed (simp add: to_hex_def)

lemma uuid_bytes_str [codec_simps]:
  assumes "length b = 16"
  shows "uuid_bytes (uuid_str b) = Some b"
proof -
  define h where "h = to_hex b"
  have len: "length h = 32"
    using assms by (simp add: h_def)
  have chars: "set h \<subseteq> set ''0123456789abcdef''"
    unfolding h_def by (rule to_hex_chars)
  have parts: "uuid_str b = take 8 h @ ''-'' @ take 4 (drop 8 h) @ ''-'' @ take 4 (drop 12 h) @ ''-'' @
     take 4 (drop 16 h) @ ''-'' @ drop 20 h"
    by (simp add: uuid_str_def h_def Let_def)
  have sub: "set (uuid_str b) \<subseteq> set ''-0123456789abcdef''"
    using chars set_take_subset set_drop_subset unfolding parts by (fastforce dest: in_set_takeD in_set_dropD)
  then have no: "CHR ''u'' \<notin> set (uuid_str b)" "CHR ''{'' \<notin> set (uuid_str b)" "CHR ''}'' \<notin> set (uuid_str b)"
    by (auto dest: subsetD)
  have strip: "strip_chars (\<lambda>c. c = CHR ''{'' \<or> c = CHR ''}'') (uuid_str b) = uuid_str b"
    using no by (intro strip_chars_none) auto
  have keep: "filter (\<lambda>c. c \<noteq> CHR ''-'') x = x" if "set x \<subseteq> set h" for x
    using that chars by (intro filter_True) (auto dest!: subsetD)
  have "filter (\<lambda>c. c \<noteq> CHR ''-'') (uuid_str b) = take 8 h @ take 4 (drop 8 h) @ take 4 (drop 12 h) @ take 4 (drop 16 h) @ drop 20 h"
    unfolding parts by (simp add: keep set_take_subset set_drop_subset subset_trans[OF set_take_subset set_drop_subset])
  also have "\<dots> = h"
    using take_add[of 8 4 h] take_add[of 12 4 h] take_add[of 16 4 h] append_take_drop_id[of 20 h] by simp
  finally show ?thesis
    using len no(1) strip by (simp add: uuid_bytes_def Let_def remove_sub_absent h_def)
qed

lemma from_hex_length: "from_hex s = Some b \<Longrightarrow> length s = 2 * length b"
  by (induction s arbitrary: b rule: from_hex.induct) (auto split: option.splits)

lemma uuid_bytes_length: "uuid_bytes s = Some b \<Longrightarrow> length b = 16"
  by (auto simp: uuid_bytes_def Let_def split: if_splits dest: from_hex_length)

section \<open>Properties\<close>

text \<open>
  (C30) Any sequence of frames written to a stream (JSON control messages and non-empty binary
  payloads, interleaved) is read back by \<open>read_any_frame\<close> as exactly that sequence, whatever
  follows on the stream; the reader stops at the byte after the last frame.
\<close>

theorem frame_stream_roundtrip:
  assumes "put_all put_any fs = Inr b" and "list_all frame_ok fs"
  shows "get_n read_any_frame (length fs) (b @ rest) = (Inr fs, rest)"
  using assms by (rule any.get_n_put_all)

definition sample_frames :: "frame list" where
  "sample_frames = [JsonFrame (JDict []), BinaryFrame [1, 2, 3], JsonFrame (JBool True)]"

definition sample_stream :: bytes where
  "sample_stream = header_of False 2 @ utf8_encode ''{}'' @ header_of True 3 @ [1, 2, 3] @
     header_of False 4 @ utf8_encode ''true''"

lemma sample_frames_stream: "put_all put_any sample_frames = Inr sample_stream"
proof -
  have "length (utf8_encode ''{}'') = 2" "length (utf8_encode ''true'') = 4"
    by code_simp+
  then have "put_any (JsonFrame (JDict [])) = Inr (header_of False 2 @ utf8_encode ''{}'')"
    "put_any (JsonFrame (JBool True)) = Inr (header_of False 4 @ utf8_encode ''true'')"
    by (simp_all add: put_any_def encode_frame_eq MAX_MESSAGE_SIZE_def)
  moreover have "put_any (BinaryFrame [1, 2, 3]) = Inr (header_of True 3 @ [1, 2, 3])"
    by (simp add: put_any_def encode_binary_frame_eq MAX_MESSAGE_SIZE_def numeral_3_eq_3)
  ultimately show ?thesis
    by (simp add: sample_frames_def sample_stream_def)
qed

theorem frame_stream_roundtrip_witness:
  "get_n read_any_frame (length sample_frames) (sample_stream @ [7]) = (Inr sample_frames, [7])"
  by (rule frame_stream_roundtrip[OF sample_frames_stream]) (simp add: sample_frames_def frame_ok_def)

text \<open>
  A frame that arrives truncated is never mistaken for a shorter frame: every strict prefix of
  a written frame makes the reader report an incomplete read, so no two different frames of a
  stream are confused at a boundary.
\<close>

lemma truncated_frame_is_incomplete:
  assumes "frame_ok f" and "put_any f = Inr b" and "strict_prefix q b"
  shows "read_any_frame q = (Inl (Py IncompleteReadError), [])"
  using assms by (rule any.get_truncated)

lemma read_raw_parts:
  assumes "read_raw s = (Inr (is_binary, payload), rest)"
  shows "0 < length payload \<and> length payload \<le> MAX_MESSAGE_SIZE \<and>
    (\<exists>header. length header = LENGTH_PREFIX_SIZE \<and> s = header @ payload @ rest)"
proof -
  define len where "len = int (be_nat (take 4 s)) AND NOT BINARY_FLAG"
  from assms have "length s \<ge> 4" "len \<noteq> 0" "len \<le> int MAX_MESSAGE_SIZE"
    and p: "payload = take (nat len) (drop 4 s)" "rest = drop (nat len) (drop 4 s)" "nat len \<le> length (drop 4 s)"
    by (auto simp: read_raw_def readexactly_def LENGTH_PREFIX_SIZE_def sbind_eq_Inr Let_def len_def split: if_splits)
  moreover have "0 \<le> len"
    by (simp add: len_def)
  ultimately have "length payload = nat len" "0 < nat len" "nat len \<le> MAX_MESSAGE_SIZE"
    by auto
  moreover have "s = take 4 s @ payload @ rest"
    unfolding p(1,2) by (simp only: append_take_drop_id)
  ultimately show ?thesis
    using \<open>length s \<ge> 4\<close> by (metis LENGTH_PREFIX_SIZE_def length_take min.absorb2)
qed

text \<open>
  Whatever bytes a peer sends, a frame that the reader accepts has a payload of between one
  byte and \<open>MAX_MESSAGE_SIZE\<close> bytes, and exactly the header and that payload are consumed.
\<close>

lemma read_raw_bounds:
  assumes "read_raw s = (Inr (is_binary, payload), rest)"
  shows "0 < length payload \<and> length payload \<le> MAX_MESSAGE_SIZE \<and>
    (\<exists>header. length header = LENGTH_PREFIX_SIZE \<and> s = header @ payload @ rest)"
  using assms by (rule read_raw_parts)

text \<open>
  File chunks round-trip in both directions: an encoded chunk decodes to the canonical
  transfer id and the same sequence number, offset and data; and every payload that decodes is
  the encoding of what it decoded to.
\<close>

lemma file_data_roundtrip:
  "(encode_file_data tid seq off d = Inr p \<longrightarrow>
     (\<exists>b. uuid_bytes tid = Some b \<and>
       decode_file_data p = Inr \<lparr> fd_transfer_id = uuid_str b, fd_sequence = nat seq, fd_offset = nat off, fd_data = d \<rparr>)) \<and>
   (decode_file_data p = Inr r \<longrightarrow>
     encode_file_data (fd_transfer_id r) (int (fd_sequence r)) (int (fd_offset r)) (fd_data r) = Inr p)"
proof (intro conjI impI)
  assume enc: "encode_file_data tid seq off d = Inr p"
  then obtain b where b: "uuid_bytes tid = Some b" and len: "length b = 16"
    and rng: "0 \<le> seq" "seq \<le> 0xFFFFFFFF" "0 \<le> off" "off \<le> 0xFFFFFFFFFFFFFFFF"
    and p: "p = b @ be_bytes 4 (nat seq) @ be_bytes 8 (nat off) @ d"
    by (auto simp: encode_file_data_def uuid_bytes_length split: option.splits if_splits)
  have "nat seq < 256 ^ 4" "nat off < 256 ^ 8"
    using rng by (simp_all add: nat_less_iff)
  then show "\<exists>b. uuid_bytes tid = Some b \<and>
       decode_file_data p = Inr \<lparr> fd_transfer_id = uuid_str b, fd_sequence = nat seq, fd_offset = nat off, fd_data = d \<rparr>"
    using b len by (simp add: p decode_file_data_def HEADER_SIZE_def)
next
  assume dec: "decode_file_data p = Inr r"
  then have len: "28 \<le> length p" and r: "r = \<lparr> fd_transfer_id = uuid_str (take 16 p),
      fd_sequence = be_nat (take 4 (drop 16 p)), fd_offset = be_nat (take 8 (drop 20 p)), fd_data = drop 28 p \<rparr>"
    by (auto simp: decode_file_data_def HEADER_SIZE_def split: if_splits)
  have bounds: "be_nat (take 4 (drop 16 p)) < 256 ^ 4" "be_nat (take 8 (drop 20 p)) < 256 ^ 8"
    using be_nat_less[of "take 4 (drop 16 p)"] be_nat_less[of "take 8 (drop 20 p)"] len by simp_all
  have again: "be_bytes 4 (be_nat (take 4 (drop 16 p))) = take 4 (drop 16 p)"
    "be_bytes 8 (be_nat (take 8 (drop 20 p))) = take 8 (drop 20 p)"
    using be_bytes_be_nat[of "take 4 (drop 16 p)"] be_bytes_be_nat[of "take 8 (drop 20 p)"] len by simp_all
  have "take 16 p @ take 4 (drop 16 p) @ take 8 (drop 20 p) @ drop 28 p = p"
    using take_add[of 16 4 p] take_add[of 20 8 p] append_take_drop_id[of 28 p] by simp
  then show "encode_file_data (fd_transfer_id r) (int (fd_sequence r)) (int (fd_offset r)) (fd_data r) = Inr p"
    using bounds again len by (simp add: r encode_file_data_def uuid_bytes_str)
qed

end
