(* ===== verification/Messages.thy ===== *)
theory Messages
  imports ErrorCodes Wire
begin

text \<open>
  Model of src/core/protocol/messages.py: the factories of every message type, the table of required
  fields and the schema check every received message passes through. A message is a JSON object;
  the clock reading and the fresh message id a factory takes from time.time() and uuid4() are its
  first arguments. The lemmas show that the check accepts exactly what a declarative schema says,
  that it refuses with ProtocolError only, and that what the factories build is accepted.
\<close>

section \<open>Constants and factories\<close>

definition MAX_CHAT_TEXT_SIZE :: nat where "MAX_CHAT_TEXT_SIZE = 64 * 1024"
definition PROTOCOL_VERSION :: int where "PROTOCOL_VERSION = 2"
definition MIN_SUPPORTED_VERSION :: int where "MIN_SUPPORTED_VERSION = 1"

definition make_chat_message :: "pyfloat \<Rightarrow> string \<Rightarrow> string \<Rightarrow> string \<Rightarrow> string \<Rightarrow> json" where
  "make_chat_message now message_id sender_id sender_name txtv = JDict
    [(''type'', JStr ''chat''), (''version'', JInt PROTOCOL_VERSION), (''message_id'', JStr message_id),
     (''sender_id'', JStr sender_id), (''sender_name'', JStr sender_name), (''text'', JStr txtv),
     (''timestamp'', py_float now)]"

definition make_chat_ack :: "pyfloat \<Rightarrow> string \<Rightarrow> json" where
  "make_chat_ack now message_id = JDict
    [(''type'', JStr ''chat_ack''), (''version'', JInt PROTOCOL_VERSION),
     (''message_id'', JStr message_id), (''timestamp'', py_float now)]"

definition make_file_offer :: "pyfloat \<Rightarrow> string \<Rightarrow> string \<Rightarrow> string \<Rightarrow> string \<Rightarrow> int \<Rightarrow> string \<Rightarrow> json" where
  "make_file_offer now transfer_id sender_id sender_name filename size_v checksum = JDict
    [(''type'', JStr ''file_offer''), (''version'', JInt PROTOCOL_VERSION),
     (''transfer_id'', JStr transfer_id), (''sender_id'', JStr sender_id),
     (''sender_name'', JStr sender_name), (''filename'', JStr filename), (''size'', JInt size_v),
     (''checksum'', JStr checksum), (''timestamp'', py_float now)]"

definition make_file_reject :: "pyfloat \<Rightarrow> string \<Rightarrow> json" where
  "make_file_reject now transfer_id = JDict
    [(''type'', JStr ''file_reject''), (''version'', JInt PROTOCOL_VERSION),
     (''transfer_id'', JStr transfer_id), (''timestamp'', py_float now)]"

definition make_file_chunk :: "string \<Rightarrow> int \<Rightarrow> string \<Rightarrow> bool \<Rightarrow> json" where
  "make_file_chunk transfer_id chunk_index data_b64 is_last = JDict
    [(''type'', JStr ''file_chunk''), (''version'', JInt PROTOCOL_VERSION),
     (''transfer_id'', JStr transfer_id), (''chunk_index'', JInt chunk_index),
     (''data'', JStr data_b64), (''is_last'', JBool is_last)]"

definition make_file_done :: "string \<Rightarrow> string \<Rightarrow> json" where
  "make_file_done transfer_id checksum = JDict
    [(''type'', JStr ''file_done''), (''version'', JInt PROTOCOL_VERSION),
     (''transfer_id'', JStr transfer_id), (''checksum'', JStr checksum)]"

definition make_file_complete_ack :: "string \<Rightarrow> bool \<Rightarrow> string \<Rightarrow> json" where
  "make_file_complete_ack transfer_id success detail = JDict
    [(''type'', JStr ''file_complete_ack''), (''version'', JInt PROTOCOL_VERSION),
     (''transfer_id'', JStr transfer_id), (''success'', JBool success), (''detail'', JStr detail)]"

definition make_hello :: "pyfloat \<Rightarrow> string \<Rightarrow> string \<Rightarrow> int \<Rightarrow> json" where
  "make_hello now peer_id sender_name tcp_port = JDict
    [(''type'', JStr ''hello''), (''version'', JInt PROTOCOL_VERSION), (''peer_id'', JStr peer_id),
     (''sender_name'', JStr sender_name), (''tcp_port'', JInt tcp_port), (''timestamp'', py_float now)]"

definition make_hello_ack :: "pyfloat \<Rightarrow> string \<Rightarrow> string \<Rightarrow> int \<Rightarrow> json" where
  "make_hello_ack now peer_id sender_name tcp_port = JDict
    [(''type'', JStr ''hello_ack''), (''version'', JInt PROTOCOL_VERSION), (''peer_id'', JStr peer_id),
     (''sender_name'', JStr sender_name), (''tcp_port'', JInt tcp_port), (''timestamp'', py_float now)]"

definition make_endpoint_update :: "string \<Rightarrow> string \<Rightarrow> string \<Rightarrow> int \<Rightarrow> pyfloat \<Rightarrow> string \<Rightarrow> string \<Rightarrow> json" where
  "make_endpoint_update device_id kind host port timestamp nonce signature = JDict
    [(''type'', JStr ''endpoint_update''), (''version'', JInt PROTOCOL_VERSION),
     (''device_id'', JStr device_id), (''kind'', JStr kind), (''host'', JStr host),
     (''port'', JInt port), (''timestamp'', py_float timestamp), (''nonce'', JStr nonce),
     (''signature'', JStr signature)]"

definition make_handshake_init :: "pyfloat \<Rightarrow> string \<Rightarrow> string \<Rightarrow> string \<Rightarrow> string \<Rightarrow> string \<Rightarrow> json" where
  "make_handshake_init now device_id public_key ephemeral_key nonce sender_name = JDict
    [(''type'', JStr ''handshake_init''), (''version'', JInt PROTOCOL_VERSION),
     (''device_id'', JStr device_id), (''public_key'', JStr public_key),
     (''ephemeral_key'', JStr ephemeral_key), (''nonce'', JStr nonce),
     (''sender_name'', JStr sender_name), (''timestamp'', py_float now)]"

definition make_handshake_response :: "pyfloat \<Rightarrow> string \<Rightarrow> string \<Rightarrow> string \<Rightarrow> string \<Rightarrow> string \<Rightarrow> string \<Rightarrow> json" where
  "make_handshake_response now device_id public_key ephemeral_key nonce sender_name signature = JDict
    [(''type'', JStr ''handshake_response''), (''version'', JInt PROTOCOL_VERSION),
     (''device_id'', JStr device_id), (''public_key'', JStr public_key),
     (''ephemeral_key'', JStr ephemeral_key), (''nonce'', JStr nonce),
     (''sender_name'', JStr sender_name), (''signature'', JStr signature), (''timestamp'', py_float now)]"

definition make_handshake_finish :: "pyfloat \<Rightarrow> string \<Rightarrow> json" where
  "make_handshake_finish now signature = JDict
    [(''type'', JStr ''handshake_finish''), (''version'', JInt PROTOCOL_VERSION),
     (''signature'', JStr signature), (''timestamp'', py_float now)]"

definition make_group_join_request :: "pyfloat \<Rightarrow> string \<Rightarrow> string \<Rightarrow> string \<Rightarrow> string \<Rightarrow> string \<Rightarrow> string list \<Rightarrow> string \<Rightarrow> string option \<Rightarrow> pyfloat option \<Rightarrow> json" where
  "make_group_join_request now request_id group_id device_id device_public_key requested_role requested_permissions signature reason timestamp = JDict
    [(''type'', JStr ''group_join_request''), (''version'', JInt PROTOCOL_VERSION),
     (''request_id'', JStr request_id), (''group_id'', JStr group_id), (''device_id'', JStr device_id),
     (''device_public_key'', JStr device_public_key), (''requested_role'', JStr requested_role),
     (''requested_permissions'', JList (map JStr requested_permissions)),
     (''reason'', json_or_null (map_option JStr reason)),
     (''timestamp'', py_float (case timestamp of None \<Rightarrow> now | Some t \<Rightarrow> t)),
     (''signature'', JStr signature)]"

definition make_group_join_response :: "pyfloat \<Rightarrow> string \<Rightarrow> string \<Rightarrow> string \<Rightarrow> bool \<Rightarrow> string \<Rightarrow> string \<Rightarrow> json option \<Rightarrow> string option \<Rightarrow> pyfloat option \<Rightarrow> json" where
  "make_group_join_response now request_id group_id device_id approved admin_device_id signature certificate reason timestamp = JDict
    [(''type'', JStr ''group_join_response''), (''version'', JInt PROTOCOL_VERSION),
     (''request_id'', JStr request_id), (''group_id'', JStr group_id), (''device_id'', JStr device_id),
     (''approved'', JBool approved), (''admin_device_id'', JStr admin_device_id),
     (''certificate'', json_or_null certificate), (''reason'', json_or_null (map_option JStr reason)),
     (''timestamp'', py_float (case timestamp of None \<Rightarrow> now | Some t \<Rightarrow> t)),
     (''signature'', JStr signature)]"

definition make_group_leave_request :: "pyfloat \<Rightarrow> string \<Rightarrow> string \<Rightarrow> string \<Rightarrow> string \<Rightarrow> string option \<Rightarrow> pyfloat option \<Rightarrow> json" where
  "make_group_leave_request now request_id group_id device_id signature reason timestamp = JDict
    [(''type'', JStr ''group_leave_request''), (''version'', JInt PROTOCOL_VERSION),
     (''request_id'', JStr request_id), (''group_id'', JStr group_id), (''device_id'', JStr device_id),
     (''reason'', json_or_null (map_option JStr reason)),
     (''timestamp'', py_float (case timestamp of None \<Rightarrow> now | Some t \<Rightarrow> t)),
     (''signature'', JStr signature)]"

definition make_group_leave_response :: "pyfloat \<Rightarrow> string \<Rightarrow> string \<Rightarrow> string \<Rightarrow> bool \<Rightarrow> string \<Rightarrow> string \<Rightarrow> json option \<Rightarrow> string option \<Rightarrow> pyfloat option \<Rightarrow> json" where
  "make_group_leave_response now request_id group_id device_id approved admin_device_id signature revocation reason timestamp = JDict
    [(''type'', JStr ''group_leave_response''), (''version'', JInt PROTOCOL_VERSION),
     (''request_id'', JStr request_id), (''group_id'', JStr group_id), (''device_id'', JStr device_id),
     (''approved'', JBool approved), (''admin_device_id'', JStr admin_device_id),
     (''revocation'', json_or_null revocation), (''reason'', json_or_null (map_option JStr reason)),
     (''timestamp'', py_float (case timestamp of None \<Rightarrow> now | Some t \<Rightarrow> t)),
     (''signature'', JStr signature)]"

definition make_group_membership_revoke :: "pyfloat \<Rightarrow> string \<Rightarrow> string \<Rightarrow> string \<Rightarrow> string \<Rightarrow> string \<Rightarrow> string option \<Rightarrow> pyfloat option \<Rightarrow> json" where
  "make_group_membership_revoke now revocation_id group_id device_id revoked_by signature reason timestamp = JDict
    [(''type'', JStr ''group_membership_revoke''), (''version'', JInt PROTOCOL_VERSION),
     (''revocation_id'', JStr revocation_id), (''group_id'', JStr group_id),
     (''device_id'', JStr device_id), (''revoked_by'', JStr revoked_by),
     (''reason'', json_or_null (map_option JStr reason)),
     (''timestamp'', py_float (case timestamp of None \<Rightarrow> now | Some t \<Rightarrow> t)),
     (''signature'', JStr signature)]"

definition make_group_export_request :: "pyfloat \<Rightarrow> string \<Rightarrow> string \<Rightarrow> string \<Rightarrow> string \<Rightarrow> string \<Rightarrow> string \<Rightarrow> string \<Rightarrow> string option \<Rightarrow> pyfloat option \<Rightarrow> json" where
  "make_group_export_request now request_id group_id device_id device_public_key file_id signature action reason timestamp = JDict
    [(''type'', JStr ''group_export_request''), (''version'', JInt PROTOCOL_VERSION),
     (''request_id'', JStr request_id), (''group_id'', JStr group_id), (''device_id'', JStr device_id),
     (''device_public_key'', JStr device_public_key), (''file_id'', JStr file_id),
     (''action'', JStr action), (''reason'', json_or_null (map_option JStr reason)),
     (''timestamp'', py_float (case timestamp of None \<Rightarrow> now | Some t \<Rightarrow> t)),
     (''signature'', JStr signature)]"

definition make_group_export_capability :: "string \<Rightarrow> string \<Rightarrow> string \<Rightarrow> string \<Rightarrow> string \<Rightarrow> pyfloat \<Rightarrow> pyfloat \<Rightarrow> string \<Rightarrow> string \<Rightarrow> string \<Rightarrow> string \<Rightarrow> json" where
  "make_group_export_capability capability_id request_id group_id device_id file_id issued_at expires_at nonce admin_device_id signature action = JDict
    [(''type'', JStr ''group_export_capability''), (''version'', JInt PROTOCOL_VERSION),
     (''capability_id'', JStr capability_id), (''request_id'', JStr request_id),
     (''group_id'', JStr group_id), (''device_id'', JStr device_id), (''file_id'', JStr file_id),
     (''action'', JStr action), (''issued_at'', py_float issued_at),
     (''expires_at'', py_float expires_at), (''nonce'', JStr nonce),
     (''admin_device_id'', JStr admin_device_id), (''signature'', JStr signature)]"

definition make_rendezvous_register :: "pyfloat \<Rightarrow> string \<Rightarrow> json \<Rightarrow> json" where
  "make_rendezvous_register now group_id endpoint_update = JDict
    [(''type'', JStr ''rendezvous_register''), (''version'', JInt PROTOCOL_VERSION),
     (''group_id'', JStr group_id), (''endpoint_update'', endpoint_update),
     (''timestamp'', py_float now)]"

definition make_rendezvous_lookup :: "pyfloat \<Rightarrow> string \<Rightarrow> string \<Rightarrow> json" where
  "make_rendezvous_lookup now group_id target_device_id = JDict
    [(''type'', JStr ''rendezvous_lookup''), (''version'', JInt PROTOCOL_VERSION),
     (''group_id'', JStr group_id), (''target_device_id'', JStr target_device_id),
     (''timestamp'', py_float now)]"

definition make_rendezvous_lookup_response :: "pyfloat \<Rightarrow> string \<Rightarrow> string \<Rightarrow> json option \<Rightarrow> json" where
  "make_rendezvous_lookup_response now group_id target_device_id endpoint_update = JDict
    [(''type'', JStr ''rendezvous_lookup_response''), (''version'', JInt PROTOCOL_VERSION),
     (''group_id'', JStr group_id), (''target_device_id'', JStr target_device_id),
     (''endpoint_update'', json_or_null endpoint_update), (''timestamp'', py_float now)]"

definition make_relay_request :: "pyfloat \<Rightarrow> string \<Rightarrow> string \<Rightarrow> json" where
  "make_relay_request now group_id target_device_id = JDict
    [(''type'', JStr ''relay_request''), (''version'', JInt PROTOCOL_VERSION),
     (''group_id'', JStr group_id), (''target_device_id'', JStr target_device_id),
     (''timestamp'', py_float now)]"

definition make_relay_candidate_query :: "pyfloat \<Rightarrow> string \<Rightarrow> json" where
  "make_relay_candidate_query now group_id = JDict
    [(''type'', JStr ''relay_candidate_query''), (''version'', JInt PROTOCOL_VERSION),
     (''group_id'', JStr group_id), (''timestamp'', py_float now)]"

definition make_relay_candidate_response :: "pyfloat \<Rightarrow> string \<Rightarrow> bool \<Rightarrow> json" where
  "make_relay_candidate_response now group_id available = JDict
    [(''type'', JStr ''relay_candidate_response''), (''version'', JInt PROTOCOL_VERSION),
     (''group_id'', JStr group_id), (''available'', JBool available), (''timestamp'', py_float now)]"

definition make_relay_response :: "pyfloat \<Rightarrow> string \<Rightarrow> string \<Rightarrow> bool \<Rightarrow> json" where
  "make_relay_response now group_id target_device_id accepted = JDict
    [(''type'', JStr ''relay_response''), (''version'', JInt PROTOCOL_VERSION),
     (''group_id'', JStr group_id), (''target_device_id'', JStr target_device_id),
     (''accepted'', JBool accepted), (''timestamp'', py_float now)]"

definition make_file_accept :: "pyfloat \<Rightarrow> string \<Rightarrow> int \<Rightarrow> json result" where
  "make_file_accept now transfer_id resume_offset =
    (if resume_offset < 0 then Inl (Py ValueError)
     else Inr (JDict
       ([(''type'', JStr ''file_accept''), (''version'', JInt PROTOCOL_VERSION),
         (''transfer_id'', JStr transfer_id), (''timestamp'', py_float now)] @
        (if resume_offset \<noteq> 0 then [(''resume_offset'', JInt resume_offset)] else []))))"

definition make_error :: "string \<Rightarrow> string option \<Rightarrow> json option \<Rightarrow> json result" where
  "make_error raw_code message context =
    (case code_of raw_code of
       None \<Rightarrow> Inl (Py ValueError)
     | Some c \<Rightarrow> Inr (build_error c message context PROTOCOL_VERSION))"

section \<open>Schema validation\<close>

definition REQUIRED_FIELDS :: "(string \<times> string list) list" where
  "REQUIRED_FIELDS =
   [(''chat'', [''message_id'', ''sender_id'', ''sender_name'', ''text'']),
    (''chat_ack'', [''message_id'']),
    (''file_offer'', [''transfer_id'', ''filename'', ''size'', ''checksum'']),
    (''file_accept'', [''transfer_id'']),
    (''file_reject'', [''transfer_id'']),
    (''file_chunk'', [''transfer_id'', ''chunk_index'', ''data'', ''is_last'']),
    (''file_done'', [''transfer_id'', ''checksum'']),
    (''file_complete_ack'', [''transfer_id'', ''success'']),
    (''hello'', [''peer_id'', ''sender_name'', ''tcp_port'']),
    (''hello_ack'', [''peer_id'', ''sender_name'', ''tcp_port'']),
    (''handshake_init'', [''device_id'', ''public_key'', ''ephemeral_key'', ''nonce'', ''sender_name'']),
    (''handshake_response'',
      [''device_id'', ''public_key'', ''ephemeral_key'', ''nonce'', ''sender_name'', ''signature'']),
    (''handshake_finish'', [''signature'']),
    (''group_join_request'',
      [''request_id'', ''group_id'', ''device_id'', ''device_public_key'',
       ''requested_role'', ''requested_permissions'', ''timestamp'', ''signature'']),
    (''group_join_response'',
      [''request_id'', ''group_id'', ''device_id'', ''approved'',
       ''admin_device_id'', ''timestamp'', ''signature'']),
    (''group_leave_request'', [''request_id'', ''group_id'', ''device_id'', ''timestamp'', ''signature'']),
    (''group_leave_response'',
      [''request_id'', ''group_id'', ''device_id'', ''approved'',
       ''admin_device_id'', ''timestamp'', ''signature'']),
    (''group_membership_revoke'',
      [''revocation_id'', ''group_id'', ''device_id'', ''revoked_by'', ''timestamp'', ''signature'']),
    (''group_export_request'',
      [''request_id'', ''group_id'', ''device_id'', ''device_public_key'',
       ''file_id'', ''timestamp'', ''signature'']),
    (''group_export_capability'',
      [''capability_id'', ''request_id'', ''group_id'', ''device_id'',
       ''file_id'', ''issued_at'', ''expires_at'', ''nonce'', ''admin_device_id'', ''signature'']),
    (''endpoint_update'',
      [''device_id'', ''kind'', ''host'', ''port'', ''timestamp'', ''nonce'', ''signature'']),
    (''rendezvous_register'', [''group_id'', ''endpoint_update'', ''timestamp'']),
    (''rendezvous_lookup'', [''group_id'', ''target_device_id'', ''timestamp'']),
    (''rendezvous_lookup_response'',
      [''group_id'', ''target_device_id'', ''endpoint_update'', ''timestamp'']),
    (''relay_request'', [''group_id'', ''target_device_id'', ''timestamp'']),
    (''relay_response'', [''group_id'', ''target_device_id'', ''accepted'', ''timestamp'']),
    (''relay_candidate_query'', [''group_id'', ''timestamp'']),
    (''relay_candidate_response'', [''group_id'', ''available'', ''timestamp'']),
    (''error'', [''code'', ''message''])]"

text \<open>The isinstance tests of the check. As in Python, a bool is an int: True is 1.\<close>

fun as_int :: "json \<Rightarrow> int option" where
  "as_int (JInt i) = Some i"
| "as_int (JBool b) = Some (if b then 1 else 0)"
| "as_int _ = None"

fun is_bool :: "json \<Rightarrow> bool" where
  "is_bool (JBool _) = True"
| "is_bool _ = False"

fun is_str :: "json \<Rightarrow> bool" where
  "is_str (JStr _) = True"
| "is_str _ = False"

fun is_nonempty_str :: "json \<Rightarrow> bool" where
  "is_nonempty_str (JStr s) = (s \<noteq> [])"
| "is_nonempty_str _ = False"

fun is_number :: "json \<Rightarrow> bool" where
  "is_number (JInt _) = True"
| "is_number (JBool _) = True"
| "is_number (JFloat _ _) = True"
| "is_number JNaN = True"
| "is_number (JInfinity _) = True"
| "is_number _ = False"

fun is_dict :: "json \<Rightarrow> bool" where
  "is_dict (JDict _) = True"
| "is_dict _ = False"

fun is_str_list :: "json \<Rightarrow> bool" where
  "is_str_list (JList xs) = list_all is_str xs"
| "is_str_list _ = False"

definition is_port :: "json \<Rightarrow> bool" where
  "is_port v = (case as_int v of Some p \<Rightarrow> 0 < p \<and> p < 65536 | None \<Rightarrow> False)"

definition is_nonneg_int :: "json \<Rightarrow> bool" where
  "is_nonneg_int v = (case as_int v of Some i \<Rightarrow> 0 \<le> i | None \<Rightarrow> False)"

definition is_kind :: "json \<Rightarrow> bool" where
  "is_kind v \<longleftrightarrow> v \<in> {JStr ''direct-v4'', JStr ''direct-v6'', JStr ''rendezvous''}"

definition is_chat_text :: "json \<Rightarrow> bool" where
  "is_chat_text v = (case v of JStr s \<Rightarrow> length (utf8_encode s) \<le> MAX_CHAT_TEXT_SIZE | _ \<Rightarrow> False)"

text \<open>Reading \<open>message[f]\<close> raises KeyError check_if the field is absent; the checks raise ProtocolError.\<close>

definition field :: "(string \<times> json) list \<Rightarrow> string \<Rightarrow> (json \<Rightarrow> bool) \<Rightarrow> unit result" where
  "field d f P = (case dict_get d f of
     None \<Rightarrow> Inl (Py KeyError)
   | Some v \<Rightarrow> require (P v) (Wire ProtocolError))"

fun all_checks :: "unit result list \<Rightarrow> unit result" where
  "all_checks [] = Inr ()"
| "all_checks (m # ms) = rbind m (\<lambda>_. all_checks ms)"

definition fields :: "(string \<times> json) list \<Rightarrow> string list \<Rightarrow> (json \<Rightarrow> bool) \<Rightarrow> unit result" where
  "fields d fs P = all_checks (map (\<lambda>f. field d f P) fs)"

text \<open>A check on a field that may be absent: \<open>if f in message\<close> or \<open>message.get(f)\<close>.\<close>

definition field_if_present :: "(string \<times> json) list \<Rightarrow> string \<Rightarrow> (json \<Rightarrow> bool) \<Rightarrow> unit result" where
  "field_if_present d f P =
    (case dict_get d f of None \<Rightarrow> Inr () | Some v \<Rightarrow> require (P v) (Wire ProtocolError))"

definition get_field :: "(string \<times> json) list \<Rightarrow> string \<Rightarrow> (json \<Rightarrow> bool) \<Rightarrow> unit result" where
  "get_field d f P =
    require (P (json_or_null (dict_get d f))) (Wire ProtocolError)"

definition check_if :: "bool \<Rightarrow> unit result \<Rightarrow> unit result" where
  "check_if c m = (if c then m else Inr ())"

definition validate_endpoint_update_dict :: "(string \<times> json) list \<Rightarrow> unit result" where
  "validate_endpoint_update_dict eu = all_checks
    [all_checks (map (\<lambda>f. get_field eu f is_nonempty_str)
       [''device_id'', ''kind'', ''host'', ''nonce'', ''signature'']),
     get_field eu ''port'' is_port,
     get_field eu ''kind'' is_kind,
     get_field eu ''timestamp'' (\<lambda>v. is_number v \<and> \<not> is_bool v)]"

definition endpoint_update_field :: "(string \<times> json) list \<Rightarrow> bool \<Rightarrow> unit result" where
  "endpoint_update_field d nullable =
    (case dict_get d ''endpoint_update'' of
       None \<Rightarrow> Inl (Py KeyError)
     | Some (JDict eu) \<Rightarrow> validate_endpoint_update_dict eu
     | Some v \<Rightarrow> require (nullable \<and> v = JNull) (Wire ProtocolError))"

text \<open>The checks of validate_message after the required fields, in the order of the source.\<close>

definition check_core :: "string \<Rightarrow> (string \<times> json) list \<Rightarrow> unit result" where
  "check_core t d = all_checks
    [check_if (t = ''error'') (rbind (parse_error_message (JDict d)) (\<lambda>_. Inr ())),
     check_if (t = ''chat'') (field d ''text'' is_chat_text),
     check_if (t = ''file_offer'') (all_checks
       [field d ''filename'' is_nonempty_str, field d ''size'' is_nonneg_int,
        field d ''checksum'' is_nonempty_str]),
     check_if (t = ''file_accept'')
       (field_if_present d ''resume_offset'' (\<lambda>v. is_nonneg_int v \<and> \<not> is_bool v)),
     check_if (t = ''file_chunk'') (all_checks
       [field d ''chunk_index'' is_nonneg_int, field d ''data'' is_str]),
     check_if (t = ''hello'' \<or> t = ''hello_ack'') (field d ''tcp_port'' is_port),
     check_if (t = ''endpoint_update'') (all_checks [field d ''port'' is_port, field d ''kind'' is_kind]),
     check_if (t = ''handshake_init'' \<or> t = ''handshake_response'') (all_checks
       [fields d [''device_id'', ''public_key'', ''ephemeral_key'', ''nonce''] is_nonempty_str,
        field d ''sender_name'' is_str]),
     check_if (t = ''handshake_response'' \<or> t = ''handshake_finish'') (field d ''signature'' is_nonempty_str)]"

definition approved_has :: "(string \<times> json) list \<Rightarrow> string \<Rightarrow> unit result" where
  "approved_has d f = check_if (dict_get d ''approved'' = Some (JBool True)) (get_field d f is_dict)"

definition check_group :: "string \<Rightarrow> (string \<times> json) list \<Rightarrow> unit result" where
  "check_group t d = all_checks
    [check_if (prefix ''group_'' t) (all_checks
       [field_if_present d ''group_id'' is_nonempty_str, field_if_present d ''device_id'' is_nonempty_str,
        field_if_present d ''signature'' is_nonempty_str, field_if_present d ''timestamp'' is_number]),
     check_if (t = ''group_join_request'') (all_checks
       [field d ''device_public_key'' is_nonempty_str, field d ''requested_role'' is_nonempty_str,
        field d ''requested_permissions'' is_str_list]),
     check_if (t = ''group_join_response'' \<or> t = ''group_leave_response'') (all_checks
       [field d ''approved'' is_bool, field d ''admin_device_id'' is_nonempty_str,
        check_if (t = ''group_join_response'') (approved_has d ''certificate''),
        check_if (t = ''group_leave_response'') (approved_has d ''revocation'')]),
     check_if (t = ''group_membership_revoke'') (fields d [''revocation_id'', ''revoked_by''] is_nonempty_str),
     check_if (t = ''group_export_request'') (fields d [''device_public_key'', ''file_id''] is_nonempty_str),
     check_if (t = ''group_export_capability'') (all_checks
       [fields d [''capability_id'', ''file_id'', ''nonce'', ''admin_device_id''] is_nonempty_str,
        fields d [''issued_at'', ''expires_at''] (\<lambda>v. is_number v \<and> \<not> is_bool v)])]"

definition check_connectivity :: "string \<Rightarrow> (string \<times> json) list \<Rightarrow> unit result" where
  "check_connectivity t d = all_checks
    [check_if (t = ''rendezvous_register'') (all_checks
       [field d ''group_id'' is_nonempty_str, endpoint_update_field d False]),
     check_if (t = ''rendezvous_lookup'') (fields d [''group_id'', ''target_device_id''] is_nonempty_str),
     check_if (t = ''rendezvous_lookup_response'') (all_checks
       [fields d [''group_id'', ''target_device_id''] is_nonempty_str, endpoint_update_field d True]),
     check_if (t = ''relay_request'') (fields d [''group_id'', ''target_device_id''] is_nonempty_str),
     check_if (t = ''relay_response'') (all_checks
       [fields d [''group_id'', ''target_device_id''] is_nonempty_str, field d ''accepted'' is_bool]),
     check_if (t = ''relay_candidate_query'') (field d ''group_id'' is_nonempty_str),
     check_if (t = ''relay_candidate_response'') (all_checks
       [field d ''group_id'' is_nonempty_str, field d ''available'' is_bool])]"

definition check_version :: "(string \<times> json) list \<Rightarrow> unit result" where
  "check_version d =
    (case as_int (case dict_get d ''version'' of None \<Rightarrow> JInt 1 | Some v \<Rightarrow> v) of
       None \<Rightarrow> Inl (Wire ProtocolError)
     | Some version \<Rightarrow> require (\<not> version < MIN_SUPPORTED_VERSION) (Wire ProtocolError))"

definition validate_message :: "json \<Rightarrow> json result" where
  "validate_message message =
    (case message of
       JDict d \<Rightarrow>
         (case dict_get d ''type'' of
            Some (JStr t) \<Rightarrow>
              if t = [] then Inl (Wire ProtocolError)
              else rbind (check_version d) (\<lambda>_.
                case dict_get REQUIRED_FIELDS t of
                  None \<Rightarrow> Inr message
                | Some required \<Rightarrow>
                    if [f \<leftarrow> required. dict_get d f = None] \<noteq> [] then Inl (Wire ProtocolError)
                    else rbind (check_core t d) (\<lambda>_. rbind (check_group t d) (\<lambda>_.
                         rbind (check_connectivity t d) (\<lambda>_. Inr message))))
          | _ \<Rightarrow> Inl (Wire ProtocolError))
     | _ \<Rightarrow> Inl (Wire ProtocolError))"

section \<open>The declarative schema\<close>

text \<open>What an accepted message of a known type looks like: for each field it must have, the shape of
  its value; then the conditions on optional fields.\<close>

definition has :: "(string \<times> json) list \<Rightarrow> string \<times> (json \<Rightarrow> bool) \<Rightarrow> bool" where
  "has d r = (case dict_get d (fst r) of None \<Rightarrow> False | Some v \<Rightarrow> snd r v)"

definition is_any :: "json \<Rightarrow> bool" where "is_any v = True"

definition is_time :: "json \<Rightarrow> bool" where "is_time v \<longleftrightarrow> is_number v \<and> \<not> is_bool v"

definition is_endpoint_update :: "json \<Rightarrow> bool" where
  "is_endpoint_update v = (case v of
     JDict eu \<Rightarrow> list_all (has eu)
       [(''device_id'', is_nonempty_str), (''kind'', is_kind), (''host'', is_nonempty_str),
        (''port'', is_port), (''timestamp'', is_time), (''nonce'', is_nonempty_str),
        (''signature'', is_nonempty_str)]
   | _ \<Rightarrow> False)"

definition schema :: "(string \<times> (string \<times> (json \<Rightarrow> bool)) list) list" where
  "schema =
   [(''chat'', [(''message_id'', is_any), (''sender_id'', is_any), (''sender_name'', is_any),
                (''text'', is_chat_text)]),
    (''chat_ack'', [(''message_id'', is_any)]),
    (''file_offer'', [(''transfer_id'', is_any), (''filename'', is_nonempty_str),
                      (''size'', is_nonneg_int), (''checksum'', is_nonempty_str)]),
    (''file_accept'', [(''transfer_id'', is_any)]),
    (''file_reject'', [(''transfer_id'', is_any)]),
    (''file_chunk'', [(''transfer_id'', is_any), (''chunk_index'', is_nonneg_int), (''data'', is_str),
                      (''is_last'', is_any)]),
    (''file_done'', [(''transfer_id'', is_any), (''checksum'', is_any)]),
    (''file_complete_ack'', [(''transfer_id'', is_any), (''success'', is_any)]),
    (''hello'', [(''peer_id'', is_any), (''sender_name'', is_any), (''tcp_port'', is_port)]),
    (''hello_ack'', [(''peer_id'', is_any), (''sender_name'', is_any), (''tcp_port'', is_port)]),
    (''handshake_init'',
      [(''device_id'', is_nonempty_str), (''public_key'', is_nonempty_str),
       (''ephemeral_key'', is_nonempty_str), (''nonce'', is_nonempty_str), (''sender_name'', is_str)]),
    (''handshake_response'',
      [(''device_id'', is_nonempty_str), (''public_key'', is_nonempty_str),
       (''ephemeral_key'', is_nonempty_str), (''nonce'', is_nonempty_str), (''sender_name'', is_str),
       (''signature'', is_nonempty_str)]),
    (''handshake_finish'', [(''signature'', is_nonempty_str)]),
    (''group_join_request'',
      [(''request_id'', is_any), (''group_id'', is_nonempty_str), (''device_id'', is_nonempty_str),
       (''device_public_key'', is_nonempty_str), (''requested_role'', is_nonempty_str),
       (''requested_permissions'', is_str_list), (''timestamp'', is_number),
       (''signature'', is_nonempty_str)]),
    (''group_join_response'',
      [(''request_id'', is_any), (''group_id'', is_nonempty_str), (''device_id'', is_nonempty_str),
       (''approved'', is_bool), (''admin_device_id'', is_nonempty_str), (''timestamp'', is_number),
       (''signature'', is_nonempty_str)]),
    (''group_leave_request'',
      [(''request_id'', is_any), (''group_id'', is_nonempty_str), (''device_id'', is_nonempty_str),
       (''timestamp'', is_number), (''signature'', is_nonempty_str)]),
    (''group_leave_response'',
      [(''request_id'', is_any), (''group_id'', is_nonempty_str), (''device_id'', is_nonempty_str),
       (''approved'', is_bool), (''admin_device_id'', is_nonempty_str), (''timestamp'', is_number),
       (''signature'', is_nonempty_str)]),
    (''group_membership_revoke'',
      [(''revocation_id'', is_nonempty_str), (''group_id'', is_nonempty_str),
       (''device_id'', is_nonempty_str), (''revoked_by'', is_nonempty_str), (''timestamp'', is_number),
       (''signature'', is_nonempty_str)]),
    (''group_export_request'',
      [(''request_id'', is_any), (''group_id'', is_nonempty_str), (''device_id'', is_nonempty_str),
       (''device_public_key'', is_nonempty_str), (''file_id'', is_nonempty_str),
       (''timestamp'', is_number), (''signature'', is_nonempty_str)]),
    (''group_export_capability'',
      [(''capability_id'', is_nonempty_str), (''request_id'', is_any), (''group_id'', is_nonempty_str),
       (''device_id'', is_nonempty_str), (''file_id'', is_nonempty_str), (''issued_at'', is_time),
       (''expires_at'', is_time), (''nonce'', is_nonempty_str), (''admin_device_id'', is_nonempty_str),
       (''signature'', is_nonempty_str)]),
    (''endpoint_update'',
      [(''device_id'', is_any), (''kind'', is_kind), (''host'', is_any), (''port'', is_port),
       (''timestamp'', is_any), (''nonce'', is_any), (''signature'', is_any)]),
    (''rendezvous_register'',
      [(''group_id'', is_nonempty_str), (''endpoint_update'', is_endpoint_update), (''timestamp'', is_any)]),
    (''rendezvous_lookup'',
      [(''group_id'', is_nonempty_str), (''target_device_id'', is_nonempty_str), (''timestamp'', is_any)]),
    (''rendezvous_lookup_response'',
      [(''group_id'', is_nonempty_str), (''target_device_id'', is_nonempty_str),
       (''endpoint_update'', \<lambda>v. v = JNull \<or> is_endpoint_update v), (''timestamp'', is_any)]),
    (''relay_request'',
      [(''group_id'', is_nonempty_str), (''target_device_id'', is_nonempty_str), (''timestamp'', is_any)]),
    (''relay_response'',
      [(''group_id'', is_nonempty_str), (''target_device_id'', is_nonempty_str), (''accepted'', is_bool),
       (''timestamp'', is_any)]),
    (''relay_candidate_query'', [(''group_id'', is_nonempty_str), (''timestamp'', is_any)]),
    (''relay_candidate_response'',
      [(''group_id'', is_nonempty_str), (''available'', is_bool), (''timestamp'', is_any)]),
    (''error'', [(''code'', is_nonempty_str), (''message'', is_str)])]"

definition optional_ok :: "string \<Rightarrow> (string \<times> json) list \<Rightarrow> bool" where
  "optional_ok t d \<longleftrightarrow>
    (t = ''file_accept'' \<longrightarrow> dict_get d ''resume_offset'' = None \<or>
       has d (''resume_offset'', \<lambda>v. is_nonneg_int v \<and> \<not> is_bool v)) \<and>
    (t = ''group_join_response'' \<longrightarrow> dict_get d ''approved'' = Some (JBool True) \<longrightarrow> has d (''certificate'', is_dict)) \<and>
    (t = ''group_leave_response'' \<longrightarrow> dict_get d ''approved'' = Some (JBool True) \<longrightarrow> has d (''revocation'', is_dict)) \<and>
    (t = ''group_export_capability'' \<longrightarrow> dict_get d ''timestamp'' = None \<or> has d (''timestamp'', is_number)) \<and>
    (t = ''error'' \<longrightarrow> is_ok (parse_error_message (JDict d)))"

definition conforms :: "json \<Rightarrow> bool" where
  "conforms m = (case m of
     JDict d \<Rightarrow> (case dict_get d ''type'' of
         Some (JStr t) \<Rightarrow> t \<noteq> [] \<and>
           (dict_get d ''version'' = None \<or>
            has d (''version'', \<lambda>v. case as_int v of Some i \<Rightarrow> MIN_SUPPORTED_VERSION \<le> i | None \<Rightarrow> False)) \<and>
           (case dict_get schema t of None \<Rightarrow> True
            | Some rules \<Rightarrow> list_all (has d) rules \<and> optional_ok t d)
       | _ \<Rightarrow> False)
   | _ \<Rightarrow> False)"

section \<open>The check implements the schema\<close>

lemma is_ok_all_checks [simp]: "is_ok (all_checks ms) \<longleftrightarrow> list_all is_ok ms"
  by (induction ms) (auto simp: is_ok_iff rbind_eq_Inr)

declare all_checks.simps [simp del]

lemma is_ok_rbind_unit: "is_ok (rbind m (\<lambda>_. n)) \<longleftrightarrow> is_ok m \<and> is_ok n"
  by (cases m) simp_all

lemma is_ok_field [simp]: "is_ok (field d f P) \<longleftrightarrow> has d (f, P)"
  by (auto simp: field_def has_def require_def split: option.splits)

lemma is_ok_fields [simp]: "is_ok (fields d fs P) \<longleftrightarrow> list_all (\<lambda>f. has d (f, P)) fs"
  by (simp add: fields_def list_all_iff)

lemma is_ok_field_if_present [simp]:
  "is_ok (field_if_present d f P) \<longleftrightarrow> dict_get d f = None \<or> has d (f, P)"
  by (auto simp: field_if_present_def has_def require_def split: option.splits)

lemma is_ok_get_field [simp]: "\<not> P JNull \<Longrightarrow> is_ok (get_field d f P) \<longleftrightarrow> has d (f, P)"
  by (auto simp: get_field_def has_def require_def json_or_null_def split: option.splits)

lemma is_ok_check_if [simp]: "is_ok (check_if c m) \<longleftrightarrow> (c \<longrightarrow> is_ok m)"
  by (simp add: check_if_def)

lemma not_JNull [simp]:
  "\<not> is_port JNull" "\<not> is_kind JNull" "\<not> is_time JNull"
  by (simp_all add: is_port_def is_kind_def is_time_def)

lemma has_kind_nonempty: "has d (f, is_kind) \<Longrightarrow> has d (f, is_nonempty_str)"
  by (auto simp: has_def is_kind_def split: option.splits)

lemma has_any: "has d (f, is_any) \<longleftrightarrow> dict_get d f \<noteq> None"
  by (auto simp: has_def is_any_def split: option.splits)

lemma has_present: "has d (f, P) \<Longrightarrow> dict_get d f \<noteq> None"
  by (auto simp: has_def split: option.splits)

lemma is_ok_endpoint_update_dict [simp]:
  "is_ok (validate_endpoint_update_dict eu) \<longleftrightarrow> is_endpoint_update (JDict eu)"
  using has_kind_nonempty[of eu "''kind''"]
  by (auto simp: validate_endpoint_update_dict_def is_endpoint_update_def simp flip: is_time_def)

lemma is_endpoint_updateD: "is_endpoint_update v \<Longrightarrow> is_dict v"
  by (simp add: is_endpoint_update_def split: json.splits)

lemma is_ok_require [simp]: "is_ok (require c e) \<longleftrightarrow> c"
  by (simp add: require_def)

lemma is_ok_endpoint_update_field [simp]:
  "is_ok (endpoint_update_field d nullable) \<longleftrightarrow>
    has d (''endpoint_update'', \<lambda>v. nullable \<and> v = JNull \<or> is_endpoint_update v)"
  by (auto simp: endpoint_update_field_def has_def split: option.split json.split dest: is_endpoint_updateD)

lemma is_ok_approved_has [simp]:
  "is_ok (approved_has d f) \<longleftrightarrow> (dict_get d ''approved'' = Some (JBool True) \<longrightarrow> has d (f, is_dict))"
  by (simp add: approved_has_def)

lemma is_ok_discard [simp]: "is_ok (rbind m (\<lambda>_. Inr x)) \<longleftrightarrow> is_ok m"
  by (cases m) simp_all

lemma schema_types: "map fst schema = map fst REQUIRED_FIELDS"
  by (simp only: schema_def REQUIRED_FIELDS_def list.map fst_conv)

lemma schema_fields: "map (map fst \<circ> snd) schema = map snd REQUIRED_FIELDS"
  by (simp only: schema_def REQUIRED_FIELDS_def list.map fst_conv snd_conv o_apply)

lemma parsed_error_fields:
  "is_ok (parse_error_message (JDict d)) \<Longrightarrow> has d (''code'', is_nonempty_str) \<and> has d (''message'', is_str)"
  by (auto simp: parse_error_message_def has_def split: option.splits json.splits if_splits)

lemma checks_iff_rules:
  assumes "(t, rules) \<in> set schema"
  shows "list_all (\<lambda>f. dict_get d f \<noteq> None) (map fst rules) \<and>
      is_ok (check_core t d) \<and> is_ok (check_group t d) \<and> is_ok (check_connectivity t d)
    \<longleftrightarrow> list_all (has d) rules \<and> optional_ok t d"
  using assms
  by (simp only: schema_def list.set insert_iff prod.inject empty_iff simp_thms)
    (elim disjE conjE; hypsubst;
     simp add: check_core_def check_group_def check_connectivity_def optional_ok_def is_time_def[symmetric];
     auto simp: has_any is_time_def dest: has_present parsed_error_fields)

lemma required_fields_of:
  "dict_get REQUIRED_FIELDS ''chat'' =
     Some [''message_id'', ''sender_id'', ''sender_name'', ''text'']"
  "dict_get REQUIRED_FIELDS ''chat_ack'' = Some [''message_id'']"
  "dict_get REQUIRED_FIELDS ''file_offer'' =
     Some [''transfer_id'', ''filename'', ''size'', ''checksum'']"
  "dict_get REQUIRED_FIELDS ''file_accept'' = Some [''transfer_id'']"
  "dict_get REQUIRED_FIELDS ''file_reject'' = Some [''transfer_id'']"
  "dict_get REQUIRED_FIELDS ''file_chunk'' =
     Some [''transfer_id'', ''chunk_index'', ''data'', ''is_last'']"
  "dict_get REQUIRED_FIELDS ''file_done'' = Some [''transfer_id'', ''checksum'']"
  "dict_get REQUIRED_FIELDS ''file_complete_ack'' = Some [''transfer_id'', ''success'']"
  "dict_get REQUIRED_FIELDS ''hello'' = Some [''peer_id'', ''sender_name'', ''tcp_port'']"
  "dict_get REQUIRED_FIELDS ''hello_ack'' = Some [''peer_id'', ''sender_name'', ''tcp_port'']"
  "dict_get REQUIRED_FIELDS ''handshake_init'' =
     Some [''device_id'', ''public_key'', ''ephemeral_key'', ''nonce'', ''sender_name'']"
  "dict_get REQUIRED_FIELDS ''handshake_response'' =
     Some [''device_id'', ''public_key'', ''ephemeral_key'', ''nonce'', ''sender_name'', ''signature'']"
  "dict_get REQUIRED_FIELDS ''handshake_finish'' = Some [''signature'']"
  "dict_get REQUIRED_FIELDS ''group_join_request'' =
     Some [''request_id'', ''group_id'', ''device_id'', ''device_public_key'', ''requested_role'', ''requested_permissions'', ''timestamp'', ''signature'']"
  "dict_get REQUIRED_FIELDS ''group_join_response'' =
     Some [''request_id'', ''group_id'', ''device_id'', ''approved'', ''admin_device_id'', ''timestamp'', ''signature'']"
  "dict_get REQUIRED_FIELDS ''group_leave_request'' =
     Some [''request_id'', ''group_id'', ''device_id'', ''timestamp'', ''signature'']"
  "dict_get REQUIRED_FIELDS ''group_leave_response'' =
     Some [''request_id'', ''group_id'', ''device_id'', ''approved'', ''admin_device_id'', ''timestamp'', ''signature'']"
  "dict_get REQUIRED_FIELDS ''group_membership_revoke'' =
     Some [''revocation_id'', ''group_id'', ''device_id'', ''revoked_by'', ''timestamp'', ''signature'']"
  "dict_get REQUIRED_FIELDS ''group_export_request'' =
     Some [''request_id'', ''group_id'', ''device_id'', ''device_public_key'', ''file_id'', ''timestamp'', ''signature'']"
  "dict_get REQUIRED_FIELDS ''group_export_capability'' =
     Some [''capability_id'', ''request_id'', ''group_id'', ''device_id'', ''file_id'', ''issued_at'', ''expires_at'', ''nonce'', ''admin_device_id'', ''signature'']"
  "dict_get REQUIRED_FIELDS ''endpoint_update'' =
     Some [''device_id'', ''kind'', ''host'', ''port'', ''timestamp'', ''nonce'', ''signature'']"
  "dict_get REQUIRED_FIELDS ''rendezvous_register'' = Some [''group_id'', ''endpoint_update'', ''timestamp'']"
  "dict_get REQUIRED_FIELDS ''rendezvous_lookup'' =
     Some [''group_id'', ''target_device_id'', ''timestamp'']"
  "dict_get REQUIRED_FIELDS ''rendezvous_lookup_response'' =
     Some [''group_id'', ''target_device_id'', ''endpoint_update'', ''timestamp'']"
  "dict_get REQUIRED_FIELDS ''relay_request'' =
     Some [''group_id'', ''target_device_id'', ''timestamp'']"
  "dict_get REQUIRED_FIELDS ''relay_response'' =
     Some [''group_id'', ''target_device_id'', ''accepted'', ''timestamp'']"
  "dict_get REQUIRED_FIELDS ''relay_candidate_query'' = Some [''group_id'', ''timestamp'']"
  "dict_get REQUIRED_FIELDS ''relay_candidate_response'' = Some [''group_id'', ''available'', ''timestamp'']"
  "dict_get REQUIRED_FIELDS ''error'' = Some [''code'', ''message'']"
  by (simp_all add: REQUIRED_FIELDS_def)

text \<open>The check refuses with ProtocolError and with nothing else.\<close>

definition refuses_well :: "'a result \<Rightarrow> bool" where
  "refuses_well m = (case m of Inl e \<Rightarrow> e = Wire ProtocolError | Inr _ \<Rightarrow> True)"

lemma refuses_well_simps [simp]:
  "refuses_well (Inr x)" "refuses_well (Inl e) \<longleftrightarrow> e = Wire ProtocolError"
  "refuses_well (require c e) \<longleftrightarrow> c \<or> e = Wire ProtocolError"
  "refuses_well (check_if c n) \<longleftrightarrow> (c \<longrightarrow> refuses_well n)"
  "refuses_well (field_if_present d f P)" "refuses_well (get_field d f P)"
  "refuses_well (field d f P) \<longleftrightarrow> dict_get d f \<noteq> None"
  by (auto simp: refuses_well_def require_def check_if_def field_if_present_def get_field_def field_def
      split: option.splits)

lemma refuses_rbind: "refuses_well m \<Longrightarrow> (\<And>x. m = Inr x \<Longrightarrow> refuses_well (f x)) \<Longrightarrow> refuses_well (rbind m f)"
  by (cases m) auto

lemma refuses_all_checks: "list_all refuses_well ms \<Longrightarrow> refuses_well (all_checks ms)"
  by (induction ms) (auto simp: all_checks.simps intro: refuses_rbind)

lemma refuses_fields: "list_all (\<lambda>f. dict_get d f \<noteq> None) fs \<Longrightarrow> refuses_well (fields d fs P)"
  by (auto simp: fields_def list_all_iff intro!: refuses_all_checks)

lemma refuses_approved_has [simp]: "refuses_well (approved_has d f)"
  by (simp add: approved_has_def)

lemma refuses_endpoint_update [simp]:
  "refuses_well (validate_endpoint_update_dict eu)"
  "dict_get d ''endpoint_update'' \<noteq> None \<Longrightarrow> refuses_well (endpoint_update_field d n)"
proof -
  show dict: "refuses_well (validate_endpoint_update_dict eu)" for eu
    by (auto simp: validate_endpoint_update_dict_def intro!: refuses_all_checks)
  show "refuses_well (endpoint_update_field d n)" if "dict_get d ''endpoint_update'' \<noteq> None"
    using that dict by (auto simp: endpoint_update_field_def split: option.splits json.splits)
qed

lemma refuses_parse_error [simp]: "refuses_well (parse_error_message m)"
  by (simp add: parse_error_message_def split: json.split option.split)

lemma checks_refuse_well:
  assumes "dict_get REQUIRED_FIELDS t = Some req" "list_all (\<lambda>f. dict_get d f \<noteq> None) req"
  shows "refuses_well (check_core t d)" "refuses_well (check_group t d)"
    "refuses_well (check_connectivity t d)"
proof -
  show "refuses_well (check_core t d)"
    unfolding check_core_def
    by (rule refuses_all_checks) (use assms in \<open>auto simp: required_fields_of intro!: refuses_all_checks refuses_rbind refuses_fields\<close>)
  show "refuses_well (check_group t d)"
    unfolding check_group_def
    by (rule refuses_all_checks) (use assms in \<open>auto simp: required_fields_of intro!: refuses_all_checks refuses_rbind refuses_fields\<close>)
  show "refuses_well (check_connectivity t d)"
    unfolding check_connectivity_def
    by (rule refuses_all_checks) (use assms in \<open>auto simp: required_fields_of intro!: refuses_all_checks refuses_rbind refuses_fields\<close>)
qed

lemma schema_required:
  "dict_get REQUIRED_FIELDS t = map_option (map fst) (dict_get schema t)"
proof -
  have gen: "map_of rs t = map_option (map fst) (map_of ss t)"
    if "map fst ss = map fst rs" "map (map fst \<circ> snd) ss = map snd rs"
    for rs :: "(string \<times> string list) list" and ss :: "(string \<times> (string \<times> (json \<Rightarrow> bool)) list) list"
    using that
  proof (induction ss arbitrary: rs)
    case (Cons s ss)
    then show ?case
      by (cases rs) (auto simp: prod_eq_iff)
  qed simp
  show ?thesis
    by (rule gen [OF schema_types schema_fields])
qed

lemma check_version_result:
  "check_version d =
    (if dict_get d ''version'' = None \<or>
        has d (''version'', \<lambda>v. case as_int v of Some i \<Rightarrow> MIN_SUPPORTED_VERSION \<le> i | None \<Rightarrow> False)
     then Inr () else Inl (Wire ProtocolError))"
  by (auto simp: check_version_def has_def require_def MIN_SUPPORTED_VERSION_def split: option.splits)

lemma result_of_check:
  assumes "refuses_well m" "is_ok m \<longleftrightarrow> P"
  shows "m = (if P then Inr () else Inl (Wire ProtocolError))"
  using assms by (cases m) auto

lemma validate_conforms:
  "validate_message m = (if conforms m then Inr m else Inl (Wire ProtocolError))"
proof (cases "\<exists>d t. m = JDict d \<and> dict_get d ''type'' = Some (JStr t) \<and> t \<noteq> []")
  case True
  then obtain d t where m: "m = JDict d" "dict_get d ''type'' = Some (JStr t)" "t \<noteq> []"
    by blast
  show ?thesis
  proof (cases "dict_get schema t")
    case None
    then show ?thesis
      using m by (simp add: validate_message_def conforms_def check_version_result schema_required)
  next
    case (Some rules)
    define checks where "checks =
      rbind (check_core t d) (\<lambda>_. rbind (check_group t d) (\<lambda>_. check_connectivity t d))"
    have req: "dict_get REQUIRED_FIELDS t = Some (map fst rules)"
      using Some by (simp add: schema_required)
    have missing: "[f \<leftarrow> map fst rules. dict_get d f = None] \<noteq> [] \<longleftrightarrow>
        \<not> list_all (\<lambda>f. dict_get d f \<noteq> None) (map fst rules)"
      by (auto simp: filter_empty_conv list_all_iff)
    have iff: "list_all (\<lambda>f. dict_get d f \<noteq> None) (map fst rules) \<and> is_ok checks
        \<longleftrightarrow> list_all (has d) rules \<and> optional_ok t d"
      using checks_iff_rules[OF map_of_SomeD[OF Some], of d]
      by (simp add: checks_def is_ok_rbind_unit)
    have ok: "checks = (if list_all (has d) rules \<and> optional_ok t d then Inr () else Inl (Wire ProtocolError))"
      if "list_all (\<lambda>f. dict_get d f \<noteq> None) (map fst rules)"
      using iff that checks_refuse_well[OF req that]
      by (intro result_of_check) (auto simp: checks_def intro!: refuses_rbind)
    have "validate_message m = rbind (check_version d) (\<lambda>_.
        if \<not> list_all (\<lambda>f. dict_get d f \<noteq> None) (map fst rules) then Inl (Wire ProtocolError)
        else rbind checks (\<lambda>_. Inr m))"
      using m req missing by (simp add: validate_message_def checks_def rbind_assoc)
    then show ?thesis
      using m Some ok iff by (auto simp: conforms_def check_version_result)
  qed
next
  case False
  then show ?thesis
    by (auto simp: validate_message_def conforms_def split: json.splits option.splits)
qed

text \<open>
  (C25) The schema check decides the declarative schema: a message is returned unchanged exactly when
  it conforms (an object with a non-empty string type, a supported version, and for a known type
  every required field with the shape the handlers rely on), and every other value, whatever its
  JSON shape, is refused with ProtocolError. No KeyError or TypeError can escape.
\<close>

theorem validate_message_spec:
  "validate_message m = (if conforms m then Inr m else Inl (Wire ProtocolError))"
  by (rule validate_conforms)

section \<open>The factories build accepted messages\<close>

text \<open>The messages the factories build, with the ranges of their arguments.\<close>

inductive built :: "json \<Rightarrow> bool" where
  "length (utf8_encode txtv) \<le> MAX_CHAT_TEXT_SIZE \<Longrightarrow> built (make_chat_message now mid sid sname txtv)"
| "built (make_chat_ack now mid)"
| "fname \<noteq> [] \<Longrightarrow> 0 \<le> n \<Longrightarrow> checksum \<noteq> [] \<Longrightarrow> built (make_file_offer now tid sid sname fname n checksum)"
| "make_file_accept now tid off = Inr m \<Longrightarrow> built m"
| "built (make_file_reject now tid)"
| "0 \<le> i \<Longrightarrow> built (make_file_chunk tid i data is_last)"
| "built (make_file_done tid checksum)"
| "built (make_file_complete_ack tid success detail)"
| "make_error code_name msg ctx = Inr m \<Longrightarrow> built m"
| "0 < port \<Longrightarrow> port < 65536 \<Longrightarrow> built (make_hello now pid sname port)"
| "0 < port \<Longrightarrow> port < 65536 \<Longrightarrow> built (make_hello_ack now pid sname port)"
| "0 < port \<Longrightarrow> port < 65536 \<Longrightarrow> is_kind (JStr kind) \<Longrightarrow>
     built (make_endpoint_update dev kind host port ts nonce sig)"
| "dev \<noteq> [] \<Longrightarrow> pk \<noteq> [] \<Longrightarrow> ek \<noteq> [] \<Longrightarrow> nonce \<noteq> [] \<Longrightarrow> built (make_handshake_init now dev pk ek nonce sname)"
| "dev \<noteq> [] \<Longrightarrow> pk \<noteq> [] \<Longrightarrow> ek \<noteq> [] \<Longrightarrow> nonce \<noteq> [] \<Longrightarrow> sig \<noteq> [] \<Longrightarrow>
     built (make_handshake_response now dev pk ek nonce sname sig)"
| "sig \<noteq> [] \<Longrightarrow> built (make_handshake_finish now sig)"
| "gid \<noteq> [] \<Longrightarrow> dev \<noteq> [] \<Longrightarrow> pk \<noteq> [] \<Longrightarrow> role \<noteq> [] \<Longrightarrow> sig \<noteq> [] \<Longrightarrow>
     built (make_group_join_request now rid gid dev pk role perms sig reason ts)"
| "gid \<noteq> [] \<Longrightarrow> dev \<noteq> [] \<Longrightarrow> admin \<noteq> [] \<Longrightarrow> sig \<noteq> [] \<Longrightarrow> (approved \<longrightarrow> is_dict (json_or_null cert)) \<Longrightarrow>
     built (make_group_join_response now rid gid dev approved admin sig cert reason ts)"
| "gid \<noteq> [] \<Longrightarrow> dev \<noteq> [] \<Longrightarrow> sig \<noteq> [] \<Longrightarrow> built (make_group_leave_request now rid gid dev sig reason ts)"
| "gid \<noteq> [] \<Longrightarrow> dev \<noteq> [] \<Longrightarrow> admin \<noteq> [] \<Longrightarrow> sig \<noteq> [] \<Longrightarrow> (approved \<longrightarrow> is_dict (json_or_null cert)) \<Longrightarrow>
     built (make_group_leave_response now rid gid dev approved admin sig cert reason ts)"
| "rid \<noteq> [] \<Longrightarrow> gid \<noteq> [] \<Longrightarrow> dev \<noteq> [] \<Longrightarrow> by_dev \<noteq> [] \<Longrightarrow> sig \<noteq> [] \<Longrightarrow>
     built (make_group_membership_revoke now rid gid dev by_dev sig reason ts)"
| "gid \<noteq> [] \<Longrightarrow> dev \<noteq> [] \<Longrightarrow> pk \<noteq> [] \<Longrightarrow> file \<noteq> [] \<Longrightarrow> sig \<noteq> [] \<Longrightarrow>
     built (make_group_export_request now rid gid dev pk file sig action reason ts)"
| "cid \<noteq> [] \<Longrightarrow> gid \<noteq> [] \<Longrightarrow> dev \<noteq> [] \<Longrightarrow> file \<noteq> [] \<Longrightarrow> nonce \<noteq> [] \<Longrightarrow> admin \<noteq> [] \<Longrightarrow> sig \<noteq> [] \<Longrightarrow>
     built (make_group_export_capability cid rid gid dev file t0 t1 nonce admin sig action)"
| "gid \<noteq> [] \<Longrightarrow> is_endpoint_update eu \<Longrightarrow> built (make_rendezvous_register now gid eu)"
| "gid \<noteq> [] \<Longrightarrow> dev \<noteq> [] \<Longrightarrow> built (make_rendezvous_lookup now gid dev)"
| "gid \<noteq> [] \<Longrightarrow> dev \<noteq> [] \<Longrightarrow> eu = None \<or> is_endpoint_update (the eu) \<Longrightarrow>
     built (make_rendezvous_lookup_response now gid dev eu)"
| "gid \<noteq> [] \<Longrightarrow> dev \<noteq> [] \<Longrightarrow> built (make_relay_request now gid dev)"
| "gid \<noteq> [] \<Longrightarrow> built (make_relay_candidate_query now gid)"
| "gid \<noteq> [] \<Longrightarrow> built (make_relay_candidate_response now gid available)"
| "gid \<noteq> [] \<Longrightarrow> dev \<noteq> [] \<Longrightarrow> built (make_relay_response now gid dev accepted)"

lemmas make_defs = make_chat_message_def make_chat_ack_def make_file_offer_def make_file_accept_def
  make_file_reject_def make_file_chunk_def make_file_done_def make_file_complete_ack_def
  make_hello_def make_hello_ack_def make_endpoint_update_def make_handshake_init_def
  make_handshake_response_def make_handshake_finish_def make_group_join_request_def
  make_group_join_response_def make_group_leave_request_def make_group_leave_response_def
  make_group_membership_revoke_def make_group_export_request_def make_group_export_capability_def
  make_rendezvous_register_def make_rendezvous_lookup_def make_rendezvous_lookup_response_def
  make_relay_request_def make_relay_candidate_query_def make_relay_candidate_response_def
  make_relay_response_def

lemma conforms_JDict:
  assumes "dict_get d ''type'' = Some (JStr t)" "t \<noteq> []" "dict_get d ''version'' = Some (JInt PROTOCOL_VERSION)"
    "dict_get schema t = Some rules" "list_all (has d) rules" "optional_ok t d"
  shows "conforms (JDict d)"
  using assms by (simp add: conforms_def has_def PROTOCOL_VERSION_def MIN_SUPPORTED_VERSION_def)

lemma has_Cons: "has ((k, v) # d) (f, P) = (if f = k then P v else has d (f, P))"
  by (simp add: has_def)

lemma make_error_conforms: "make_error code_name msg ctx = Inr m \<Longrightarrow> conforms m"
proof -
  assume "make_error code_name msg ctx = Inr m"
  then obtain c where m: "m = build_error c msg ctx PROTOCOL_VERSION"
    by (auto simp: make_error_def split: option.splits)
  then obtain d where d: "m = JDict d" "dict_get d ''type'' = Some (JStr ''error'')"
      "dict_get d ''version'' = Some (JInt PROTOCOL_VERSION)"
    by (auto simp: build_error_def Let_def)
  have ok: "is_ok (parse_error_message (JDict d))"
    using parse_build_error[of c msg ctx PROTOCOL_VERSION] d m by (auto simp: is_ok_iff)
  have opt: "optional_ok ''error'' d"
    using ok by (simp add: optional_ok_def)
  have rules: "dict_get schema ''error'' = Some [(''code'', is_nonempty_str), (''message'', is_str)]"
    by (simp add: schema_def)
  have "list_all (has d) [(''code'', is_nonempty_str), (''message'', is_str)]"
    using parsed_error_fields[OF ok] by simp
  from conforms_JDict[OF d(2) _ d(3) rules this opt] show ?thesis
    by (simp add: d)
qed

lemmas shape_defs = is_any_def is_chat_text_def is_nonneg_int_def is_port_def is_time_def
  json_or_null_def py_float_def list.pred_map

lemma schema_lookup_response:
  "dict_get schema ''rendezvous_lookup_response'' = Some
     [(''group_id'', is_nonempty_str), (''target_device_id'', is_nonempty_str),
      (''endpoint_update'', \<lambda>v. v = JNull \<or> is_endpoint_update v), (''timestamp'', is_any)]"
  by (simp add: schema_def)

lemma built_conforms: "built m \<Longrightarrow> conforms m"
proof (induction rule: built.induct)
  case (9 code_name msg ctx m)
  then show ?case
    by (rule make_error_conforms)
next
  case (4 now tid off m)
  then show ?case
    by (auto simp: make_file_accept_def split: if_splits intro!: conforms_JDict)
      (simp_all add: schema_def has_Cons optional_ok_def, simp_all add: shape_defs has_Cons)
next
  case (25 gid dev eu now)
  then show ?case
    unfolding make_defs
    by (cases eu; intro conforms_JDict[where t = "''rendezvous_lookup_response''", OF _ _ _ schema_lookup_response])
      (simp_all add: has_Cons shape_defs optional_ok_def)
qed (simp_all only: make_defs,
    (rule conforms_JDict, simp, simp, simp, simp add: schema_def,
     simp add: has_Cons shape_defs list_all_iff, simp add: optional_ok_def has_Cons)+)

text \<open>
  (C26) What the factories build goes through the wire and the receiver's schema check unchanged: for
  every message type, a message built from arguments in their documented ranges, framed, followed by
  any further bytes, is read back, validated and returned as the same message, and exactly its own
  bytes are consumed.
\<close>

theorem built_messages_are_accepted:
  assumes "built m" "wf_json m" "encode_frame m = Inr bs"
  shows "sbind read_frame (\<lambda>v. slift (validate_message v)) (bs @ rest) = (Inr m, rest)"
proof -
  have "read_frame (bs @ rest) = (Inr m, rest)"
    using assms(2,3) by (rule control.get_put)
  moreover have "validate_message m = Inr m"
    using built_conforms[OF assms(1)] by (simp add: validate_conforms)
  ultimately show ?thesis
    by (simp add: sbind_Inr)
qed

definition sample_offer :: json where
  "sample_offer = make_file_offer (15, 1) ''t1'' ''d1'' ''Ann'' ''a.txt'' 7 ''00ff''"

theorem built_messages_are_accepted_witness:
  "\<exists>bs. encode_frame sample_offer = Inr bs \<and>
     sbind read_frame (\<lambda>v. slift (validate_message v)) (bs @ [1, 2]) = (Inr sample_offer, [1, 2])"
proof -
  have ok: "built sample_offer"
    unfolding sample_offer_def by (rule built.intros) simp_all
  have wf: "wf_json sample_offer"
    by (simp add: sample_offer_def make_file_offer_def py_float_def)
  have "length (utf8_encode (dumps sample_offer)) \<le> 1000"
    by code_simp
  then obtain bs where bs: "encode_frame sample_offer = Inr bs"
    by (auto simp: encode_frame_def Let_def MAX_MESSAGE_SIZE_def pack_uint_def LENGTH_PREFIX_SIZE_def split: if_splits)
  from built_messages_are_accepted[OF ok wf this, of "[1, 2]"] bs show ?thesis
    by blast
qed

end
