(* ===== verification/TransferSession.thy ===== *)
theory TransferSession
  imports Partial Messages Lifecycle
begin

text \<open>
  Model of src/core/transfer/session.py: the two sides of a file transfer. The state holds the
  transfers of both directions, the file system, the frames sent and the completions reported; every
  message handler, the answer of the user to an offer, a lost connection and each stretch of the
  sending task between two suspensions is one step on it. What the program learns from outside (the
  peer behind a connection, the clock, the free space, whether a system call or a send succeeds) is
  the record \<open>env\<close> of that step (\<open>sync_ok\<close> is for flush, seek and truncate of an open file). A handler runs to its end before the next step, except that
  an offer waits for the user between \<open>handle_offer\<close> and \<open>answer_offer\<close>. Transfer ids are
  strings, the sizes of offers integers; removing a file succeeds.
\<close>

section \<open>State\<close>

definition CHUNK_SIZE :: nat where "CHUNK_SIZE = DEFAULT_CHUNK_SIZE"
definition ERROR_REPORT_CAP :: nat where "ERROR_REPORT_CAP = 256"

record env =
  get_peer_device_id :: "string \<Rightarrow> string option"
  my_device_id :: string
  my_name :: string
  env_now :: pyfloat
  free_space :: "int option"
  realpath :: "string \<Rightarrow> string"
  windows :: bool
  send_ok :: "string \<Rightarrow> bool"
  meta_ok :: bool
  write_ok :: bool
  sync_ok :: bool
  reopen_ok :: bool
  open_ok :: bool
  replace_ok :: bool

record outgoing_transfer =
  ot_transfer_id :: string
  ot_addr_key :: string
  ot_filepath :: string
  ot_filename :: string
  ot_size :: int
  ot_checksum :: string
  ot_peer_device_id :: string
  ot_resume_offset :: nat
  ot_state :: outgoing_state
  ot_ack_event :: bool
  ot_ack_success :: bool

record incoming_transfer =
  it_transfer_id :: string
  it_addr_key :: string
  it_filename :: string
  it_size :: int
  it_expected_checksum :: string
  it_sender_name :: string
  it_dest_path :: string
  it_part_path :: string
  it_peer_device_id :: string
  it_bytes_received :: nat
  it_expected_chunk_index :: nat
  it_resume_offset :: nat
  it_last_committed :: nat
  it_first_chunk_received :: bool
  it_state :: incoming_state
  it_file_handle :: handle

text \<open>The local variables of an offer's handler while the user is asked.\<close>

record pending_offer =
  po_transfer_id :: string
  po_addr_key :: string
  po_filename :: string
  po_size :: int
  po_checksum :: string
  po_sender_name :: string
  po_dest_path :: string
  po_part_path :: string
  po_peer_device_id :: "string option"
  po_resume_offset :: nat
  po_partial :: bool

datatype out_frame = Message json | Binary bytes

record notice =
  nt_sent :: bool
  nt_transfer_id :: string
  nt_success :: bool
  nt_filepath :: "string option"
  nt_error :: "string option"

text \<open>Where the sending task of a transfer is suspended.\<close>

datatype phase = Starting | Streaming handle nat nat | SendFailed | DoneSent | AwaitingAck

text \<open>\<open>transfers\<close> holds every outgoing transfer object, which its task keeps using after
  \<open>outgoing\<close>, the ids of the dictionary \<open>_outgoing\<close>, has lost it.\<close>

record xfer =
  transfers :: "(string, outgoing_transfer) dict"
  outgoing :: "string list"
  incoming :: "(string, incoming_transfer) dict"
  offer_resume_offsets :: "(string, nat) dict"
  reported_errors :: "(string \<times> error_code \<times> string) list"
  pending :: "pending_offer list"
  tasks :: "(string, phase) dict"
  files :: fs
  outbox :: "(string \<times> out_frame) list"
  notices :: "notice list"

definition new_session :: "time \<Rightarrow> string \<Rightarrow> fs \<Rightarrow> xfer" where
  "new_session now dir f =
    \<lparr> transfers = [], outgoing = [], incoming = [], offer_resume_offsets = [], reported_errors = [],
      pending = [], tasks = [], files = sweep_expired now dir f, outbox = [], notices = [] \<rparr>"

definition session_resume_offset_for :: "string \<Rightarrow> xfer \<Rightarrow> nat" where
  "session_resume_offset_for tid s =
    (case dict_get (incoming s) tid of
       Some t \<Rightarrow> it_resume_offset t
     | None \<Rightarrow> (case dict_get (offer_resume_offsets s) tid of Some n \<Rightarrow> n | None \<Rightarrow> 0))"

definition is_valid_resume_offset :: "json \<Rightarrow> int \<Rightarrow> bool" where
  "is_valid_resume_offset offset file_size =
    (case offset of JInt i \<Rightarrow> 0 \<le> i \<and> i \<le> file_size \<and> i mod int CHUNK_SIZE = 0 | _ \<Rightarrow> False)"

section \<open>Sending and reporting\<close>

definition transmit :: "env \<Rightarrow> string \<Rightarrow> out_frame \<Rightarrow> xfer \<Rightarrow> xfer" where
  "transmit e addr m s = (if send_ok e addr then s\<lparr> outbox := outbox s @ [(addr, m)] \<rparr> else s)"

definition report_once :: "env \<Rightarrow> string \<Rightarrow> error_code \<Rightarrow> string \<Rightarrow> xfer \<Rightarrow> xfer" where
  "report_once e addr c tid s =
    (if tid = [] \<or> length tid > 128 then s
     else if (addr, c, tid) \<in> set (reported_errors s) then s
     else (let r = reported_errors s @ [(addr, c, tid)];
               s' = s\<lparr> reported_errors := drop (length r - ERROR_REPORT_CAP) r \<rparr>
           in case make_error (code_value c) None (Some (JDict [(''transfer_id'', JStr tid)])) of
                Inl _ \<Rightarrow> s'
              | Inr m \<Rightarrow> transmit e addr (Message m) s'))"

definition notify_complete :: "bool \<Rightarrow> string \<Rightarrow> bool \<Rightarrow> string option \<Rightarrow> string option \<Rightarrow> xfer \<Rightarrow> xfer" where
  "notify_complete was_sent tid success filepath err s = s\<lparr> notices := notices s @
     [\<lparr> nt_sent = was_sent, nt_transfer_id = tid, nt_success = success, nt_filepath = filepath, nt_error = err \<rparr>] \<rparr>"

text \<open>\<open>transfer.peer_device_id or getter(addr_key)\<close>: an empty string counts as none.\<close>

fun non_empty :: "string option \<Rightarrow> string option" where
  "non_empty (Some (c # cs)) = Some (c # cs)"
| "non_empty _ = None"

definition or_else :: "string option \<Rightarrow> string option \<Rightarrow> string option" where
  "or_else a b = (case non_empty a of Some x \<Rightarrow> Some x | None \<Rightarrow> non_empty b)"

definition record_meta :: "env \<Rightarrow> string option \<Rightarrow> nat \<Rightarrow> incoming_transfer \<Rightarrow> fs \<Rightarrow> fs" where
  "record_meta e dev committed t f =
    (case dev of
       None \<Rightarrow> f
     | Some d \<Rightarrow> snd (write_meta (meta_ok e) (env_now e) (it_part_path t) d (it_filename t) (it_size t)
         (it_expected_checksum t) (basename (it_dest_path t)) (int committed) f))"

definition drop_incoming :: "string \<Rightarrow> xfer \<Rightarrow> xfer" where
  "drop_incoming tid s = s\<lparr> incoming := dict_pop tid (incoming s),
     offer_resume_offsets := dict_pop tid (offer_resume_offsets s) \<rparr>"

definition whole_chunks :: "incoming_transfer \<Rightarrow> nat" where
  "whole_chunks t = it_bytes_received t - it_bytes_received t mod CHUNK_SIZE"

text \<open>A resolved transfer whose partial is kept: the sidecar records the whole chunks on disk.\<close>

definition keep_partial :: "env \<Rightarrow> string option \<Rightarrow> incoming_transfer \<Rightarrow> fs \<Rightarrow> fs" where
  "keep_partial e dev t f =
    (if it_part_path t \<noteq> [] \<and> exists_file f (it_part_path t) then record_meta e dev (whole_chunks t) t f else f)"

definition fail_incoming :: "env \<Rightarrow> incoming_transfer \<Rightarrow> string \<Rightarrow> xfer \<Rightarrow> xfer" where
  "fail_incoming e t err s =
    (case in_to (it_state t) I_FAILED of
       Inl _ \<Rightarrow> s
     | Inr _ \<Rightarrow>
         (let s1 = drop_incoming (it_transfer_id t) s;
              dev = or_else (Some (it_peer_device_id t)) (get_peer_device_id e (it_addr_key t))
          in notify_complete False (it_transfer_id t) False None (Some err)
               (s1\<lparr> files := keep_partial e dev t (files s1) \<rparr>)))"

definition fail_outgoing :: "string \<Rightarrow> string \<Rightarrow> xfer \<Rightarrow> xfer" where
  "fail_outgoing tid err s =
    (case dict_get (transfers s) tid of
       None \<Rightarrow> s
     | Some t \<Rightarrow>
         (case out_to (ot_state t) O_FAILED of
            Inl _ \<Rightarrow> s
          | Inr st \<Rightarrow> notify_complete True tid False None (Some err)
              (s\<lparr> outgoing := removeAll tid (outgoing s),
                 transfers := dict_set tid (t\<lparr> ot_state := st, ot_ack_success := False, ot_ack_event := True \<rparr>)
                   (transfers s) \<rparr>)))"

definition lost_incoming :: "env \<Rightarrow> string option \<Rightarrow> incoming_transfer \<Rightarrow> xfer \<Rightarrow> xfer" where
  "lost_incoming e peer t s =
    (let s1 = drop_incoming (it_transfer_id t) s;
         dev = or_else (Some (it_peer_device_id t)) (or_else peer (get_peer_device_id e (it_addr_key t)))
     in notify_complete False (it_transfer_id t) False None (Some ''connection_lost'')
          (s1\<lparr> files := keep_partial e dev t (files s1) \<rparr>))"

definition out_with_addr :: "string \<Rightarrow> xfer \<Rightarrow> string list" where
  "out_with_addr addr s = [tid \<leftarrow> outgoing s. map_option ot_addr_key (dict_get (transfers s) tid) = Some addr]"

definition handle_connection_lost :: "env \<Rightarrow> string \<Rightarrow> string option \<Rightarrow> xfer \<Rightarrow> xfer" where
  "handle_connection_lost e addr peer s =
    (let s1 = fold (lost_incoming e peer) [t \<leftarrow> map snd (incoming s). it_addr_key t = addr] s
     in fold (\<lambda>tid. fail_outgoing tid ''connection_lost'') (out_with_addr addr s1) s1)"

definition on_peer_disconnected :: "env \<Rightarrow> string \<Rightarrow> string option \<Rightarrow> xfer \<Rightarrow> xfer" where
  "on_peer_disconnected e addr peer s = (if addr = [] then s else handle_connection_lost e addr peer s)"

text \<open>The entry of the dictionary \<open>_outgoing\<close>.\<close>

definition find_outgoing :: "string \<Rightarrow> xfer \<Rightarrow> outgoing_transfer option" where
  "find_outgoing tid s = (if tid \<in> set (outgoing s) then dict_get (transfers s) tid else None)"

definition handle_error :: "env \<Rightarrow> string \<Rightarrow> json \<Rightarrow> xfer \<Rightarrow> xfer" where
  "handle_error e addr message s =
    (case parse_error_message message of
       Inl _ \<Rightarrow> s
     | Inr info \<Rightarrow>
         (case dict_get (ei_context info) ''transfer_id'' of
            Some (JStr tid) \<Rightarrow>
              (let out = (case find_outgoing tid s of
                     Some t \<Rightarrow> if ot_addr_key t = addr then Some t else None | None \<Rightarrow> None);
                   inc = (case dict_get (incoming s) tid of
                     Some t \<Rightarrow> if it_addr_key t = addr then Some t else None | None \<Rightarrow> None);
                   err = lower (code_value (ei_code info))
               in if out = None \<and> inc = None then s
                  else if \<not> ei_terminal info then s
                  else if out \<noteq> None then fail_outgoing tid err s
                  else (case inc of Some t \<Rightarrow> fail_incoming e t err s | None \<Rightarrow> s))
          | _ \<Rightarrow> s))"

section \<open>The sending side\<close>

definition offer_file :: "env \<Rightarrow> string \<Rightarrow> string \<Rightarrow> string \<Rightarrow> (xfer, string option) op" where
  "offer_file e tid addr filepath s =
    (case read_file (files s) filepath of
       None \<Rightarrow> (Inl (Py OSError), s)
     | Some b \<Rightarrow>
         (let t = \<lparr> ot_transfer_id = tid, ot_addr_key = addr, ot_filepath = filepath,
                    ot_filename = basename filepath, ot_size = int (length b), ot_checksum = sha256_file b,
                    ot_peer_device_id = (case get_peer_device_id e addr of None \<Rightarrow> [] | Some d \<Rightarrow> d),
                    ot_resume_offset = 0, ot_state = O_OFFERED, ot_ack_event = False, ot_ack_success = False \<rparr>;
              offer = make_file_offer (env_now e) tid (my_device_id e) (my_name e) (ot_filename t) (ot_size t)
                        (ot_checksum t)
          in if \<not> send_ok e addr then (Inr None, s)
             else (case out_to (ot_state t) O_WAITING_FOR_ACCEPT of
                 Inl x \<Rightarrow> (Inl x, transmit e addr (Message offer) s)
               | Inr st \<Rightarrow> (Inr (Some tid), (transmit e addr (Message offer) s)
                   \<lparr> transfers := dict_set tid (t\<lparr> ot_state := st \<rparr>) (transfers s),
                     outgoing := (if tid \<in> set (outgoing s) then outgoing s else outgoing s @ [tid]) \<rparr>))))"

definition accepted_offset :: "json option \<Rightarrow> int \<Rightarrow> nat" where
  "accepted_offset resume_offset file_size =
    (let v = (case resume_offset of None \<Rightarrow> JInt 0 | Some v \<Rightarrow> v)
     in case v of JInt i \<Rightarrow> if is_valid_resume_offset v file_size then nat i else 0 | _ \<Rightarrow> 0)"

definition handle_accept :: "env \<Rightarrow> string \<Rightarrow> string \<Rightarrow> json option \<Rightarrow> xfer \<Rightarrow> xfer" where
  "handle_accept e addr tid resume_offset s =
    (case find_outgoing tid s of
       None \<Rightarrow> report_once e addr TRANSFER_NOT_FOUND tid s
     | Some t \<Rightarrow>
         (let t1 = t\<lparr> ot_resume_offset := accepted_offset resume_offset (ot_size t) \<rparr>
          in case out_to (ot_state t1) O_SENDING of
               Inl _ \<Rightarrow> s\<lparr> transfers := dict_set tid t1 (transfers s) \<rparr>
             | Inr st \<Rightarrow> s\<lparr> transfers := dict_set tid (t1\<lparr> ot_state := st \<rparr>) (transfers s),
                           tasks := dict_set tid Starting (tasks s) \<rparr>))"

definition handle_reject :: "string \<Rightarrow> xfer \<Rightarrow> xfer" where
  "handle_reject tid s =
    (case find_outgoing tid s of
       None \<Rightarrow> s
     | Some t \<Rightarrow>
         (case out_to (ot_state t) O_REJECTED of
            Inl _ \<Rightarrow> s
          | Inr st \<Rightarrow> notify_complete True tid False None (Some ''rejected'')
              (s\<lparr> transfers := dict_set tid (t\<lparr> ot_state := st \<rparr>) (transfers s),
                 outgoing := removeAll tid (outgoing s) \<rparr>)))"

text \<open>The end of the task: its \<open>finally\<close> clause.\<close>

definition finish_task :: "string \<Rightarrow> xfer \<Rightarrow> xfer" where
  "finish_task tid s = s\<lparr> outgoing := removeAll tid (outgoing s), tasks := dict_pop tid (tasks s) \<rparr>"

definition set_phase :: "string \<Rightarrow> phase \<Rightarrow> xfer \<Rightarrow> xfer" where
  "set_phase tid p s = s\<lparr> tasks := dict_set tid p (tasks s) \<rparr>"

text \<open>Opening the file: the file may be gone (OSError, caught) or shorter than the offset (ValueError,
  which is not).\<close>

definition start_stream :: "string \<Rightarrow> outgoing_transfer \<Rightarrow> (xfer, unit) op" where
  "start_stream tid t s =
    (case dict_get (names (files s)) (ot_filepath t) of
       None \<Rightarrow> (Inr (), finish_task tid (fail_outgoing tid ''os_error'' s))
     | Some h \<Rightarrow>
         if ot_resume_offset t > length (data_of (files s) h) then (Inl (Py ValueError), finish_task tid s)
         else (Inr (), set_phase tid (Streaming h (ot_resume_offset t div CHUNK_SIZE) (ot_resume_offset t)) s))"

definition stream_chunk :: "env \<Rightarrow> string \<Rightarrow> outgoing_transfer \<Rightarrow> handle \<Rightarrow> nat \<Rightarrow> nat \<Rightarrow> (xfer, unit) op" where
  "stream_chunk e tid t h i offset s =
    (let chunk = take CHUNK_SIZE (drop offset (data_of (files s) h))
     in if ot_state t \<noteq> O_SENDING then (Inr (), finish_task tid s)
        else if chunk = [] then
          (Inr (), set_phase tid DoneSent
             (transmit e (ot_addr_key t) (Message (make_file_done tid (ot_checksum t))) s))
        else (case encode_file_data tid (int i) (int offset) chunk of
            Inl x \<Rightarrow> (Inl x, finish_task tid s)
          | Inr payload \<Rightarrow>
              if send_ok e (ot_addr_key t)
              then (Inr (), set_phase tid (Streaming h (Suc i) (offset + length chunk))
                     (transmit e (ot_addr_key t) (Binary payload) s))
              else (Inr (), set_phase tid SendFailed s)))"

definition await_ack :: "string \<Rightarrow> outgoing_transfer \<Rightarrow> xfer \<Rightarrow> xfer" where
  "await_ack tid t s =
    (case out_to (ot_state t) O_WAITING_FOR_COMPLETE_ACK of
       Inl _ \<Rightarrow> finish_task tid s
     | Inr st \<Rightarrow> set_phase tid AwaitingAck (s\<lparr> transfers := dict_set tid (t\<lparr> ot_state := st \<rparr>) (transfers s) \<rparr>))"

text \<open>The wait ends when the event is set or the time is up.\<close>

definition conclude :: "bool \<Rightarrow> string \<Rightarrow> outgoing_transfer \<Rightarrow> xfer \<Rightarrow> xfer" where
  "conclude timed_out tid t s =
    (if \<not> ot_ack_event t \<and> \<not> timed_out then s
     else (let success = (ot_ack_event t \<and> ot_ack_success t)
           in if ot_state t \<noteq> O_WAITING_FOR_COMPLETE_ACK then finish_task tid s
              else finish_task tid (notify_complete True tid success (if success then Some (ot_filepath t) else None)
                (if success then None else Some ''ack_failed_or_timeout'')
                (s\<lparr> transfers := dict_set tid (t\<lparr> ot_state := (if success then O_COMPLETED else O_FAILED) \<rparr>)
                     (transfers s) \<rparr>))))"

definition send_chunks :: "env \<Rightarrow> bool \<Rightarrow> string \<Rightarrow> (xfer, unit) op" where
  "send_chunks e timed_out tid s =
    (case (dict_get (tasks s) tid, dict_get (transfers s) tid) of
       (Some Starting, Some t) \<Rightarrow> start_stream tid t s
     | (Some (Streaming h i offset), Some t) \<Rightarrow> stream_chunk e tid t h i offset s
     | (Some SendFailed, Some t) \<Rightarrow> (Inr (), finish_task tid (fail_outgoing tid ''send_failed'' s))
     | (Some DoneSent, Some t) \<Rightarrow> (Inr (), await_ack tid t s)
     | (Some AwaitingAck, Some t) \<Rightarrow> (Inr (), conclude timed_out tid t s)
     | _ \<Rightarrow> (Inr (), s))"

fun py_bool :: "json option \<Rightarrow> bool" where
  "py_bool None = False"
| "py_bool (Some JNull) = False"
| "py_bool (Some (JBool b)) = b"
| "py_bool (Some (JInt i)) = (i \<noteq> 0)"
| "py_bool (Some (JFloat m k)) = (m \<noteq> 0)"
| "py_bool (Some (JStr t)) = (t \<noteq> [])"
| "py_bool (Some (JList xs)) = (xs \<noteq> [])"
| "py_bool (Some (JDict d)) = (d \<noteq> [])"
| "py_bool (Some _) = True"

definition handle_complete_ack :: "string \<Rightarrow> json option \<Rightarrow> xfer \<Rightarrow> xfer" where
  "handle_complete_ack tid success s =
    (case find_outgoing tid s of
       None \<Rightarrow> s
     | Some t \<Rightarrow>
         if ot_state t = O_WAITING_FOR_COMPLETE_ACK then
           s\<lparr> transfers := dict_set tid (t\<lparr> ot_ack_success := py_bool success, ot_ack_event := True \<rparr>) (transfers s) \<rparr>
         else if ot_state t = O_SENDING \<and> \<not> py_bool success then fail_outgoing tid ''peer_aborted'' s
         else s)"

section \<open>The receiving side\<close>

definition reject :: "env \<Rightarrow> string \<Rightarrow> string \<Rightarrow> xfer \<Rightarrow> xfer" where
  "reject e addr tid s = transmit e addr (Message (make_file_reject (env_now e) tid)) s"

text \<open>What the search for a partial download of the offered file comes to.\<close>

datatype choice = Busy | Fresh fs | Resume partial_info nat

definition choose_partial :: "env \<Rightarrow> string \<Rightarrow> string option \<Rightarrow> string \<Rightarrow> int \<Rightarrow> string \<Rightarrow> xfer \<Rightarrow> choice" where
  "choose_partial e dir peer filename sz checksum s =
    (case peer of
       None \<Rightarrow> Fresh (files s)
     | Some dev \<Rightarrow>
         (case find_resumable (files s) dir dev filename sz checksum of
            None \<Rightarrow> Fresh (files s)
          | Some info \<Rightarrow>
              if list_ex (\<lambda>t. it_part_path t = pi_part_path info) (map snd (incoming s)) then Busy
              else (let offset = resume_offset_for (files s) info CHUNK_SIZE
                    in if offset > 0 \<and>
                          (case resolve_safe_dest_path (realpath e) (windows e) (files s) True (pi_dest_name info) dir of
                             Inl _ \<Rightarrow> False
                           | Inr dest \<Rightarrow> basename dest = pi_dest_name info)
                       then Resume info offset
                       else Fresh (discard (pi_part_path info) (files s)))))"

definition is_busy :: "string \<Rightarrow> string \<Rightarrow> xfer \<Rightarrow> bool" where
  "is_busy part dest s \<longleftrightarrow> list_ex (\<lambda>t. it_part_path t = part \<or> it_dest_path t = dest) (map snd (incoming s))"

definition ask :: "env \<Rightarrow> pending_offer \<Rightarrow> xfer \<Rightarrow> xfer" where
  "ask e p s =
    (if is_busy (po_part_path p) (po_dest_path p) s then reject e (po_addr_key p) (po_transfer_id p) s
     else if \<not> check_disk_space (free_space e) (po_size p - int (po_resume_offset p))
       then reject e (po_addr_key p) (po_transfer_id p) s
     else s\<lparr> offer_resume_offsets := dict_set (po_transfer_id p) (po_resume_offset p) (offer_resume_offsets s),
            pending := pending s @ [p] \<rparr>)"

text \<open>\<open>handle_offer\<close> up to the question to the user.\<close>

definition place_offer :: "env \<Rightarrow> string \<Rightarrow> pending_offer \<Rightarrow> xfer \<Rightarrow> xfer" where
  "place_offer e dir p s =
    (case choose_partial e dir (po_peer_device_id p) (po_filename p) (po_size p) (po_checksum p) s of
       Busy \<Rightarrow> reject e (po_addr_key p) (po_transfer_id p) s
     | Resume info offset \<Rightarrow>
         ask e (p\<lparr> po_dest_path := path_join dir (pi_dest_name info), po_part_path := pi_part_path info,
                   po_resume_offset := offset, po_partial := True \<rparr>) s
     | Fresh f \<Rightarrow>
         (case resolve_safe_dest_path (realpath e) (windows e) f False (po_filename p) dir of
            Inl _ \<Rightarrow> reject e (po_addr_key p) (po_transfer_id p) (s\<lparr> files := f \<rparr>)
          | Inr dest \<Rightarrow> ask e (p\<lparr> po_dest_path := dest, po_part_path := get_part_path dest \<rparr>) (s\<lparr> files := f \<rparr>)))"

definition handle_offer ::
  "env \<Rightarrow> string \<Rightarrow> string \<Rightarrow> string \<Rightarrow> string \<Rightarrow> int \<Rightarrow> string \<Rightarrow> string option \<Rightarrow> xfer \<Rightarrow> xfer" where
  "handle_offer e dir addr tid filename sz checksum sender s0 =
    (let s = s0\<lparr> files := sweep_expired (time_of (env_now e)) dir (files s0) \<rparr>
     in if sz > MAX_INCOMING_FILE_SIZE then reject e addr tid s
        else if list_ex (\<lambda>t. it_addr_key t = addr \<and> it_filename t = filename) (map snd (incoming s))
          then reject e addr tid s
        else place_offer e dir
          \<lparr> po_transfer_id = tid, po_addr_key = addr, po_filename = filename, po_size = sz,
            po_checksum = checksum, po_sender_name = (case non_empty sender of Some n \<Rightarrow> n | None \<Rightarrow> ''peer''),
            po_dest_path = [], po_part_path = [], po_peer_device_id = non_empty (get_peer_device_id e addr),
            po_resume_offset = 0, po_partial = False \<rparr> s)"

text \<open>The rest of it, once the user has answered: the partial is reopened and cut to the offset, or the
  download starts over.\<close>

definition start_over :: "env \<Rightarrow> string \<Rightarrow> fs \<Rightarrow> (handle \<times> fs) result \<times> fs" where
  "start_over e part f =
    (let f1 = discard part f
     in if open_ok e then (Inr (open_wb part f1), f1) else (Inl (Py OSError), f1))"

definition open_part :: "env \<Rightarrow> string \<Rightarrow> nat \<Rightarrow> fs \<Rightarrow> (nat \<times> handle \<times> fs) result \<times> fs" where
  "open_part e part resume f =
    (case (if resume > 0 \<and> reopen_ok e then dict_get (names f) part else None) of
       Some h \<Rightarrow> (let f1 = truncate_data h resume f in (Inr (resume, h, f1), f1))
     | None \<Rightarrow> (case start_over e part f of
           (Inl x, f1) \<Rightarrow> (Inl x, f1)
         | (Inr (h, f2), f1) \<Rightarrow> (Inr (0, h, f2), f2)))"

definition new_incoming :: "pending_offer \<Rightarrow> nat \<Rightarrow> handle \<Rightarrow> incoming_transfer" where
  "new_incoming p resume h =
    \<lparr> it_transfer_id = po_transfer_id p, it_addr_key = po_addr_key p, it_filename = po_filename p,
      it_size = po_size p, it_expected_checksum = po_checksum p, it_sender_name = po_sender_name p,
      it_dest_path = po_dest_path p, it_part_path = po_part_path p,
      it_peer_device_id = (case po_peer_device_id p of None \<Rightarrow> [] | Some d \<Rightarrow> d),
      it_bytes_received = resume, it_expected_chunk_index = resume div CHUNK_SIZE,
      it_resume_offset = resume, it_last_committed = resume, it_first_chunk_received = (resume = 0),
      it_state = I_OFFERED, it_file_handle = h \<rparr>"

definition accept_offer :: "env \<Rightarrow> pending_offer \<Rightarrow> (xfer, unit) op" where
  "accept_offer e p s =
    (case open_part e (po_part_path p) (po_resume_offset p) (files s) of
       (Inl x, f) \<Rightarrow> (Inl x, s\<lparr> files := f \<rparr>)
     | (Inr (resume, h, f), _) \<Rightarrow>
         (let t = new_incoming p resume h;
              s1 = s\<lparr> files := record_meta e (po_peer_device_id p) resume t f \<rparr>
          in case in_to (it_state t) I_ACCEPTED of
               Inl x \<Rightarrow> (Inl x, s1)
             | Inr st \<Rightarrow>
                 (let s2 = s1\<lparr> incoming := dict_set (po_transfer_id p) (t\<lparr> it_state := st \<rparr>) (incoming s1) \<rparr>
                  in case make_file_accept (env_now e) (po_transfer_id p) (int resume) of
                       Inl x \<Rightarrow> (Inl x, s2)
                     | Inr m \<Rightarrow> (Inr (), transmit e (po_addr_key p) (Message m) s2))))"

definition decline_offer :: "env \<Rightarrow> pending_offer \<Rightarrow> xfer \<Rightarrow> xfer" where
  "decline_offer e p s = reject e (po_addr_key p) (po_transfer_id p)
     (if po_partial p then s\<lparr> files := discard (po_part_path p) (files s) \<rparr> else s)"

definition answer_offer :: "env \<Rightarrow> nat \<Rightarrow> bool \<Rightarrow> (xfer, unit) op" where
  "answer_offer e i accept s =
    (if i \<ge> length (pending s) then (Inr (), s)
     else (let p = pending s ! i;
               s1 = s\<lparr> pending := take i (pending s) @ drop (Suc i) (pending s),
                      offer_resume_offsets := dict_pop (po_transfer_id p) (offer_resume_offsets s) \<rparr>
           in if accept then accept_offer e p s1 else (Inr (), decline_offer e p s1)))"

definition abort_incoming :: "env \<Rightarrow> incoming_transfer \<Rightarrow> string \<Rightarrow> xfer \<Rightarrow> xfer" where
  "abort_incoming e t reason s =
    (let s1 = drop_incoming (it_transfer_id t) s;
         f1 = (if it_part_path t \<noteq> [] then discard (it_part_path t) (files s1) else files s1);
         f2 = (if exists_file f1 (it_dest_path t) then remove_file (it_dest_path t) f1 else f1)
     in notify_complete False (it_transfer_id t) False None (Some reason)
          (transmit e (it_addr_key t) (Message (make_file_complete_ack (it_transfer_id t) False reason))
             (s1\<lparr> files := f2 \<rparr>)))"

definition checkpoint_incoming :: "env \<Rightarrow> incoming_transfer \<Rightarrow> fs \<Rightarrow> incoming_transfer \<times> fs" where
  "checkpoint_incoming e t f =
    (case or_else (Some (it_peer_device_id t)) (get_peer_device_id e (it_addr_key t)) of
       None \<Rightarrow> (t, f)
     | Some dev \<Rightarrow>
         if it_part_path t = [] \<or> \<not> sync_ok e then (t, f)
         else (t\<lparr> it_last_committed := whole_chunks t \<rparr>, record_meta e (Some dev) (whole_chunks t) t f))"

definition set_incoming :: "incoming_transfer \<Rightarrow> xfer \<Rightarrow> xfer" where
  "set_incoming t s = s\<lparr> incoming := dict_set (it_transfer_id t) t (incoming s) \<rparr>"

definition take_chunk :: "env \<Rightarrow> nat \<Rightarrow> nat \<Rightarrow> bytes \<Rightarrow> incoming_transfer \<Rightarrow> xfer \<Rightarrow> xfer" where
  "take_chunk e i offset data t s =
    (if i \<noteq> it_expected_chunk_index t \<or> offset \<noteq> it_bytes_received t
       then abort_incoming e t ''out-of-order chunk'' s
     else if int (it_bytes_received t + length data) > it_size t
       then abort_incoming e t ''declared size exceeded'' s
     else if \<not> write_ok e then abort_incoming e t ''disk_full'' s
     else (let f = write_data (it_file_handle t) (it_bytes_received t) data (files s);
               t1 = t\<lparr> it_bytes_received := it_bytes_received t + length data,
                      it_expected_chunk_index := Suc (it_expected_chunk_index t) \<rparr>;
               (t2, f2) = (if it_bytes_received t1 \<ge> it_last_committed t1 + COMMIT_INTERVAL
                           then checkpoint_incoming e t1 f else (t1, f))
           in set_incoming t2 (s\<lparr> files := f2 \<rparr>)))"

text \<open>The sender started from the beginning although an offset was asked for.\<close>

definition restart_incoming :: "env \<Rightarrow> incoming_transfer \<Rightarrow> fs \<Rightarrow> incoming_transfer \<times> fs" where
  "restart_incoming e t f =
    (let t1 = t\<lparr> it_bytes_received := 0, it_expected_chunk_index := 0, it_resume_offset := 0, it_last_committed := 0 \<rparr>
     in (t1, record_meta e (non_empty (get_peer_device_id e (it_addr_key t))) 0 t1
          (truncate_data (it_file_handle t) 0 f)))"

definition handle_chunk :: "env \<Rightarrow> string \<Rightarrow> string \<Rightarrow> nat \<Rightarrow> nat \<Rightarrow> bytes \<Rightarrow> xfer \<Rightarrow> xfer" where
  "handle_chunk e addr tid i offset data s =
    (case dict_get (incoming s) tid of
       None \<Rightarrow> report_once e addr TRANSFER_NOT_FOUND tid s
     | Some t0 \<Rightarrow>
         (case in_to (it_state t0) I_RECEIVING of
            Inl _ \<Rightarrow> report_once e addr INVALID_STATE tid s
          | Inr st \<Rightarrow>
              (let t = t0\<lparr> it_state := st, it_first_chunk_received := True \<rparr>
               in if it_resume_offset t0 > 0 \<and> \<not> it_first_chunk_received t0 \<and>
                     \<not> (i = it_expected_chunk_index t0 \<and> offset = it_bytes_received t0) then
                    (if i = 0 \<and> offset = 0 then
                       (if \<not> sync_ok e then abort_incoming e t ''os_error'' s
                        else (let (t1, f) = restart_incoming e t (files s)
                              in take_chunk e i offset data t1 (s\<lparr> files := f \<rparr>)))
                     else abort_incoming e t ''out-of-order chunk'' s)
                  else take_chunk e i offset data t s)))"

definition verifying :: "incoming_state \<Rightarrow> incoming_state result" where
  "verifying st = rbind (if st = I_ACCEPTED then in_to st I_RECEIVING else Inr st) (\<lambda>st. in_to st I_VERIFYING)"

definition handle_done :: "env \<Rightarrow> string \<Rightarrow> string \<Rightarrow> (xfer, unit) op" where
  "handle_done e addr tid s =
    (case dict_get (incoming s) tid of
       None \<Rightarrow> (Inr (), report_once e addr TRANSFER_NOT_FOUND tid s)
     | Some t \<Rightarrow>
         (case verifying (it_state t) of
            Inl _ \<Rightarrow> (Inr (), report_once e addr INVALID_STATE tid s)
          | Inr _ \<Rightarrow>
              (let s1 = drop_incoming (it_transfer_id t) s
               in case read_file (files s1) (it_part_path t) of
                    None \<Rightarrow> (Inl (Py OSError), s1)
                  | Some b \<Rightarrow>
                      (let success = (sha256_file b = it_expected_checksum t \<and> int (it_bytes_received t) = it_size t);
                           s2 = transmit e addr (Message (make_file_complete_ack (it_transfer_id t) success
                                  (if success then [] else ''checksum mismatch''))) s1
                       in if \<not> success then
                            (Inr (), notify_complete False (it_transfer_id t) False None (Some ''checksum_mismatch'')
                               (s2\<lparr> files := discard (it_part_path t) (files s2) \<rparr>))
                          else if \<not> replace_ok e then (Inl (Py OSError), s2)
                          else (case finalize_part_file (it_part_path t) (it_dest_path t) (files s2) of
                              (Inl x, f) \<Rightarrow> (Inl x, s2\<lparr> files := f \<rparr>)
                            | (Inr _, f) \<Rightarrow>
                                (Inr (), notify_complete False (it_transfer_id t) True (Some (it_dest_path t)) None
                                   (s2\<lparr> files := discard (it_part_path t) f \<rparr>)))))))"

section \<open>Steps\<close>

text \<open>The messages of \<open>_dispatch\<close> with the fields the handlers read, and the other occasions on
  which the session acts.\<close>

datatype event =
    FileOffer string string string int string "string option"
  | FileAccept string string "json option"
  | FileReject string string
  | FileData string string nat nat bytes
  | FileDone string string
  | FileCompleteAck string string "json option"
  | ErrorFrame string json
  | UserAnswer nat bool
  | OfferFile string string string
  | TaskStep bool string
  | Disconnected string "string option"

text \<open>The event a received frame is: the table of \<open>_dispatch\<close>, with the binary frames decoded by the
  connection's read loop. None is a frame of another kind or with fields of other types.\<close>

definition message_event :: "string \<Rightarrow> (string \<times> json) list \<Rightarrow> event option" where
  "message_event addr d =
    (case (dict_get d ''type'', dict_get d ''transfer_id'') of
       (Some (JStr t), Some (JStr tid)) \<Rightarrow>
         if t = ''error'' then Some (ErrorFrame addr (JDict d))
         else if t = ''file_offer'' then
           (case (dict_get d ''filename'', dict_get d ''size'', dict_get d ''checksum'') of
              (Some (JStr filename), Some (JInt sz), Some (JStr checksum)) \<Rightarrow>
                Some (FileOffer addr tid filename sz checksum
                  (case dict_get d ''sender_name'' of Some (JStr n) \<Rightarrow> Some n | _ \<Rightarrow> None))
            | _ \<Rightarrow> None)
         else if t = ''file_accept'' then Some (FileAccept addr tid (dict_get d ''resume_offset''))
         else if t = ''file_reject'' then Some (FileReject addr tid)
         else if t = ''file_done'' then Some (FileDone addr tid)
         else if t = ''file_complete_ack'' then Some (FileCompleteAck addr tid (dict_get d ''success''))
         else None
     | (Some (JStr t), _) \<Rightarrow> if t = ''error'' then Some (ErrorFrame addr (JDict d)) else None
     | _ \<Rightarrow> None)"

fun event_of :: "string \<Rightarrow> out_frame \<Rightarrow> event option" where
  "event_of addr (Message (JDict d)) = message_event addr d"
| "event_of addr (Message _) = None"
| "event_of addr (Binary p) =
    (case decode_file_data p of
       Inl _ \<Rightarrow> None
     | Inr d \<Rightarrow> Some (FileData addr (fd_transfer_id d) (fd_sequence d) (fd_offset d) (fd_data d)))"

fun dispatch :: "env \<Rightarrow> string \<Rightarrow> event \<Rightarrow> (xfer, unit) op" where
  "dispatch e dir (FileOffer addr tid filename sz checksum sender) s =
     (Inr (), handle_offer e dir addr tid filename sz checksum sender s)"
| "dispatch e dir (FileAccept addr tid resume_offset) s = (Inr (), handle_accept e addr tid resume_offset s)"
| "dispatch e dir (FileReject addr tid) s = (Inr (), handle_reject tid s)"
| "dispatch e dir (FileData addr tid i offset data) s = (Inr (), handle_chunk e addr tid i offset data s)"
| "dispatch e dir (FileDone addr tid) s = handle_done e addr tid s"
| "dispatch e dir (FileCompleteAck addr tid success) s = (Inr (), handle_complete_ack tid success s)"
| "dispatch e dir (ErrorFrame addr message) s = (Inr (), handle_error e addr message s)"
| "dispatch e dir (UserAnswer i accept) s = answer_offer e i accept s"
| "dispatch e dir (OfferFile tid addr filepath) s = sbind (offer_file e tid addr filepath) (\<lambda>_. sret ()) s"
| "dispatch e dir (TaskStep timed_out tid) s = send_chunks e timed_out tid s"
| "dispatch e dir (Disconnected addr peer) s = (Inr (), on_peer_disconnected e addr peer s)"

text \<open>A run: each event with the environment it meets. An exception ends its handler, not the session.\<close>

definition run :: "string \<Rightarrow> (env \<times> event) list \<Rightarrow> xfer \<Rightarrow> xfer" where
  "run dir es s = fold (\<lambda>(e, ev) s. snd (dispatch e dir ev s)) es s"

end
