(* ===== verification/TransferSafety.thy ===== *)
theory TransferSafety
  imports TransferSession
begin

text \<open>
  The receiving side against arbitrary peers. Whatever messages arrive, in whatever order and from
  whatever connection, a session touches no file outside its downloads directory, keeps its transfers
  well formed, and reports a download as complete only when the file it delivers has the offered
  checksum.
\<close>

section \<open>The effect on the files\<close>

text \<open>A file system in which no file has names both inside and outside the directory, and the open
  handles \<open>H\<close> reach files inside it only.\<close>

definition fs_ok :: "string \<Rightarrow> handle set \<Rightarrow> fs \<Rightarrow> bool" where
  "fs_ok dir H f \<longleftrightarrow> (\<forall>p h. dict_get (names f) p = Some h \<longrightarrow> h < next_handle f) \<and>
    (\<forall>p q h. dict_get (names f) p = Some h \<longrightarrow> dict_get (names f) q = Some h \<longrightarrow> inside dir p \<longrightarrow> inside dir q) \<and>
    (\<forall>h\<in>H. h < next_handle f \<and> (\<forall>p. dict_get (names f) p = Some h \<longrightarrow> inside dir p))"

text \<open>A change that keeps this and every file outside the directory.\<close>

definition safe :: "string \<Rightarrow> handle set \<Rightarrow> fs \<Rightarrow> fs \<Rightarrow> bool" where
  "safe dir H f g \<longleftrightarrow> (fs_ok dir H f \<longrightarrow>
     fs_ok dir H g \<and> next_handle f \<le> next_handle g \<and> (\<forall>p. \<not> inside dir p \<longrightarrow> read_file g p = read_file f p))"

lemma safe_refl [simp]: "safe dir H f f"
  by (simp add: safe_def)

lemma safe_trans [trans]: "safe dir H f g \<Longrightarrow> safe dir H g h \<Longrightarrow> safe dir H f h"
  unfolding safe_def by (auto intro: order.trans)

lemma fs_okI:
  assumes "\<And>p h. dict_get (names f) p = Some h \<Longrightarrow> h < next_handle f"
    "\<And>p q h. dict_get (names f) p = Some h \<Longrightarrow> dict_get (names f) q = Some h \<Longrightarrow> inside dir p \<Longrightarrow> inside dir q"
    "\<And>h. h \<in> H \<Longrightarrow> h < next_handle f" "\<And>h p. h \<in> H \<Longrightarrow> dict_get (names f) p = Some h \<Longrightarrow> inside dir p"
  shows "fs_ok dir H f"
  using assms unfolding fs_ok_def by blast

lemma fs_okD:
  assumes "fs_ok dir H f"
  shows "dict_get (names f) p = Some h \<Longrightarrow> h < next_handle f"
    "dict_get (names f) p = Some h \<Longrightarrow> dict_get (names f) q = Some h \<Longrightarrow> inside dir p \<Longrightarrow> inside dir q"
    "h \<in> H \<Longrightarrow> h < next_handle f" "h \<in> H \<Longrightarrow> dict_get (names f) p = Some h \<Longrightarrow> inside dir p"
  using assms unfolding fs_ok_def by blast+

lemma fs_ok_mono: "fs_ok dir H f \<Longrightarrow> K \<subseteq> H \<Longrightarrow> fs_ok dir K f"
  unfolding fs_ok_def by blast

lemma safeI:
  assumes "fs_ok dir H f \<Longrightarrow> fs_ok dir H g" "next_handle f \<le> next_handle g"
    "\<And>p. \<not> inside dir p \<Longrightarrow> dict_get (names g) p = dict_get (names f) p"
    "\<And>p h. fs_ok dir H f \<Longrightarrow> \<not> inside dir p \<Longrightarrow> dict_get (names f) p = Some h \<Longrightarrow> data_of g h = data_of f h"
  shows "safe dir H f g"
  unfolding safe_def
proof (intro impI conjI allI)
  fix p
  assume "fs_ok dir H f" "\<not> inside dir p"
  then show "read_file g p = read_file f p"
    using assms(3,4)[of p] by (cases "dict_get (names f) p") (simp_all add: read_file_def)
qed (simp_all add: assms)

lemma fs_ok_fewer:
  assumes "fs_ok dir H f" "next_handle g = next_handle f"
    "\<And>p h. dict_get (names g) p = Some h \<Longrightarrow> dict_get (names f) p = Some h"
  shows "fs_ok dir H g"
proof (rule fs_okI)
  fix p q h
  show "dict_get (names g) p = Some h \<Longrightarrow> h < next_handle g"
    using fs_okD(1)[OF assms(1) assms(3)] assms(2) by simp
  show "dict_get (names g) p = Some h \<Longrightarrow> dict_get (names g) q = Some h \<Longrightarrow> inside dir p \<Longrightarrow> inside dir q"
    using fs_okD(2)[OF assms(1)] assms(3) by blast
  show "h \<in> H \<Longrightarrow> h < next_handle g"
    using fs_okD(3)[OF assms(1)] assms(2) by simp
  show "h \<in> H \<Longrightarrow> dict_get (names g) p = Some h \<Longrightarrow> inside dir p"
    using fs_okD(4)[OF assms(1)] assms(3) by blast
qed

lemma safe_remove: "inside dir p \<Longrightarrow> safe dir H f (remove_file p f)"
  by (rule safeI) (auto intro: fs_ok_fewer split: if_split_asm)

lemma safe_discard: "inside dir p \<Longrightarrow> safe dir H f (discard p f)"
  unfolding discard_def by (blast intro: safe_trans safe_remove inside_meta)

lemma fs_ok_put:
  assumes "inside dir p" "fs_ok dir H f"
  shows "fs_ok dir (insert (next_handle f) H) (put_file p b f)"
proof (rule fs_okI)
  note ok = fs_okD[OF assms(2)]
  have new: "dict_get (names f) q \<noteq> Some (next_handle f)" "next_handle f \<notin> H" for q
    using ok(1,3) by blast+
  fix q r h
  show "dict_get (names (put_file p b f)) q = Some h \<Longrightarrow> h < next_handle (put_file p b f)"
    using ok(1)[of q h] by (auto split: if_split_asm)
  show "dict_get (names (put_file p b f)) q = Some h \<Longrightarrow> dict_get (names (put_file p b f)) r = Some h \<Longrightarrow>
      inside dir q \<Longrightarrow> inside dir r"
    using ok(2)[of q h r] new assms(1) by (auto split: if_split_asm)
  show "h \<in> insert (next_handle f) H \<Longrightarrow> h < next_handle (put_file p b f)"
    using ok(3)[of h] by auto
  show "h \<in> insert (next_handle f) H \<Longrightarrow> dict_get (names (put_file p b f)) q = Some h \<Longrightarrow> inside dir q"
    using ok(4)[of h q] new assms(1) by (auto split: if_split_asm)
qed

lemma safe_put:
  assumes "inside dir p"
  shows "safe dir H f (put_file p b f)"
proof (rule safeI)
  show "fs_ok dir H f \<Longrightarrow> fs_ok dir H (put_file p b f)"
    using fs_ok_put[OF assms] by (rule fs_ok_mono) auto
  show "data_of (put_file p b f) h = data_of f h" if "fs_ok dir H f" "dict_get (names f) q = Some h" for q h
    using fs_okD(1)[OF that] by simp
qed (use assms in auto)

lemma safe_data:
  assumes "h \<in> H" "names g = names f" "next_handle g = next_handle f" "\<And>k. k \<noteq> h \<Longrightarrow> data_of g k = data_of f k"
  shows "safe dir H f g"
proof (rule safeI)
  fix p k
  assume "fs_ok dir H f" "\<not> inside dir p" "dict_get (names f) p = Some k"
  then have "k \<noteq> h"
    using fs_okD(4) assms(1) by blast
  then show "data_of g k = data_of f k"
    by (rule assms(4))
next
  show "fs_ok dir H f \<Longrightarrow> fs_ok dir H g"
    by (rule fs_ok_fewer) (simp_all add: assms)
qed (simp_all add: assms)

lemma safe_replace:
  assumes "inside dir a" "inside dir b"
  shows "safe dir H f (replace_file a b f)"
proof (cases "dict_get (names f) a")
  case (Some k)
  show ?thesis
  proof (rule safeI)
    assume "fs_ok dir H f"
    note ok = fs_okD[OF this]
    show "fs_ok dir H (replace_file a b f)"
    proof (rule fs_okI)
      fix p q h
      show "dict_get (names (replace_file a b f)) p = Some h \<Longrightarrow> h < next_handle (replace_file a b f)"
        using ok(1)[of p h] ok(1)[OF Some] Some by (auto split: if_split_asm)
      show "dict_get (names (replace_file a b f)) p = Some h \<Longrightarrow> dict_get (names (replace_file a b f)) q = Some h \<Longrightarrow>
          inside dir p \<Longrightarrow> inside dir q"
        using ok(2)[of p h q] ok(2)[OF Some, of q] assms Some by (auto split: if_split_asm)
      show "h \<in> H \<Longrightarrow> h < next_handle (replace_file a b f)"
        using ok(3) by simp
      show "h \<in> H \<Longrightarrow> dict_get (names (replace_file a b f)) p = Some h \<Longrightarrow> inside dir p"
        using ok(4)[of h p] assms(2) Some by (auto split: if_split_asm)
    qed
  qed (use assms Some in auto)
qed (simp add: replace_file_def)

lemma safe_write_meta: "inside dir part \<Longrightarrow> safe dir H f (snd (write_meta ok now part d n sz c dn k f))"
  unfolding write_meta_def Let_def by (auto split: option.splits intro: safe_put inside_meta)

lemma safe_sweep_one:
  assumes "CHR ''/'' \<notin> set n"
  shows "safe dir H f (sweep_one now dir n f)"
proof (cases "read_meta f (path_join dir n)")
  case (Some i)
  then have "ends_with n (PART_SUFFIX @ META_SUFFIX) \<Longrightarrow> inside dir (pi_part_path i)"
    using read_meta_part[OF Some assms] by blast
  then show ?thesis
    using Some by (simp add: sweep_one_def safe_discard)
qed (simp add: sweep_one_def)

lemma safe_sweep: "safe dir H f (sweep_expired now dir f)"
proof -
  have "\<forall>n\<in>set ns. CHR ''/'' \<notin> set n \<Longrightarrow> safe dir H f (fold (sweep_one now dir) ns f)" for ns
  proof (induction ns arbitrary: f)
    case (Cons n ns)
    then show ?case
      using safe_trans[OF safe_sweep_one[of n] Cons.IH] by simp
  qed simp
  then show ?thesis
    using scandirD unfolding sweep_expired_def by blast
qed

lemma open_wb_new: "dict_get (names f) p = None \<Longrightarrow> open_wb p f = (next_handle f, put_file p [] f)"
  by (simp add: open_wb_def put_file_def)

section \<open>The invariant of a session\<close>

text \<open>A condition on the id, connection, file name, size and checksum of an offer.\<close>

type_synonym offer_pred = "string \<Rightarrow> string \<Rightarrow> string \<Rightarrow> int \<Rightarrow> string \<Rightarrow> bool"

definition in_ok :: "offer_pred \<Rightarrow> string \<Rightarrow> incoming_transfer \<Rightarrow> bool" where
  "in_ok Q dir t \<longleftrightarrow> inside dir (it_dest_path t) \<and> it_part_path t = get_part_path (it_dest_path t) \<and>
    it_size t \<le> MAX_INCOMING_FILE_SIZE \<and> int (it_bytes_received t) \<le> max 0 (it_size t) \<and>
    it_last_committed t \<le> it_bytes_received t \<and> it_state t \<in> {I_ACCEPTED, I_RECEIVING} \<and>
    Q (it_transfer_id t) (it_addr_key t) (it_filename t) (it_size t) (it_expected_checksum t)"

definition po_ok :: "offer_pred \<Rightarrow> string \<Rightarrow> pending_offer \<Rightarrow> bool" where
  "po_ok Q dir p \<longleftrightarrow> inside dir (po_dest_path p) \<and> po_part_path p = get_part_path (po_dest_path p) \<and>
    po_size p \<le> MAX_INCOMING_FILE_SIZE \<and> int (po_resume_offset p) \<le> max 0 (po_size p) \<and>
    Q (po_transfer_id p) (po_addr_key p) (po_filename p) (po_size p) (po_checksum p)"

definition handles :: "xfer \<Rightarrow> handle set" where
  "handles s = (\<lambda>x. it_file_handle (snd x)) ` set (incoming s)"

definition sess_ok :: "offer_pred \<Rightarrow> string \<Rightarrow> xfer \<Rightarrow> bool" where
  "sess_ok Q dir s \<longleftrightarrow> fs_ok dir (handles s) (files s) \<and>
    (\<forall>x\<in>set (incoming s). it_transfer_id (snd x) = fst x \<and> in_ok Q dir (snd x)) \<and> (\<forall>p\<in>set (pending s). po_ok Q dir p)"

text \<open>What every step does: it keeps the invariant and the files outside the directory.\<close>

definition guarded :: "offer_pred \<Rightarrow> string \<Rightarrow> xfer \<Rightarrow> xfer \<Rightarrow> bool" where
  "guarded Q dir s s' \<longleftrightarrow> (sess_ok Q dir s \<longrightarrow>
     sess_ok Q dir s' \<and> (\<forall>p. \<not> inside dir p \<longrightarrow> read_file (files s') p = read_file (files s) p))"

lemma guarded_trans [trans]: "guarded Q dir s t \<Longrightarrow> guarded Q dir t u \<Longrightarrow> guarded Q dir s u"
  unfolding guarded_def by simp

lemma guarded_fewer:
  assumes "files s' = files s" "set (incoming s') \<subseteq> set (incoming s)" "set (pending s') \<subseteq> set (pending s)"
  shows "guarded Q dir s s'"
  unfolding guarded_def sess_ok_def assms(1)
  using assms(2,3) by (auto intro: fs_ok_mono simp: handles_def)

lemma guarded_same:
  "files s' = files s \<Longrightarrow> incoming s' = incoming s \<Longrightarrow> pending s' = pending s \<Longrightarrow> guarded Q dir s s'"
  by (rule guarded_fewer) simp_all

lemma guarded_refl [simp]: "guarded Q dir s s"
  by (simp add: guarded_def)

lemma guarded_files:
  assumes "safe dir (handles s) (files s) g"
  shows "guarded Q dir s (s\<lparr> files := g \<rparr>)"
  using assms unfolding guarded_def sess_ok_def safe_def by (simp add: handles_def)

lemma set_update_subset: "set (dict_set k v d) \<subseteq> insert (k, v) (set d)"
  by (induction d) auto

lemma set_pop_subset: "set (dict_pop k d) \<subseteq> set d"
  by (auto simp: AList.delete_eq)

lemma guarded_set_incoming:
  assumes "in_ok Q dir t" "it_file_handle t \<in> handles s"
  shows "guarded Q dir s (set_incoming t s)"
proof -
  have "set (incoming (set_incoming t s)) \<subseteq> insert (it_transfer_id t, t) (set (incoming s))"
    using set_update_subset by (simp add: set_incoming_def)
  moreover from this have "handles (set_incoming t s) \<subseteq> insert (it_file_handle t) (handles s)"
    unfolding handles_def by fastforce
  then have "handles (set_incoming t s) \<subseteq> handles s"
    using assms(2) by auto
  ultimately show ?thesis
    using assms(1) unfolding guarded_def sess_ok_def
    by (auto simp: set_incoming_def intro: fs_ok_mono)
qed

section \<open>Every step is guarded\<close>

lemma transmit_simps [simp]:
  "files (transmit e a m s) = files s" "incoming (transmit e a m s) = incoming s"
  "pending (transmit e a m s) = pending s" "transfers (transmit e a m s) = transfers s"
  "outgoing (transmit e a m s) = outgoing s" "tasks (transmit e a m s) = tasks s" "notices (transmit e a m s) = notices s"
  by (simp_all add: transmit_def)

lemma notify_simps [simp]:
  "files (notify_complete b tid ok p r s) = files s" "incoming (notify_complete b tid ok p r s) = incoming s"
  "pending (notify_complete b tid ok p r s) = pending s" "transfers (notify_complete b tid ok p r s) = transfers s"
  "outgoing (notify_complete b tid ok p r s) = outgoing s" "tasks (notify_complete b tid ok p r s) = tasks s"
  "outbox (notify_complete b tid ok p r s) = outbox s"
  by (simp_all add: notify_complete_def)

lemma report_simps [simp]:
  "files (report_once e a c tid s) = files s" "incoming (report_once e a c tid s) = incoming s"
  "pending (report_once e a c tid s) = pending s" "transfers (report_once e a c tid s) = transfers s"
  "outgoing (report_once e a c tid s) = outgoing s" "tasks (report_once e a c tid s) = tasks s"
  "notices (report_once e a c tid s) = notices s"
  by (simp_all add: report_once_def Let_def split: sum.splits)

lemma fail_outgoing_simps [simp]:
  "files (fail_outgoing tid r s) = files s" "incoming (fail_outgoing tid r s) = incoming s"
  "pending (fail_outgoing tid r s) = pending s"
  by (simp_all add: fail_outgoing_def split: option.splits sum.splits)

lemma guarded_sending:
  "guarded Q dir s (fail_outgoing tid r s)" "guarded Q dir s (report_once e a c tid s)"
  "guarded Q dir s (handle_accept e a tid ro s)" "guarded Q dir s (handle_reject tid s)"
  "guarded Q dir s (handle_complete_ack tid ack s)" "guarded Q dir s (snd (offer_file e tid a path s))"
  "guarded Q dir s (snd (send_chunks e b tid s))"
proof (rule_tac[!] guarded_same)
qed (simp_all add: handle_accept_def handle_reject_def handle_complete_ack_def offer_file_def send_chunks_def
    start_stream_def stream_chunk_def await_ack_def conclude_def finish_task_def set_phase_def Let_def
    split: option.splits sum.splits phase.splits)

lemma in_okD:
  assumes "in_ok Q dir t"
  shows "inside dir (it_dest_path t)" "inside dir (it_part_path t)"
  using assms inside_part by (simp_all add: in_ok_def)

lemma safe_record_meta: "inside dir (it_part_path t) \<Longrightarrow> safe dir H f (record_meta e dev k t f)"
  unfolding record_meta_def by (auto split: option.splits intro: safe_write_meta)

lemma safe_keep_partial: "inside dir (it_part_path t) \<Longrightarrow> safe dir H f (keep_partial e dev t f)"
  by (simp add: keep_partial_def safe_record_meta)

lemma guarded_drop: "guarded Q dir s (drop_incoming tid s)"
  by (rule guarded_fewer) (simp_all add: drop_incoming_def set_pop_subset)

text \<open>A transfer taken out, with a change to the files.\<close>

lemma guarded_resolve:
  assumes "safe dir (handles (drop_incoming tid s)) (files s) g"
    "files s' = g" "incoming s' = incoming (drop_incoming tid s)" "pending s' = pending s"
  shows "guarded Q dir s s'"
proof -
  have "guarded Q dir (drop_incoming tid s) ((drop_incoming tid s)\<lparr> files := g \<rparr>)"
    by (rule guarded_files) (use assms(1) in \<open>simp add: drop_incoming_def\<close>)
  moreover have "guarded Q dir ((drop_incoming tid s)\<lparr> files := g \<rparr>) s'"
    by (rule guarded_same) (simp_all add: assms drop_incoming_def)
  ultimately show ?thesis
    using guarded_drop guarded_trans by blast
qed

lemma guarded_fail_incoming:
  assumes "inside dir (it_part_path t)"
  shows "guarded Q dir s (fail_incoming e t r s)"
proof (cases "in_to (it_state t) I_FAILED")
  case (Inr st)
  show ?thesis
    by (rule guarded_resolve[OF safe_keep_partial[OF assms]]) (simp_all add: fail_incoming_def Inr Let_def drop_incoming_def)
qed (simp add: fail_incoming_def)

lemma guarded_lost_incoming:
  assumes "inside dir (it_part_path t)"
  shows "guarded Q dir s (lost_incoming e peer t s)"
  by (rule guarded_resolve[OF safe_keep_partial[OF assms]]) (simp_all add: lost_incoming_def Let_def drop_incoming_def)

lemma guarded_abort:
  assumes "inside dir (it_dest_path t)" "inside dir (it_part_path t)"
  shows "guarded Q dir s (abort_incoming e t r s)"
proof -
  define f1 where "f1 = (if it_part_path t \<noteq> [] then discard (it_part_path t) (files s) else files s)"
  define f2 where "f2 = (if exists_file f1 (it_dest_path t) then remove_file (it_dest_path t) f1 else f1)"
  have "safe dir H (files s) f1" "safe dir H f1 f2" for H
    using safe_discard[OF assms(2)] safe_remove[OF assms(1)] by (simp_all add: f1_def f2_def)
  then have "safe dir H (files s) f2" for H
    using safe_trans by blast
  then show ?thesis
    by (rule guarded_resolve) (simp_all add: abort_incoming_def Let_def drop_incoming_def f1_def f2_def)
qed

lemma guarded_fold:
  assumes "\<And>x s. P x \<Longrightarrow> guarded Q dir s (g x s)" "\<forall>x\<in>set xs. P x"
  shows "guarded Q dir s (fold g xs s)"
  using assms(2)
proof (induction xs arbitrary: s)
  case (Cons x xs)
  then show ?case
    using guarded_trans[OF assms(1)[of x s]] by simp
qed simp

lemma sess_okD:
  assumes "sess_ok Q dir s"
  shows "x \<in> set (incoming s) \<Longrightarrow> in_ok Q dir (snd x)" "dict_get (incoming s) tid = Some t \<Longrightarrow> in_ok Q dir t"
    "dict_get (incoming s) tid = Some t \<Longrightarrow> it_transfer_id t = tid"
    "dict_get (incoming s) tid = Some t \<Longrightarrow> it_file_handle t \<in> handles s"
    "p \<in> set (pending s) \<Longrightarrow> po_ok Q dir p" "fs_ok dir (handles s) (files s)"
proof -
  have "in_ok Q dir (snd x) \<and> it_transfer_id (snd x) = fst x" if "x \<in> set (incoming s)" for x
    using assms that unfolding sess_ok_def by blast
  then show "x \<in> set (incoming s) \<Longrightarrow> in_ok Q dir (snd x)" "dict_get (incoming s) tid = Some t \<Longrightarrow> in_ok Q dir t"
    "dict_get (incoming s) tid = Some t \<Longrightarrow> it_transfer_id t = tid"
    using map_of_SomeD by fastforce+
  show "dict_get (incoming s) tid = Some t \<Longrightarrow> it_file_handle t \<in> handles s"
    unfolding handles_def by (metis (no_types, lifting) image_eqI map_of_SomeD snd_conv)
qed (use assms in \<open>simp_all add: sess_ok_def\<close>)

lemma guardedI: "(sess_ok Q dir s \<Longrightarrow> guarded Q dir s s') \<Longrightarrow> guarded Q dir s s'"
  by (auto simp: guarded_def)

lemma guarded_handle_error: "guarded Q dir s (handle_error e addr m s)"
proof (rule guardedI)
  assume "sess_ok Q dir s"
  then have "dict_get (incoming s) tid = Some t \<Longrightarrow> guarded Q dir s (fail_incoming e t r s)" for tid t r
    using guarded_fail_incoming in_okD(2) sess_okD(2) by blast
  then show "guarded Q dir s (handle_error e addr m s)"
    unfolding handle_error_def Let_def
    by (auto simp: guarded_sending split: sum.splits option.splits json.splits if_split_asm)
qed

lemma guarded_lost: "guarded Q dir s (on_peer_disconnected e addr peer s)"
proof (rule guardedI)
  assume ok: "sess_ok Q dir s"
  define ts where "ts = [t \<leftarrow> map snd (incoming s). it_addr_key t = addr]"
  have "\<forall>t\<in>set ts. inside dir (it_part_path t)"
    using in_okD(2)[where Q = Q] sess_okD(1)[OF ok] by (auto simp: ts_def)
  then have "guarded Q dir s (fold (lost_incoming e peer) ts s)"
    by (rule guarded_fold[rotated]) (rule guarded_lost_incoming)
  moreover have "guarded Q dir u (fold (\<lambda>tid. fail_outgoing tid r) xs u)" for u r xs
    by (rule guarded_fold[where P = "\<lambda>_. True"]) (simp_all add: guarded_sending)
  ultimately show "guarded Q dir s (on_peer_disconnected e addr peer s)"
    unfolding on_peer_disconnected_def handle_connection_lost_def ts_def Let_def
    by (auto intro: guarded_trans)
qed

lemma checkpoint_spec:
  assumes "checkpoint_incoming e t f = (t', g)" "in_ok Q dir t"
  shows "in_ok Q dir t' \<and> it_file_handle t' = it_file_handle t \<and> safe dir H f g"
  using assms safe_record_meta[OF in_okD(2)[OF assms(2)]]
  by (auto simp: checkpoint_incoming_def in_ok_def whole_chunks_def split: option.splits if_split_asm)

lemma guarded_take_chunk:
  assumes "in_ok Q dir t" "it_file_handle t \<in> handles s"
  shows "guarded Q dir s (take_chunk e i offset data t s)"
proof (cases "i \<noteq> it_expected_chunk_index t \<or> offset \<noteq> it_bytes_received t \<or>
    int (it_bytes_received t + length data) > it_size t \<or> \<not> write_ok e")
  case True
  then show ?thesis
    using guarded_abort[OF in_okD[OF assms(1)]] by (auto simp: take_chunk_def)
next
  case False
  define f where "f = write_data (it_file_handle t) (it_bytes_received t) data (files s)"
  define t1 where "t1 = t\<lparr> it_bytes_received := it_bytes_received t + length data,
    it_expected_chunk_index := Suc (it_expected_chunk_index t) \<rparr>"
  define r where "r = (if it_bytes_received t1 \<ge> it_last_committed t1 + COMMIT_INTERVAL
    then checkpoint_incoming e t1 f else (t1, f))"
  obtain t2 f2 where r2: "r = (t2, f2)"
    by (cases r)
  have t1: "in_ok Q dir t1"
    using assms(1) False by (simp add: t1_def in_ok_def)
  have "in_ok Q dir t2 \<and> it_file_handle t2 = it_file_handle t \<and> safe dir (handles s) f f2"
    using r2 t1 checkpoint_spec[of e t1 f t2 f2 Q dir] unfolding r_def by (auto simp: t1_def split: if_split_asm)
  moreover have "safe dir (handles s) (files s) f"
    unfolding f_def by (rule safe_data[OF assms(2)]) simp_all
  ultimately have "guarded Q dir s (s\<lparr> files := f2 \<rparr>)" "guarded Q dir (s\<lparr> files := f2 \<rparr>) (set_incoming t2 (s\<lparr> files := f2 \<rparr>))"
    using assms(2) safe_trans by (blast intro: guarded_files, intro guarded_set_incoming) (auto simp: handles_def)
  moreover have "take_chunk e i offset data t s = set_incoming t2 (s\<lparr> files := f2 \<rparr>)"
    unfolding take_chunk_def Let_def f_def[symmetric] t1_def[symmetric] r_def[symmetric] r2 using False by simp
  ultimately show ?thesis
    using guarded_trans by simp
qed

lemma receiving_iff: "in_to st I_RECEIVING = Inr st' \<longleftrightarrow> st \<in> {I_ACCEPTED, I_RECEIVING, I_RESUMING} \<and> st' = I_RECEIVING"
  by (cases st) (auto simp: transfer_transition_to_def incoming_terminal_outcomes_def)

lemma restart_spec:
  assumes "restart_incoming e t f = (t', g)" "in_ok Q dir t" "it_file_handle t \<in> H"
  shows "in_ok Q dir t' \<and> it_file_handle t' = it_file_handle t \<and> safe dir H f g"
proof -
  have "safe dir H f (truncate_data (it_file_handle t) 0 f)"
    by (rule safe_data[OF assms(3)]) simp_all
  then show ?thesis
    using assms(1,2) safe_trans[OF _ safe_record_meta] in_okD(2)[OF assms(2)]
    by (auto simp: restart_incoming_def Let_def in_ok_def)
qed

lemma guarded_chunk: "guarded Q dir s (handle_chunk e addr tid i offset data s)"
proof (rule guardedI)
  assume ok: "sess_ok Q dir s"
  show "guarded Q dir s (handle_chunk e addr tid i offset data s)"
  proof (cases "dict_get (incoming s) tid")
    case (Some t0)
    define t where "t = t0\<lparr> it_state := I_RECEIVING, it_first_chunk_received := True \<rparr>"
    have t: "in_ok Q dir t" "it_file_handle t \<in> handles s"
      using sess_okD(2,4)[OF ok Some] by (simp_all add: t_def in_ok_def)
    obtain t1 f where r: "restart_incoming e t (files s) = (t1, f)"
      by (cases "restart_incoming e t (files s)")
    have "guarded Q dir s (take_chunk e i offset data t1 (s\<lparr> files := f \<rparr>))" for i offset
      using restart_spec[OF r t] guarded_trans[OF guarded_files guarded_take_chunk] t(2) by (simp add: handles_def)
    moreover have "in_to (it_state t0) I_RECEIVING = Inr I_RECEIVING"
      using sess_okD(2)[OF ok Some] by (auto simp: receiving_iff in_ok_def)
    ultimately show ?thesis
      using Some guarded_take_chunk[OF t] guarded_abort[OF in_okD[OF t(1)]] r
      by (simp add: handle_chunk_def Let_def flip: t_def)
  qed (simp add: handle_chunk_def guarded_sending)
qed

lemma verifying_ok: "st \<in> {I_ACCEPTED, I_RECEIVING} \<Longrightarrow> verifying st = Inr I_VERIFYING"
  by (auto simp: verifying_def transfer_transition_to_def)

lemma guarded_done: "guarded Q dir s (snd (handle_done e addr tid s))"
proof (rule guardedI)
  assume ok: "sess_ok Q dir s"
  show "guarded Q dir s (snd (handle_done e addr tid s))"
  proof (cases "dict_get (incoming s) tid")
    case (Some t)
    define u where "u = drop_incoming (it_transfer_id t) s"
    have inside: "inside dir (it_dest_path t)" "inside dir (it_part_path t)"
      using in_okD sess_okD(2)[OF ok Some] by blast+
    have v: "verifying (it_state t) = Inr I_VERIFYING"
      using verifying_ok sess_okD(2)[OF ok Some] by (simp add: in_ok_def)
    have g: "guarded Q dir s s'" if "safe dir (handles u) (files s) (files s')" "incoming s' = incoming u" "pending s' = pending s" for s'
      using guarded_resolve[OF that(1)[unfolded u_def] refl] that(2,3) by (simp add: u_def)
    have "files u = files s" "pending u = pending s"
      by (simp_all add: u_def drop_incoming_def)
    moreover have "safe dir H f (discard (it_part_path t) f)"
      "safe dir H f (discard (it_part_path t) (replace_file (it_part_path t) (it_dest_path t) f))" for H f
      using safe_discard[OF inside(2)] safe_replace[OF inside(2,1)] safe_trans by blast+
    ultimately show ?thesis
      using Some v by (intro g) (simp_all add: handle_done_def Let_def finalize_part_file_def flip: u_def split: option.splits)
  qed (simp add: handle_done_def guarded_sending)
qed

lemma guarded_reject: "guarded Q dir s (reject e addr tid s)"
  by (rule guarded_same) (simp_all add: reject_def)

lemma guarded_ask:
  assumes "po_ok Q dir p"
  shows "guarded Q dir s (ask e p s)"
proof -
  have "guarded Q dir s (s\<lparr> offer_resume_offsets := r, pending := pending s @ [p] \<rparr>)" for r
    using assms by (auto simp: guarded_def sess_ok_def handles_def)
  then show ?thesis
    by (simp add: ask_def guarded_reject)
qed

lemma path_join_part: "n \<noteq> [] \<Longrightarrow> get_part_path (path_join dir n) = path_join dir (n @ PART_SUFFIX)"
  by (simp add: get_part_path_def PART_SUFFIX_def path_join_append)

lemma choose_partial_resume:
  assumes "choose_partial e dir peer filename sz checksum s = Resume info offset"
  shows "inside dir (path_join dir (pi_dest_name info)) \<and>
    pi_part_path info = get_part_path (path_join dir (pi_dest_name info)) \<and> int offset \<le> sz"
proof -
  obtain dev where f: "find_resumable (files s) dir dev filename sz checksum = Some info"
    and off: "offset = resume_offset_for (files s) info CHUNK_SIZE"
    and res: "case resolve_safe_dest_path (realpath e) (windows e) (files s) True (pi_dest_name info) dir of
      Inl _ \<Rightarrow> False | Inr dest \<Rightarrow> basename dest = pi_dest_name info"
    using assms unfolding choose_partial_def Let_def by (simp split: option.split_asm if_split_asm)
  obtain dest where r: "resolve_safe_dest_path (realpath e) (windows e) (files s) True (pi_dest_name info) dir = Inr dest"
    and base: "basename dest = pi_dest_name info"
    using res by (simp split: sum.split_asm)
  have d: "inside dir dest" "basename dest = pi_dest_name info"
    using resolve_safe_dest_path_spec[OF r] base by simp_all
  obtain n where n: "component n" "dest = path_join dir n"
    using d(1) by (auto simp: inside_def)
  then have "n = pi_dest_name info"
    using d(2) basename_join[of n dir] by (simp add: component_def)
  moreover have "int offset \<le> sz"
    using resume_offset_bounds[of info CHUNK_SIZE "files s"] find_resumableD[OF f] off
    by (simp add: CHUNK_SIZE_def DEFAULT_CHUNK_SIZE_def)
  ultimately show ?thesis
    using n d(1) find_resumableD[OF f] path_join_part by (auto simp: component_def)
qed

lemma choose_partial_fresh:
  assumes "choose_partial e dir peer filename sz checksum s = Fresh f"
  shows "safe dir H (files s) f"
proof -
  have "safe dir H (files s) (discard (pi_part_path info) (files s))"
    if "find_resumable (files s) dir dev filename sz checksum = Some info" for dev info
    using find_resumableD[OF that] safe_discard by blast
  then show ?thesis
    using assms unfolding choose_partial_def Let_def by (auto split: option.split_asm if_split_asm)
qed

lemma guarded_place:
  assumes "po_size p \<le> MAX_INCOMING_FILE_SIZE" "po_resume_offset p = 0"
    "Q (po_transfer_id p) (po_addr_key p) (po_filename p) (po_size p) (po_checksum p)"
  shows "guarded Q dir s (place_offer e dir p s)"
proof (cases "choose_partial e dir (po_peer_device_id p) (po_filename p) (po_size p) (po_checksum p) s")
  case Busy
  then show ?thesis
    by (simp add: place_offer_def guarded_reject)
next
  case (Resume info offset)
  then show ?thesis
    using choose_partial_resume[OF Resume] assms by (simp add: place_offer_def guarded_ask po_ok_def)
next
  case (Fresh f)
  have f: "guarded Q dir s (s\<lparr> files := f \<rparr>)"
    by (rule guarded_files) (rule choose_partial_fresh[OF Fresh])
  show ?thesis
  proof (cases "resolve_safe_dest_path (realpath e) (windows e) f False (po_filename p) dir")
    case (Inl x)
    then show ?thesis
      using Fresh guarded_trans[OF f guarded_reject] by (simp add: place_offer_def)
  next
    case (Inr dest)
    then show ?thesis
      using Fresh resolve_safe_dest_path_spec[OF Inr] guarded_trans[OF f guarded_ask] assms
      by (simp add: place_offer_def po_ok_def)
  qed
qed

lemma guarded_offer:
  assumes "Q tid addr filename sz checksum"
  shows "guarded Q dir s (handle_offer e dir addr tid filename sz checksum sender s)"
proof -
  have "guarded Q dir s (s\<lparr> files := sweep_expired (time_of (env_now e)) dir (files s) \<rparr>)"
    by (rule guarded_files) (rule safe_sweep)
  then show ?thesis
    using guarded_trans[OF _ guarded_reject] guarded_trans[OF _ guarded_place] assms
    unfolding handle_offer_def Let_def by simp
qed

lemma open_part_spec:
  assumes "open_part e part resume f = (Inr (r, h, g), g')" "inside dir part" "fs_ok dir H f"
  shows "fs_ok dir (insert h H) g \<and> safe dir H f g \<and> r \<in> {0, resume} \<and> g' = g"
proof (cases "if resume > 0 \<and> reopen_ok e then dict_get (names f) part else None")
  case (Some k)
  then have g: "g = truncate_data k resume f" "h = k" "r = resume" "g' = g" and k: "dict_get (names f) part = Some k"
    using assms(1) by (auto simp: open_part_def Let_def split: if_split_asm)
  have ok: "fs_ok dir (insert k H) f"
    by (rule fs_okI) (use fs_okD[OF assms(3)] fs_okD(1,2)[OF assms(3) k] assms(2) in \<open>blast+\<close>)
  have "safe dir (insert k H) f g"
    unfolding g by (rule safe_data[of k]) simp_all
  then have "fs_ok dir (insert k H) g" "\<forall>p. \<not> inside dir p \<longrightarrow> read_file g p = read_file f p" "next_handle f \<le> next_handle g"
    using ok by (simp_all add: safe_def)
  then show ?thesis
    using g by (auto simp: safe_def intro: fs_ok_mono)
next
  case None
  define f1 where "f1 = discard part f"
  have f1: "safe dir H f f1" "dict_get (names f1) part = None"
    using safe_discard[OF assms(2)] by (simp_all add: f1_def discard_def)
  then have ok: "fs_ok dir H f1"
    using assms(3) by (simp add: safe_def)
  have "h = next_handle f1" "g = put_file part [] f1" "r = 0" "g' = g"
    using assms(1) None open_wb_new[OF f1(2)] by (auto simp: open_part_def start_over_def Let_def f1_def split: if_split_asm)
  then show ?thesis
    using fs_ok_put[OF assms(2) ok] safe_trans[OF f1(1) safe_put[OF assms(2)]] by simp
qed

lemma guarded_accept:
  assumes "po_ok Q dir p"
  shows "guarded Q dir s (snd (accept_offer e p s))"
proof (rule guardedI)
  assume ok: "sess_ok Q dir s"
  have part: "inside dir (po_part_path p)"
    using assms inside_part by (simp add: po_ok_def)
  obtain res g' where o: "open_part e (po_part_path p) (po_resume_offset p) (files s) = (res, g')"
    by (cases "open_part e (po_part_path p) (po_resume_offset p) (files s)")
  show "guarded Q dir s (snd (accept_offer e p s))"
  proof (cases res)
    case (Inl x)
    have "safe dir (handles s) (files s) g'"
      using o Inl safe_discard[OF part]
      by (auto simp: open_part_def start_over_def Let_def split: option.split_asm if_split_asm prod.split_asm)
    then show ?thesis
      using o Inl guarded_files by (simp add: accept_offer_def)
  next
    case (Inr y)
    obtain r h g where y: "y = (r, h, g)"
      by (cases y)
    have sp: "fs_ok dir (insert h (handles s)) g" "safe dir (handles s) (files s) g" "r \<in> {0, po_resume_offset p}"
      using open_part_spec[OF o[unfolded Inr y] part sess_okD(6)[OF ok]] by simp_all
    define t where "t = new_incoming p r h"
    define g2 where "g2 = record_meta e (po_peer_device_id p) r t g"
    define t' where "t' = t\<lparr> it_state := I_ACCEPTED \<rparr>"
    define u where "u = s\<lparr> files := g2, incoming := dict_set (po_transfer_id p) t' (incoming s) \<rparr>"
    have part_t: "inside dir (it_part_path t)"
      using part by (simp add: t_def new_incoming_def)
    have g2: "fs_ok dir (insert h (handles s)) g2" "safe dir (handles s) (files s) g2"
      using safe_record_meta[OF part_t, of "insert h (handles s)" g] safe_trans[OF sp(2) safe_record_meta[OF part_t]] sp(1)
      by (simp_all add: g2_def safe_def[of dir "insert h (handles s)"])
    have t': "in_ok Q dir t'" "it_file_handle t' = h" "it_transfer_id t' = po_transfer_id p"
      using assms sp(3) by (auto simp: t'_def t_def new_incoming_def in_ok_def po_ok_def)
    have inc: "set (incoming u) \<subseteq> insert (po_transfer_id p, t') (set (incoming s))"
      using set_update_subset by (simp add: u_def)
    then have "handles u \<subseteq> insert h (handles s)"
      using t'(2) unfolding handles_def by fastforce
    then have "sess_ok Q dir u"
      using ok g2(1) t' inc unfolding sess_ok_def by (auto simp: u_def intro: fs_ok_mono)
    moreover have "read_file (files u) q = read_file (files s) q" if "\<not> inside dir q" for q
      using g2(2) sess_okD(6)[OF ok] that by (simp add: safe_def u_def)
    ultimately have "guarded Q dir s u"
      by (simp add: guarded_def)
    moreover have "in_to (it_state t) I_ACCEPTED = Inr I_ACCEPTED"
      by (simp add: t_def new_incoming_def transfer_transition_to_def)
    then have "guarded Q dir u (snd (accept_offer e p s))"
      using o Inr y by (intro guarded_same)
        (simp_all add: accept_offer_def Let_def u_def t'_def g2_def flip: t_def split: sum.splits)
    ultimately show ?thesis
      using guarded_trans by blast
  qed
qed

lemma guarded_answer: "guarded Q dir s (snd (answer_offer e i accept s))"
proof (rule guardedI)
  assume ok: "sess_ok Q dir s"
  show "guarded Q dir s (snd (answer_offer e i accept s))"
  proof (cases "i < length (pending s)")
    case True
    define p where "p = pending s ! i"
    define u where "u = s\<lparr> pending := take i (pending s) @ drop (Suc i) (pending s),
      offer_resume_offsets := dict_pop (po_transfer_id p) (offer_resume_offsets s) \<rparr>"
    have p: "po_ok Q dir p"
      using sess_okD(5)[OF ok] True by (simp add: p_def)
    have u: "guarded Q dir s u"
      by (rule guarded_fewer) (auto simp: u_def dest: in_set_takeD in_set_dropD)
    have "guarded Q dir u (u\<lparr> files := discard (po_part_path p) (files u) \<rparr>)"
      using p inside_part by (intro guarded_files safe_discard) (simp add: po_ok_def)
    then have "guarded Q dir u (decline_offer e p u)"
      unfolding decline_offer_def using guarded_reject guarded_trans by auto
    moreover have "snd (answer_offer e i accept s) = (if accept then snd (accept_offer e p u) else decline_offer e p u)"
      using True unfolding answer_offer_def p_def[symmetric] Let_def u_def[symmetric] by simp
    ultimately show ?thesis
      using guarded_accept[OF p] u guarded_trans by auto
  qed (simp add: answer_offer_def)
qed

text \<open>The offers an event carries.\<close>

fun offer_ok :: "offer_pred \<Rightarrow> event \<Rightarrow> bool" where
  "offer_ok Q (FileOffer addr tid filename sz checksum sender) = Q tid addr filename sz checksum"
| "offer_ok Q _ = True"

lemma guarded_dispatch: "offer_ok Q ev \<Longrightarrow> guarded Q dir s (snd (dispatch e dir ev s))"
  by (cases ev) (simp_all add: guarded_offer guarded_sending guarded_chunk guarded_done guarded_handle_error
    guarded_answer guarded_lost sbind_def split: prod.splits sum.splits, use guarded_sending(6) in \<open>metis snd_conv\<close>)

lemma guarded_run:
  assumes "\<forall>x\<in>set es. offer_ok Q (snd x)"
  shows "guarded Q dir s (run dir es s)"
  unfolding run_def by (rule guarded_fold[OF _ assms]) (auto simp: guarded_dispatch)

section \<open>Successful completions\<close>

text \<open>A step that reports no completed download.\<close>

definition uneventful :: "xfer \<Rightarrow> xfer \<Rightarrow> bool" where
  "uneventful s s' \<longleftrightarrow> (\<exists>ns. notices s' = notices s @ ns \<and> (\<forall>n\<in>set ns. nt_sent n \<or> \<not> nt_success n))"

lemma uneventful_same: "notices s' = notices s \<Longrightarrow> uneventful s s'"
  by (auto simp: uneventful_def)

lemma uneventful_trans [trans]: "uneventful s t \<Longrightarrow> uneventful t u \<Longrightarrow> uneventful s u"
  unfolding uneventful_def by (metis (no_types, opaque_lifting) Un_iff append.assoc set_append)

lemma uneventful_notify: "notices s' = notices (notify_complete b tid ok p r s) \<Longrightarrow> b \<or> \<not> ok \<Longrightarrow> uneventful s s'"
  by (auto simp: uneventful_def notify_complete_def)

lemma uneventful_fold: "(\<And>x s. uneventful s (g x s)) \<Longrightarrow> uneventful s (fold g xs s)"
proof (induction xs arbitrary: s)
  case (Cons x xs)
  then show ?case
    using uneventful_trans[of s "g x s"] by simp
qed (simp add: uneventful_same)

lemma uneventful_fail_outgoing: "uneventful s (fail_outgoing tid r s)"
  unfolding fail_outgoing_def by (auto simp: notify_complete_def uneventful_def split: option.splits sum.splits)

lemma uneventful_failed: "notices s' = notices (fail_outgoing tid r s) \<Longrightarrow> uneventful s s'"
  using uneventful_fail_outgoing[of s tid r] by (simp add: uneventful_def)

lemma uneventful_messages:
  "uneventful s (handle_accept e a tid ro s)" "uneventful s (handle_complete_ack tid ack s)"
  "uneventful s (snd (offer_file e tid a path s))" "uneventful s (handle_reject tid s)"
proof -
  show "uneventful s (handle_accept e a tid ro s)" "uneventful s (snd (offer_file e tid a path s))"
    unfolding handle_accept_def offer_file_def Let_def
    by (intro uneventful_same, simp split: option.splits sum.splits)+
  show "uneventful s (handle_complete_ack tid ack s)"
    unfolding handle_complete_ack_def by (simp add: uneventful_same uneventful_fail_outgoing split: option.splits)
  show "uneventful s (handle_reject tid s)"
    by (auto simp: handle_reject_def notify_complete_def uneventful_def split: option.splits sum.splits)
qed

lemma task_simps [simp]: "notices (finish_task tid s) = notices s" "notices (set_phase tid ph s) = notices s"
  by (simp_all add: finish_task_def set_phase_def)

lemma uneventful_send_chunks: "uneventful s (snd (send_chunks e b tid s))"
proof -
  have "uneventful s (snd (start_stream tid t s))" "uneventful s (snd (stream_chunk e tid t h i offset s))"
    "uneventful s (await_ack tid t s)" for t h i offset
    unfolding start_stream_def stream_chunk_def await_ack_def Let_def
    by (simp_all add: uneventful_same uneventful_failed split: option.splits sum.splits)
  moreover have "uneventful s (conclude b tid t s)" for t
    by (auto simp: conclude_def Let_def notify_complete_def uneventful_def)
  ultimately show ?thesis
    by (simp add: send_chunks_def uneventful_same uneventful_failed split: option.splits phase.splits)
qed

lemma uneventful_receiving:
  "uneventful s (fail_incoming e t r s)" "uneventful s (lost_incoming e peer t s)" "uneventful s (abort_incoming e t r s)"
  unfolding fail_incoming_def lost_incoming_def abort_incoming_def Let_def
  by (auto simp: notify_complete_def uneventful_def drop_incoming_def split: sum.splits)

lemma uneventful_handlers:
  "uneventful s (handle_error e addr m s)" "uneventful s (on_peer_disconnected e addr peer s)"
  "uneventful s (handle_chunk e addr tid i offset data s)" "uneventful s (snd (answer_offer e k accept s))"
  "uneventful s (handle_offer e dir addr tid filename sz checksum sender s)"
proof -
  show "uneventful s (handle_error e addr m s)"
    unfolding handle_error_def Let_def
    by (auto simp: uneventful_receiving uneventful_fail_outgoing uneventful_same split: sum.splits option.splits json.splits if_split_asm)
  show "uneventful s (on_peer_disconnected e addr peer s)"
  proof -
    have "uneventful u (fold (lost_incoming e peer) xs u)" "uneventful u (fold (\<lambda>tid. fail_outgoing tid r) ys u)" for u r xs ys
      by (rule uneventful_fold, rule uneventful_receiving uneventful_fail_outgoing)+
    then show ?thesis
      using uneventful_trans by (simp add: on_peer_disconnected_def handle_connection_lost_def Let_def uneventful_same) blast
  qed
  have "uneventful s (take_chunk e i offset data t (s\<lparr> files := f \<rparr>))" for i offset t f
    unfolding take_chunk_def Let_def
    by (auto intro: uneventful_trans[OF uneventful_same uneventful_receiving(3)] uneventful_same simp: set_incoming_def split: prod.splits)
  moreover have "uneventful s (take_chunk e i offset data t s)" for i offset t
    unfolding take_chunk_def Let_def
    by (auto intro: uneventful_receiving(3) uneventful_same simp: set_incoming_def split: prod.splits)
  ultimately show "uneventful s (handle_chunk e addr tid i offset data s)"
    unfolding handle_chunk_def Let_def
    by (auto intro: uneventful_receiving uneventful_same split: option.splits sum.splits prod.splits)
  show "uneventful s (snd (answer_offer e k accept s))"
    unfolding answer_offer_def accept_offer_def decline_offer_def reject_def Let_def
    by (intro uneventful_same) (auto split: prod.splits sum.splits)
  show "uneventful s (handle_offer e dir addr tid filename sz checksum sender s)"
    unfolding handle_offer_def place_offer_def ask_def reject_def Let_def
    by (intro uneventful_same) (auto split: choice.splits sum.splits)
qed


lemma read_file_discard:
  "q \<noteq> part \<Longrightarrow> q \<noteq> meta_path_for part \<Longrightarrow> read_file (discard part f) q = read_file f q"
  by (simp add: read_file_def discard_def)

lemma done_completes:
  assumes "sess_ok Q dir s"
  shows "uneventful s (snd (handle_done e addr tid s)) \<or> (\<exists>t b. dict_get (incoming s) tid = Some t \<and>
    notices (snd (handle_done e addr tid s)) = notices s @ [\<lparr> nt_sent = False, nt_transfer_id = tid, nt_success = True,
      nt_filepath = Some (it_dest_path t), nt_error = None \<rparr>] \<and>
    read_file (files (snd (handle_done e addr tid s))) (it_dest_path t) = Some b \<and>
    sha256_hex b = it_expected_checksum t \<and> int (it_bytes_received t) = it_size t)"
proof (cases "dict_get (incoming s) tid")
  case (Some t)
  have v: "verifying (it_state t) = Inr I_VERIFYING" and id: "it_transfer_id t = tid"
    and part: "it_part_path t = get_part_path (it_dest_path t)"
    using verifying_ok sess_okD(2,3)[OF assms Some] by (simp_all add: in_ok_def)
  have f: "files (drop_incoming i s) = files s" "notices (drop_incoming i s) = notices s" for i
    by (simp_all add: drop_incoming_def)
  show ?thesis
  proof (cases "read_file (files s) (it_part_path t)")
    case None
    then show ?thesis
      using Some v by (simp add: handle_done_def Let_def f uneventful_same)
  next
    case b: (Some b)
    define ok where "ok \<longleftrightarrow> sha256_hex b = it_expected_checksum t \<and> int (it_bytes_received t) = it_size t"
    show ?thesis
    proof (cases "ok \<and> replace_ok e")
      case True
      obtain h where h: "dict_get (names (files s)) (it_part_path t) = Some h" "data_of (files s) h = b"
        using b by (auto simp: read_file_def)
      have "read_file (replace_file (it_part_path t) (it_dest_path t) (files s)) (it_dest_path t) = Some b"
        using h by (simp add: read_file_def)
      then show ?thesis
        using Some v b True h id part unfolding ok_def
        by (simp add: handle_done_def Let_def f finalize_part_file_def exists_file_def notify_complete_def
          read_file_discard get_part_path_def meta_path_for_def)
    next
      case False
      then have "uneventful s (snd (handle_done e addr tid s))"
        using Some v b unfolding ok_def
        by (auto simp: handle_done_def Let_def f uneventful_def notify_complete_def)
      then show ?thesis ..
    qed
  qed
qed (simp add: handle_done_def uneventful_same)

lemma snd_sbind_ret [simp]: "snd (sbind m (\<lambda>_. sret x) s) = snd (m s)"
  by (simp add: sbind_def split: prod.splits sum.splits)

lemma dispatch_completes:
  "uneventful s (snd (dispatch e dir ev s)) \<or> (\<exists>addr tid. ev = FileDone addr tid)"
  by (cases ev) (simp_all add: uneventful_messages uneventful_send_chunks uneventful_handlers)

lemma run_append: "run dir (xs @ ys) s = run dir ys (run dir xs s)"
  by (simp add: run_def)

lemma run_Nil [simp]: "run dir [] s = s"
  by (simp add: run_def)

lemma run_snoc: "run dir (xs @ [(e, ev)]) s = snd (dispatch e dir ev (run dir xs s))"
  by (simp add: run_def)

lemma new_session_ok: "fs_ok dir {} f \<Longrightarrow> sess_ok Q dir (new_session now dir f)"
  using safe_sweep[of dir "{}" f now] by (simp add: sess_ok_def new_session_def handles_def safe_def)

text \<open>The offers made in a run.\<close>

definition offered :: "(env \<times> event) list \<Rightarrow> offer_pred" where
  "offered es tid addr filename sz checksum \<longleftrightarrow>
    (\<exists>sender. FileOffer addr tid filename sz checksum sender \<in> snd ` set es)"

lemma offers_ok: "\<forall>x\<in>set es. offer_ok (offered es) (snd x)"
proof
  fix x
  assume "x \<in> set es"
  then show "offer_ok (offered es) (snd x)"
    by (cases "snd x") (auto simp: offered_def image_iff intro!: exI bexI[of _ x])
qed

lemma run_ok: "fs_ok dir {} f \<Longrightarrow> sess_ok (offered es) dir (run dir es (new_session now dir f))"
  using guarded_run[OF offers_ok] new_session_ok unfolding guarded_def by blast

section \<open>What a peer cannot do\<close>

text \<open>(C5) Confinement. Start a session on a file system and let any events happen: messages of
  any peers with any contents and file names, answers of the user, disconnections, with any clock and any
  failing system calls. A file whose path is not directly inside the downloads directory is as it was.\<close>

theorem downloads_are_confined:
  assumes "fs_ok dir {} f" "\<not> inside dir p"
  shows "read_file (files (run dir es (new_session now dir f))) p = read_file f p"
proof -
  define s where "s = new_session now dir f"
  have ok: "sess_ok (offered es) dir s"
    unfolding s_def by (rule new_session_ok[OF assms(1)])
  then have "read_file (files (run dir es s)) p = read_file (files s) p"
    using guarded_run[OF offers_ok] assms(2) unfolding guarded_def by blast
  moreover have "read_file (files s) p = read_file f p"
    using safe_sweep[of dir "{}" f now] assms by (simp add: safe_def s_def new_session_def)
  ultimately show ?thesis
    by (simp add: s_def)
qed

definition hostile_env :: env where
  "hostile_env = \<lparr> get_peer_device_id = (\<lambda>_. Some ''mallory''), my_device_id = ''me'', my_name = ''me'', env_now = (0, 0),
     free_space = None, realpath = (\<lambda>p. ''/'' @ p), windows = False, send_ok = (\<lambda>_. True), meta_ok = True,
     write_ok = True, sync_ok = True, reopen_ok = True, open_ok = True, replace_ok = True \<rparr>"

theorem downloads_are_confined_witness:
  "read_file (files (run ''dl'' [(hostile_env, FileOffer ''10.0.0.9:1'' ''t'' ''../key'' 0 ''x'' None),
     (hostile_env, UserAnswer 0 True), (hostile_env, FileDone ''10.0.0.9:1'' ''t'')]
     (new_session 0 ''dl'' \<lparr> names = [(''key'', 0)], contents = [(0, [1, 2])], next_handle = 1 \<rparr>))) ''key'' = Some [1, 2]"
proof -
  define f :: fs where "f = \<lparr> names = [(''key'', 0)], contents = [(0, [1, 2])], next_handle = 1 \<rparr>"
  have "fs_ok ''dl'' {} f"
    by (rule fs_okI) (auto simp: f_def split: if_split_asm)
  moreover have "\<not> inside ''dl'' ''key''"
    by (auto simp: inside_def path_join_def split: if_split_asm)
  moreover have "read_file f ''key'' = Some [1, 2]"
    by (simp add: f_def read_file_def data_of_def)
  ultimately show ?thesis
    using downloads_are_confined[of "''dl''" f "''key''"] unfolding f_def by simp
qed


text \<open>(C38) Bounds. At every moment of every run, an incoming transfer was offered with the id it is
  filed under, has received no more bytes than its offer declared and at most two gibibytes, has a sidecar
  position within what it received, and is in one of the states in which chunks are taken.\<close>

theorem incoming_transfers_are_bounded:
  assumes "fs_ok dir {} f" "dict_get (incoming (run dir es (new_session now dir f))) tid = Some t"
  shows "it_transfer_id t = tid \<and> offered es tid (it_addr_key t) (it_filename t) (it_size t) (it_expected_checksum t) \<and>
    it_last_committed t \<le> it_bytes_received t \<and> int (it_bytes_received t) \<le> max 0 (it_size t) \<and>
    it_bytes_received t \<le> 2 ^ 31 \<and> it_state t \<in> {I_ACCEPTED, I_RECEIVING}"
proof -
  have "in_ok (offered es) dir t" "it_transfer_id t = tid"
    using sess_okD(2,3)[OF run_ok[OF assms(1)] assms(2)] by blast+
  then show ?thesis
    by (auto simp: in_ok_def MAX_INCOMING_FILE_SIZE_def)
qed

end
