(* ===== verification/TransferDelivery.thy ===== *)
theory TransferDelivery
  imports TransferSafety
begin

text \<open>
  Two sessions of src/core/transfer/session.py working together: the frames one side sends are the events
  of the other. A file that is offered and accepted arrives byte for byte, also when it resumes a partial
  download, and both sides report it. The last section shows where the session does less than its comments say.
\<close>

section \<open>Chunks on the wire\<close>

lemma file_data_frame:
  assumes "length u = 16" "i < 2 ^ 32" "offset < 2 ^ 64"
  shows "\<exists>p. encode_file_data (uuid_str u) (int i) (int offset) d = Inr p \<and>
    decode_file_data p = Inr \<lparr> fd_transfer_id = uuid_str u, fd_sequence = i, fd_offset = offset, fd_data = d \<rparr>"
proof -
  have b: "i < 256 ^ 4" "offset < 256 ^ 8"
    using assms(2,3) by simp_all
  have e: "encode_file_data (uuid_str u) (int i) (int offset) d = Inr (u @ be_bytes 4 i @ be_bytes 8 offset @ d)"
    using assms by (simp add: encode_file_data_def uuid_bytes_str)
  show ?thesis
    unfolding e using b assms(1) by (simp add: decode_file_data_def HEADER_SIZE_def)
qed

section \<open>The receiver\<close>

text \<open>A transfer of the file \<open>b\<close> whose partial file holds the bytes received so far.\<close>

definition prefix_ok :: "fs \<Rightarrow> string \<Rightarrow> incoming_transfer \<Rightarrow> bytes \<Rightarrow> bool" where
  "prefix_ok f tid t b \<longleftrightarrow> it_transfer_id t = tid \<and>
    it_state t \<in> {I_ACCEPTED, I_RECEIVING} \<and> it_size t = int (length b) \<and> it_expected_checksum t = sha256_hex b \<and>
    it_part_path t = get_part_path (it_dest_path t) \<and>
    dict_get (names f) (it_part_path t) = Some (it_file_handle t) \<and> it_file_handle t < next_handle f \<and>
    it_bytes_received t \<le> length b \<and> data_of f (it_file_handle t) = take (it_bytes_received t) b"

definition holds_prefix :: "xfer \<Rightarrow> string \<Rightarrow> incoming_transfer \<Rightarrow> bytes \<Rightarrow> bool" where
  "holds_prefix s tid t b \<longleftrightarrow> dict_get (incoming s) tid = Some t \<and> prefix_ok (files s) tid t b"

text \<open>A step that sends nothing and reports nothing.\<close>

definition says_same :: "xfer \<Rightarrow> xfer \<Rightarrow> bool" where
  "says_same s s' \<longleftrightarrow> outbox s' = outbox s \<and> notices s' = notices s"

lemma record_meta_keeps:
  assumes "dict_get (names f) (it_part_path t) = Some h" "h < next_handle f"
  shows "dict_get (names (record_meta e dev k t f)) (it_part_path t) = Some h"
    "h < next_handle (record_meta e dev k t f)" "data_of (record_meta e dev k t f) h = data_of f h"
proof -
  have "meta_path_for (it_part_path t) \<noteq> it_part_path t"
    by (simp add: meta_path_for_def META_SUFFIX_def)
  then show "dict_get (names (record_meta e dev k t f)) (it_part_path t) = Some h"
    "h < next_handle (record_meta e dev k t f)" "data_of (record_meta e dev k t f) h = data_of f h"
    using assms by (auto simp: record_meta_def write_meta_def Let_def split: option.splits)
qed

lemma checkpoint_keeps:
  assumes "checkpoint_incoming e t f = (t', g)" "dict_get (names f) (it_part_path t) = Some h" "h < next_handle f"
  shows "dict_get (names g) (it_part_path t) = Some h" "h < next_handle g" "data_of g h = data_of f h"
    "\<exists>c. t' = t\<lparr> it_last_committed := c \<rparr>"
  using assms record_meta_keeps[OF assms(2,3)]
  by (auto simp: checkpoint_incoming_def split: option.splits if_split_asm intro: exI[of _ "it_last_committed t"])

lemma take_chunk_prefix:
  assumes h: "prefix_ok (files s) tid t b" and ok: "write_ok e"
    and c: "c = take n (drop (it_bytes_received t) b)"
  shows "\<exists>k. holds_prefix (take_chunk e (it_expected_chunk_index t) (it_bytes_received t) c t s) tid
    (t\<lparr> it_bytes_received := it_bytes_received t + length c, it_expected_chunk_index := Suc (it_expected_chunk_index t),
       it_last_committed := k \<rparr>) b \<and> says_same s (take_chunk e (it_expected_chunk_index t) (it_bytes_received t) c t s)"
proof -
  define f where "f = write_data (it_file_handle t) (it_bytes_received t) c (files s)"
  define t1 where "t1 = t\<lparr> it_bytes_received := it_bytes_received t + length c,
    it_expected_chunk_index := Suc (it_expected_chunk_index t) \<rparr>"
  define r where "r = (if it_bytes_received t1 \<ge> it_last_committed t1 + COMMIT_INTERVAL
    then checkpoint_incoming e t1 f else (t1, f))"
  obtain t2 f2 where r2: "r = (t2, f2)"
    by (cases r)
  have size: "it_bytes_received t + length c \<le> length b"
    using h by (auto simp: c prefix_ok_def min_def)
  have "data_of f (it_file_handle t) = take (it_bytes_received t) b @ c"
    using h by (simp add: f_def prefix_ok_def)
  also have "\<dots> = take (it_bytes_received t1) b"
    by (simp add: t1_def c take_add min_def)
  finally have data: "data_of f (it_file_handle t) = take (it_bytes_received t1) b" .
  have f: "dict_get (names f) (it_part_path t1) = Some (it_file_handle t)" "it_file_handle t < next_handle f"
    using h by (auto simp: f_def t1_def prefix_ok_def)
  have "\<exists>k. t2 = t1\<lparr> it_last_committed := k \<rparr> \<and> dict_get (names f2) (it_part_path t1) = Some (it_file_handle t) \<and>
    it_file_handle t < next_handle f2 \<and> data_of f2 (it_file_handle t) = data_of f (it_file_handle t)"
  proof (cases "it_bytes_received t1 \<ge> it_last_committed t1 + COMMIT_INTERVAL")
    case True
    then show ?thesis
      using checkpoint_keeps[OF _ f, of e t2 f2] r2 by (auto simp: r_def)
  next
    case False
    then show ?thesis
      using r2 f by (intro exI[of _ "it_last_committed t1"]) (auto simp: r_def)
  qed
  then obtain k where k: "t2 = t1\<lparr> it_last_committed := k \<rparr>" "dict_get (names f2) (it_part_path t1) = Some (it_file_handle t)"
    "it_file_handle t < next_handle f2" "data_of f2 (it_file_handle t) = take (it_bytes_received t1) b"
    using data by auto
  have "take_chunk e (it_expected_chunk_index t) (it_bytes_received t) c t s = set_incoming t2 (s\<lparr> files := f2 \<rparr>)"
    unfolding take_chunk_def Let_def f_def[symmetric] t1_def[symmetric] r_def[symmetric] r2
    using ok size h by (simp add: prefix_ok_def)
  then show ?thesis
    using h size k by (intro exI[of _ k]) (simp add: holds_prefix_def prefix_ok_def set_incoming_def t1_def says_same_def)
qed

lemma handle_chunk_prefix:
  assumes h: "holds_prefix s tid t b" and ok: "write_ok e" and c: "c = take n (drop (it_bytes_received t) b)"
  shows "\<exists>t'. holds_prefix (handle_chunk e addr tid (it_expected_chunk_index t) (it_bytes_received t) c s) tid t' b \<and>
    it_bytes_received t' = it_bytes_received t + length c \<and> it_expected_chunk_index t' = Suc (it_expected_chunk_index t) \<and>
    it_dest_path t' = it_dest_path t \<and>
    says_same s (handle_chunk e addr tid (it_expected_chunk_index t) (it_bytes_received t) c s)"
proof -
  define t0 where "t0 = t\<lparr> it_state := I_RECEIVING, it_first_chunk_received := True \<rparr>"
  have "in_to (it_state t) I_RECEIVING = Inr I_RECEIVING"
    using h by (auto simp: receiving_iff holds_prefix_def prefix_ok_def)
  then have eq: "handle_chunk e addr tid (it_expected_chunk_index t) (it_bytes_received t) c s =
      take_chunk e (it_expected_chunk_index t0) (it_bytes_received t0) c t0 s"
    using h by (simp add: handle_chunk_def holds_prefix_def t0_def)
  have "prefix_ok (files s) tid t0 b"
    using h by (auto simp: holds_prefix_def prefix_ok_def t0_def)
  then show ?thesis
    using take_chunk_prefix[OF _ ok, of s tid t0 b c n] c unfolding eq by (fastforce simp: t0_def)
qed

text \<open>The events of the chunks, fed in the order the sender reads them.\<close>

definition chunk_events :: "env \<Rightarrow> string \<Rightarrow> string \<Rightarrow> (nat \<times> nat \<times> bytes) list \<Rightarrow> (env \<times> event) list" where
  "chunk_events e addr tid cs = map (\<lambda>(i, offset, c). (e, FileData addr tid i offset c)) cs"

lemma feed_chunks:
  assumes "write_ok e" "0 < n" "holds_prefix s tid t b"
    "i = it_expected_chunk_index t" "offset = it_bytes_received t" "rest = drop offset b"
  shows "\<exists>t'. holds_prefix (run dir (chunk_events e addr tid (chunk_loop n i offset rest)) s) tid t' b \<and>
    it_bytes_received t' = length b \<and> it_dest_path t' = it_dest_path t \<and>
    says_same s (run dir (chunk_events e addr tid (chunk_loop n i offset rest)) s)"
  using assms
proof (induction n i offset rest arbitrary: s t rule: chunk_loop.induct)
  case (1 n i offset rest)
  show ?case
  proof (cases "take n rest = []")
    case True
    then have "offset = length b"
      using "1.prems" by (simp add: holds_prefix_def prefix_ok_def)
    then show ?thesis
      using True "1.prems" by (subst (1 2) chunk_loop.simps) (auto simp: chunk_events_def says_same_def)
  next
    case False
    define c where "c = take n rest"
    obtain t' where t': "holds_prefix (handle_chunk e addr tid i offset c s) tid t' b"
      "it_bytes_received t' = offset + length c" "it_expected_chunk_index t' = Suc i" "it_dest_path t' = it_dest_path t"
      "says_same s (handle_chunk e addr tid i offset c s)"
      using handle_chunk_prefix[OF "1.prems"(3) "1.prems"(1), of c n addr] "1.prems"(4-6) by (auto simp: c_def)
    have "offset + length c \<le> length b \<Longrightarrow> drop n rest = drop (offset + length c) b"
      using "1.prems"(6) by (cases "length rest \<le> n") (auto simp: c_def add.commute min_def)
    moreover have "offset + length c \<le> length b"
      using t'(1,2) by (simp add: holds_prefix_def prefix_ok_def)
    ultimately obtain t2 where t2: "holds_prefix (run dir (chunk_events e addr tid (chunk_loop n (Suc i) (offset + length c) (drop n rest)))
        (handle_chunk e addr tid i offset c s)) tid t2 b" "it_bytes_received t2 = length b" "it_dest_path t2 = it_dest_path t'"
      "says_same (handle_chunk e addr tid i offset c s) (run dir (chunk_events e addr tid
        (chunk_loop n (Suc i) (offset + length c) (drop n rest))) (handle_chunk e addr tid i offset c s))"
      using "1.IH"[OF c_def _ "1.prems"(1,2) t'(1)] t'(2,3) False by (auto simp: c_def)
    have "run dir (chunk_events e addr tid (chunk_loop n i offset rest)) s =
      run dir (chunk_events e addr tid (chunk_loop n (Suc i) (offset + length c) (drop n rest))) (handle_chunk e addr tid i offset c s)"
      using False by (subst chunk_loop.simps) (simp add: chunk_events_def run_def c_def)
    then show ?thesis
      using t2 t'(4,5) by (auto simp: says_same_def)
  qed
qed

lemma done_delivers:
  assumes "holds_prefix s tid t b" "it_bytes_received t = length b" "replace_ok e"
  shows "read_file (files (snd (handle_done e addr tid s))) (it_dest_path t) = Some b"
    "fst (handle_done e addr tid s) = Inr ()"
    "notices (snd (handle_done e addr tid s)) = notices s @ [\<lparr> nt_sent = False, nt_transfer_id = tid, nt_success = True,
      nt_filepath = Some (it_dest_path t), nt_error = None \<rparr>]"
    "send_ok e addr \<Longrightarrow>
      outbox (snd (handle_done e addr tid s)) = outbox s @ [(addr, Message (make_file_complete_ack tid True []))]"
proof -
  have h: "dict_get (incoming s) tid = Some t" "it_transfer_id t = tid" "it_size t = int (length b)"
    "it_expected_checksum t = sha256_hex b" "it_part_path t = get_part_path (it_dest_path t)"
    "dict_get (names (files s)) (it_part_path t) = Some (it_file_handle t)"
    and b: "data_of (files s) (it_file_handle t) = b"
    using assms(1,2) by (auto simp: holds_prefix_def prefix_ok_def)
  have v: "verifying (it_state t) = Inr I_VERIFYING"
    using assms(1) verifying_ok by (simp add: holds_prefix_def prefix_ok_def)
  have f: "files (drop_incoming i s) = files s" "notices (drop_incoming i s) = notices s" "outbox (drop_incoming i s) = outbox s" for i
    by (simp_all add: drop_incoming_def)
  have r: "read_file (files s) (it_part_path t) = Some b" "exists_file (files s) (it_part_path t)"
    using h(6) b by (simp_all add: read_file_def exists_file_def)
  have "read_file (replace_file (it_part_path t) (it_dest_path t) (files s)) (it_dest_path t) = Some b"
    using h(6) b by (simp add: read_file_def)
  then show "read_file (files (snd (handle_done e addr tid s))) (it_dest_path t) = Some b"
    using r v h(1-4) assms(2,3) by (simp add: handle_done_def Let_def f finalize_part_file_def)
      (simp add: h(5) read_file_discard get_part_path_def meta_path_for_def)
  show "fst (handle_done e addr tid s) = Inr ()"
    "notices (snd (handle_done e addr tid s)) = notices s @ [\<lparr> nt_sent = False, nt_transfer_id = tid, nt_success = True,
      nt_filepath = Some (it_dest_path t), nt_error = None \<rparr>]"
    "send_ok e addr \<Longrightarrow>
      outbox (snd (handle_done e addr tid s)) = outbox s @ [(addr, Message (make_file_complete_ack tid True []))]"
    using r v h(1-4) assms(2,3)
    by (simp_all add: handle_done_def Let_def f finalize_part_file_def notify_complete_def transmit_def)
qed

section \<open>The sender\<close>

definition steps :: "env \<Rightarrow> string \<Rightarrow> nat \<Rightarrow> (env \<times> event) list" where
  "steps e tid k = replicate k (e, TaskStep False tid)"

lemma run_steps: "run dir (steps e tid (Suc k)) s = run dir (steps e tid k) (snd (send_chunks e False tid s))"
  by (simp add: steps_def run_def)

text \<open>The frames of the chunks.\<close>

definition chunk_frames :: "string \<Rightarrow> string \<Rightarrow> (nat \<times> nat \<times> bytes) list \<Rightarrow> (string \<times> out_frame) list" where
  "chunk_frames addr tid cs = map (\<lambda>(i, offset, c). case encode_file_data tid (int i) (int offset) c of
     Inr p \<Rightarrow> (addr, Binary p) | Inl _ \<Rightarrow> (addr, Binary [])) cs"

lemma stream_file:
  assumes "send_ok e (ot_addr_key t)" "n = CHUNK_SIZE" "length u = 16" "tid = uuid_str u"
    "dict_get (tasks s) tid = Some (Streaming h i offset)" "dict_get (transfers s) tid = Some t"
    "ot_state t = O_SENDING" "rest = drop offset (data_of (files s) h)"
    "i + length rest < 2 ^ 32" "offset + length rest < 2 ^ 64"
  shows "run dir (steps e tid (Suc (length (chunk_loop n i offset rest)))) s =
    s\<lparr> outbox := outbox s @ chunk_frames (ot_addr_key t) tid (chunk_loop n i offset rest) @
         [(ot_addr_key t, Message (make_file_done tid (ot_checksum t)))],
       tasks := dict_set tid DoneSent (tasks s) \<rparr>"
  using assms
proof (induction n i offset rest arbitrary: s rule: chunk_loop.induct)
  case (1 n i offset rest)
  show ?case
  proof (cases "take n rest = []")
    case True
    then show ?thesis
      using "1.prems" by (subst (1 2) chunk_loop.simps)
        (simp add: send_chunks_def stream_chunk_def Let_def transmit_def set_phase_def chunk_frames_def steps_def run_def)
  next
    case False
    define c where "c = take n rest"
    have pos: "0 < length c" "length c \<le> length rest"
      using False by (auto simp: c_def)
    obtain p where p: "encode_file_data tid (int i) (int offset) c = Inr p"
      using file_data_frame[of u i offset c] "1.prems"(3,4,9,10) by auto
    define s1 where "s1 = s\<lparr> outbox := outbox s @ [(ot_addr_key t, Binary p)],
      tasks := dict_set tid (Streaming h (Suc i) (offset + length c)) (tasks s) \<rparr>"
    have step: "snd (send_chunks e False tid s) = s1"
      using "1.prems"(1,2,5,6,7) "1.prems"(8)[symmetric] False p
      by (simp add: send_chunks_def stream_chunk_def Let_def transmit_def set_phase_def s1_def c_def)
    have rest: "drop n rest = drop (offset + length c) (data_of (files s1) h)"
      using "1.prems"(8) by (cases "length rest \<le> n") (auto simp: c_def s1_def add.commute min_def)
    have len: "length (drop n rest) + length c = length rest"
      by (simp add: c_def)
    have cs: "chunk_loop n i offset rest = (i, offset, c) # chunk_loop n (Suc i) (offset + length c) (drop n rest)"
      using False by (subst chunk_loop.simps) (simp add: c_def)
    have "run dir (steps e tid (Suc (length (chunk_loop n (Suc i) (offset + length c) (drop n rest))))) s1 =
      s1\<lparr> outbox := outbox s1 @ chunk_frames (ot_addr_key t) tid (chunk_loop n (Suc i) (offset + length c) (drop n rest)) @
            [(ot_addr_key t, Message (make_file_done tid (ot_checksum t)))],
          tasks := dict_set tid DoneSent (tasks s1) \<rparr>"
    proof (rule "1.IH"[OF c_def])
      show "Suc i + length (drop n rest) < 2 ^ 32" "offset + length c + length (drop n rest) < 2 ^ 64"
        using "1.prems"(9,10) len pos by linarith+
    qed (use False "1.prems" rest in \<open>simp_all add: c_def s1_def\<close>)
    then show ?thesis
      by (simp add: cs run_steps step s1_def chunk_frames_def p update_swap)
  qed
qed

section \<open>Frames and events\<close>

definition new_frames :: "xfer \<Rightarrow> xfer \<Rightarrow> (string \<times> out_frame) list" where
  "new_frames s s' = drop (length (outbox s)) (outbox s')"

text \<open>The frames one side sent, as the events the other side meets.\<close>

definition deliver :: "env \<Rightarrow> string \<Rightarrow> (string \<times> out_frame) list \<Rightarrow> (env \<times> event) list" where
  "deliver e addr frames = map (Pair e) (List.map_filter (\<lambda>x. event_of addr (snd x)) frames)"

lemma deliver_simps [simp]:
  "deliver e addr [] = []"
  "deliver e addr ((a, m) # fs) = (case event_of addr m of Some ev \<Rightarrow> [(e, ev)] | None \<Rightarrow> []) @ deliver e addr fs"
  "deliver e addr (fs @ gs) = deliver e addr fs @ deliver e addr gs"
  by (simp_all add: deliver_def map_filter_def split: option.split)

lemma chunk_loop_bounds:
  "(j, k, c) \<in> set (chunk_loop n i offset rest) \<Longrightarrow> j < i + length rest \<and> k < offset + length rest"
proof (induction n i offset rest rule: chunk_loop.induct)
  case (1 n i offset rest)
  have cs: "chunk_loop n i offset rest = (if take n rest = [] then [] else
      (i, offset, take n rest) # chunk_loop n (Suc i) (offset + length (take n rest)) (drop n rest))"
    by (subst chunk_loop.simps) (simp add: Let_def)
  show ?case
  proof (cases "take n rest = []")
    case False
    then have "0 < length rest" "0 < n"
      by auto
    then show ?thesis
      using "1.IH"[OF refl False] "1.prems" unfolding cs by (auto simp: min_def split: if_split_asm) (cases rest; simp)
  qed (use "1.prems" in \<open>simp add: cs\<close>)
qed

lemma chunk_loop_Nil [simp]: "chunk_loop n i offset [] = []"
  by (subst chunk_loop.simps) simp

lemma chunk_loop_count: "0 < n \<Longrightarrow> length (chunk_loop n i offset rest) * n < length rest + n"
proof (induction n i offset rest rule: chunk_loop.induct)
  case (1 n i offset rest)
  have cs: "chunk_loop n i offset rest = (if take n rest = [] then [] else
      (i, offset, take n rest) # chunk_loop n (Suc i) (offset + length (take n rest)) (drop n rest))"
    by (subst chunk_loop.simps) (simp add: Let_def)
  show ?case
  proof (cases "take n rest = []")
    case False
    define m where "m = length (chunk_loop n (Suc i) (offset + length (take n rest)) (drop n rest))"
    have m: "m * n < length rest - n + n"
      using "1.IH"[OF refl False "1.prems"] by (simp add: m_def)
    have "m = 0 \<or> n \<le> length rest"
      using m by (cases "n \<le> length rest") (auto simp: m_def chunk_loop.simps)
    moreover have "length (chunk_loop n i offset rest) = Suc m"
      using False by (simp add: cs m_def)
    ultimately show ?thesis
      using m False "1.prems" by auto
  qed (use "1.prems" in \<open>simp add: cs\<close>)
qed

lemma deliver_chunks:
  assumes "length u = 16" "\<forall>(i, k, c) \<in> set cs. i < 2 ^ 32 \<and> k < 2 ^ 64"
  shows "deliver e addr (chunk_frames a (uuid_str u) cs) = chunk_events e addr (uuid_str u) cs"
  using assms(2)
proof (induction cs)
  case (Cons x cs)
  obtain i k c where x: "x = (i, k, c)"
    by (cases x)
  obtain p where p: "encode_file_data (uuid_str u) (int i) (int k) c = Inr p"
    "decode_file_data p = Inr \<lparr> fd_transfer_id = uuid_str u, fd_sequence = i, fd_offset = k, fd_data = c \<rparr>"
    using file_data_frame[OF assms(1), of i k c] Cons.prems x by auto
  then show ?case
    using Cons by (simp add: chunk_frames_def chunk_events_def x)
qed (simp add: chunk_frames_def chunk_events_def)

lemma event_of_offer:
  "event_of addr (Message (make_file_offer now tid sid name filename sz checksum)) =
    Some (FileOffer addr tid filename sz checksum (Some name))"
  by (simp add: make_file_offer_def message_event_def)

lemma event_of_accept:
  "make_file_accept now tid (int k) = Inr m \<Longrightarrow>
    event_of addr (Message m) = Some (FileAccept addr tid (if k = 0 then None else Some (JInt (int k))))"
  by (auto simp: make_file_accept_def message_event_def split: if_split_asm)

lemma event_of_done: "event_of addr (Message (make_file_done tid checksum)) = Some (FileDone addr tid)"
  by (simp add: make_file_done_def message_event_def)

lemma event_of_ack:
  "event_of addr (Message (make_file_complete_ack tid ok detail)) = Some (FileCompleteAck addr tid (Some (JBool ok)))"
  by (simp add: make_file_complete_ack_def message_event_def)

section \<open>A whole transfer\<close>

lemma valid_offset:
  "CHUNK_SIZE dvd k \<Longrightarrow> k \<le> n \<Longrightarrow> accepted_offset (if k = 0 then None else Some (JInt (int k))) (int n) = k"
  by (auto simp: accepted_offset_def is_valid_resume_offset_def zmod_int[symmetric] Let_def dvd_eq_mod_eq_0)

text \<open>The sender, from the acceptance to the wait for the acknowledgement.\<close>

lemma sender_sends:
  assumes t: "dict_get (transfers s) tid = Some t" "tid \<in> set (outgoing s)" "ot_state t = O_WAITING_FOR_ACCEPT"
    "ot_size t = int (length b)"
    and f: "dict_get (names (files s)) (ot_filepath t) = Some h" "data_of (files s) h = b" "int (length b) \<le> MAX_INCOMING_FILE_SIZE"
    and e: "send_ok e (ot_addr_key t)" "tid = uuid_str u" "length u = 16" "CHUNK_SIZE dvd k" "k \<le> length b"
    and cs: "cs = chunk_loop CHUNK_SIZE (k div CHUNK_SIZE) k (drop k b)"
    and s1: "s1 = handle_accept e addr tid (if k = 0 then None else Some (JInt (int k))) s"
  shows "outbox (run dir (steps e tid (length cs + 3)) s1) = outbox s @ chunk_frames (ot_addr_key t) tid cs @
      [(ot_addr_key t, Message (make_file_done tid (ot_checksum t)))]"
    "dict_get (transfers (run dir (steps e tid (length cs + 3)) s1)) tid =
      Some (t\<lparr> ot_resume_offset := k, ot_state := O_WAITING_FOR_COMPLETE_ACK \<rparr>)"
    "dict_get (tasks (run dir (steps e tid (length cs + 3)) s1)) tid = Some AwaitingAck"
    "outgoing (run dir (steps e tid (length cs + 3)) s1) = outgoing s"
    "notices (run dir (steps e tid (length cs + 3)) s1) = notices s"
proof -
  define t1 where "t1 = t\<lparr> ot_resume_offset := k, ot_state := O_SENDING \<rparr>"
  have s1': "s1 = s\<lparr> transfers := dict_set tid t1 (transfers s), tasks := dict_set tid Starting (tasks s) \<rparr>"
    using t valid_offset[OF e(4,5)] by (simp add: s1 handle_accept_def find_outgoing_def transfer_transition_to_def t1_def)
  define s2 where "s2 = s1\<lparr> tasks := dict_set tid (Streaming h (k div CHUNK_SIZE) k) (tasks s1) \<rparr>"
  have step1: "snd (send_chunks e False tid s1) = s2"
    using f(1,2) e(5) by (simp add: send_chunks_def start_stream_def set_phase_def s1' s2_def t1_def)
  define s3 where "s3 = s2\<lparr> outbox := outbox s2 @ chunk_frames (ot_addr_key t1) tid cs @
       [(ot_addr_key t1, Message (make_file_done tid (ot_checksum t1)))], tasks := dict_set tid DoneSent (tasks s2) \<rparr>"
  have len: "length b \<le> 2147483648"
    using f(3) by (simp add: MAX_INCOMING_FILE_SIZE_def)
  have total: "k + length (drop k b) \<le> 2147483648"
    using len e(5) by simp
  have "k div CHUNK_SIZE + length (drop k b) \<le> k + length (drop k b)"
    by (intro add_right_mono div_le_dividend)
  also have "\<dots> < 2 ^ 32"
    using total by (simp del: length_drop)
  finally have bounds: "k div CHUNK_SIZE + length (drop k b) < 2 ^ 32" "k + length (drop k b) < 2 ^ 64"
    using total by (simp_all del: length_drop)
  have "run dir (steps e tid (Suc (length cs))) s2 = s3"
    unfolding cs s3_def
    by (rule stream_file[OF _ refl e(3,2), where h = h]) (use e(1) f(2) bounds in \<open>simp_all add: s2_def s1' t1_def\<close>)
  moreover have "steps e tid (length cs + 3) = steps e tid 1 @ steps e tid (Suc (length cs)) @ steps e tid 1"
    by (simp add: steps_def eval_nat_numeral replicate_append_same)
  moreover have "run dir (steps e tid 1) s1 = s2"
    using step1 by (simp add: steps_def run_def)
  ultimately have run: "run dir (steps e tid (length cs + 3)) s1 = snd (send_chunks e False tid s3)"
    by (simp add: run_append) (simp add: steps_def run_def)
  have "snd (send_chunks e False tid s3) = s3\<lparr> transfers := dict_set tid (t1\<lparr> ot_state := O_WAITING_FOR_COMPLETE_ACK \<rparr>) (transfers s3),
      tasks := dict_set tid AwaitingAck (tasks s3) \<rparr>"
    by (simp add: send_chunks_def s3_def s2_def s1' await_ack_def transfer_transition_to_def t1_def set_phase_def)
  then show "outbox (run dir (steps e tid (length cs + 3)) s1) = outbox s @ chunk_frames (ot_addr_key t) tid cs @
      [(ot_addr_key t, Message (make_file_done tid (ot_checksum t)))]"
    "dict_get (transfers (run dir (steps e tid (length cs + 3)) s1)) tid =
      Some (t\<lparr> ot_resume_offset := k, ot_state := O_WAITING_FOR_COMPLETE_ACK \<rparr>)"
    "dict_get (tasks (run dir (steps e tid (length cs + 3)) s1)) tid = Some AwaitingAck"
    "outgoing (run dir (steps e tid (length cs + 3)) s1) = outgoing s"
    "notices (run dir (steps e tid (length cs + 3)) s1) = notices s"
    unfolding run by (simp_all add: s3_def s2_def s1' t1_def)
qed

lemma sender_concludes:
  assumes "dict_get (transfers s) tid = Some t" "tid \<in> set (outgoing s)" "ot_state t = O_WAITING_FOR_COMPLETE_ACK"
    "dict_get (tasks s) tid = Some AwaitingAck"
    and s': "s' = run dir (steps e tid 1) (handle_complete_ack tid (Some (JBool True)) s)"
  shows "map_option ot_state (dict_get (transfers s') tid) = Some O_COMPLETED"
    "notices s' = notices s @ [\<lparr> nt_sent = True, nt_transfer_id = tid, nt_success = True,
       nt_filepath = Some (ot_filepath t), nt_error = None \<rparr>]"
  using assms(1-4) unfolding s'
  by (simp_all add: steps_def run_def handle_complete_ack_def find_outgoing_def send_chunks_def conclude_def Let_def
    finish_task_def notify_complete_def)

text \<open>The receiver, from the offer to the acceptance.\<close>

lemma choose_partial_offset:
  assumes "choose_partial e dir peer filename sz checksum s = Resume info offset"
  shows "CHUNK_SIZE dvd offset \<and> 0 < offset \<and> (\<exists>d. read_file (files s) (pi_part_path info) = Some d \<and> offset \<le> length d)"
proof -
  obtain dev where f: "find_resumable (files s) dir dev filename sz checksum = Some info"
    and off: "offset = resume_offset_for (files s) info CHUNK_SIZE" "0 < offset"
    using assms unfolding choose_partial_def Let_def by (simp split: option.split_asm if_split_asm)
  obtain d where d: "read_file (files s) (pi_part_path info) = Some d"
    using find_resumableD[OF f] by (auto simp: exists_file_def read_file_def)
  show ?thesis
    using resume_offset_bounds[of info CHUNK_SIZE "files s"] find_resumableD[OF f] off d
    by (auto simp: CHUNK_SIZE_def DEFAULT_CHUNK_SIZE_def)
qed

lemma asked_offer:
  assumes "pending (handle_offer e dir addr tid filename sz checksum sender s) = pending s @ [p]"
  shows "po_transfer_id p = tid \<and> po_addr_key p = addr \<and> po_size p = sz \<and> po_checksum p = checksum \<and>
    CHUNK_SIZE dvd po_resume_offset p \<and> po_part_path p = get_part_path (po_dest_path p) \<and>
    int (po_resume_offset p) \<le> max 0 sz \<and> inside dir (po_part_path p) \<and>
    (0 < po_resume_offset p \<longrightarrow> (\<exists>d. read_file (files (handle_offer e dir addr tid filename sz checksum sender s))
       (po_part_path p) = Some d \<and> po_resume_offset p \<le> length d))"
proof -
  define u where "u = s\<lparr> files := sweep_expired (time_of (env_now e)) dir (files s) \<rparr>"
  define q where "q = \<lparr> po_transfer_id = tid, po_addr_key = addr, po_filename = filename, po_size = sz,
    po_checksum = checksum, po_sender_name = (case non_empty sender of Some n \<Rightarrow> n | None \<Rightarrow> ''peer''),
    po_dest_path = [], po_part_path = [], po_peer_device_id = non_empty (get_peer_device_id e addr),
    po_resume_offset = 0, po_partial = False \<rparr>"
  have rej: "pending (reject e a i x) = pending x" for a i x
    by (simp add: reject_def)
  have asked: "q' = p \<and> files (ask e q' x) = files x" if "pending (ask e q' x) = pending x @ [p]" for q' x
    using that by (auto simp: ask_def rej split: if_split_asm)
  have u: "pending u = pending s"
    by (simp add: u_def)
  have eq: "handle_offer e dir addr tid filename sz checksum sender s = place_offer e dir q u"
    using assms u unfolding handle_offer_def Let_def u_def[symmetric] q_def[symmetric] by (auto simp: rej split: if_split_asm)
  note placed = assms[unfolded eq, folded u]
  show ?thesis
  proof (cases "choose_partial e dir (po_peer_device_id q) (po_filename q) (po_size q) (po_checksum q) u")
    case Busy
    then show ?thesis
      using placed unfolding eq by (simp add: place_offer_def rej)
  next
    case (Resume info offset)
    then show ?thesis
      using placed choose_partial_offset[OF Resume] choose_partial_resume[OF Resume] inside_part
      unfolding eq by (auto simp: place_offer_def q_def dest!: asked)
  next
    case (Fresh f)
    show ?thesis
    proof (cases "resolve_safe_dest_path (realpath e) (windows e) f False (po_filename q) dir")
      case (Inl x)
      then show ?thesis
        using placed Fresh unfolding eq by (simp add: place_offer_def rej)
    next
      case (Inr dest)
      have "q\<lparr> po_dest_path := dest, po_part_path := get_part_path dest \<rparr> = p"
        using asked[of "q\<lparr> po_dest_path := dest, po_part_path := get_part_path dest \<rparr>" "u\<lparr> files := f \<rparr>"] placed Fresh Inr
        by (simp add: place_offer_def)
      then show ?thesis
        using resolve_safe_dest_path_spec[OF Inr] inside_part by (auto simp: q_def)
    qed
  qed
qed

lemma accepted_offer:
  assumes ok: "fs_ok dir H (files s)" and p: "inside dir (po_part_path p)" "po_part_path p = get_part_path (po_dest_path p)"
    "po_size p = int (length b)" "po_checksum p = sha256_hex b" "po_resume_offset p \<le> length b" "CHUNK_SIZE dvd po_resume_offset p"
    and pre: "0 < po_resume_offset p \<longrightarrow> (\<exists>d. read_file (files s) (po_part_path p) = Some d \<and>
      po_resume_offset p \<le> length d \<and> take (po_resume_offset p) d = take (po_resume_offset p) b)"
    and e: "open_ok e" "send_ok e (po_addr_key p)"
    and s': "s' = snd (accept_offer e p s)"
  shows "\<exists>t m. holds_prefix s' (po_transfer_id p) t b \<and> it_dest_path t = po_dest_path p \<and>
    CHUNK_SIZE dvd it_bytes_received t \<and> it_expected_chunk_index t = it_bytes_received t div CHUNK_SIZE \<and>
    make_file_accept (env_now e) (po_transfer_id p) (int (it_bytes_received t)) = Inr m \<and>
    outbox s' = outbox s @ [(po_addr_key p, Message m)]"
proof -
  define part where "part = po_part_path p"
  have "\<exists>r h g g'. open_part e part (po_resume_offset p) (files s) = (Inr (r, h, g), g') \<and> r \<in> {0, po_resume_offset p} \<and>
      dict_get (names g) part = Some h \<and> h < next_handle g \<and> data_of g h = take r b"
  proof (cases "if po_resume_offset p > 0 \<and> reopen_ok e then dict_get (names (files s)) part else None")
    case (Some h)
    then have h: "dict_get (names (files s)) part = Some h" "0 < po_resume_offset p"
      by (auto split: if_split_asm)
    then have "po_resume_offset p \<le> length (data_of (files s) h)" "take (po_resume_offset p) (data_of (files s) h) = take (po_resume_offset p) b"
      using pre by (auto simp: part_def read_file_def)
    then show ?thesis
      using Some h fs_okD(1)[OF ok h(1)] by (simp add: open_part_def Let_def)
  next
    case None
    have "dict_get (names (discard part (files s))) part = None"
      by (simp add: discard_def)
    then show ?thesis
      using None e(1) by (simp add: open_part_def start_over_def Let_def open_wb_new)
  qed
  then obtain r h g g' where o: "open_part e part (po_resume_offset p) (files s) = (Inr (r, h, g), g')" "r \<in> {0, po_resume_offset p}"
    and g: "dict_get (names g) part = Some h" "h < next_handle g" "data_of g h = take r b"
    by blast
  define t where "t = new_incoming p r h"
  define t' where "t' = t\<lparr> it_state := I_ACCEPTED \<rparr>"
  define f where "f = record_meta e (po_peer_device_id p) r t g"
  obtain m where m: "make_file_accept (env_now e) (po_transfer_id p) (int r) = Inr m"
    by (simp add: make_file_accept_def)
  have f: "dict_get (names f) part = Some h" "h < next_handle f" "data_of f h = take r b"
    using record_meta_keeps[of g t h] g by (simp_all add: f_def t_def new_incoming_def part_def)
  have "s' = s\<lparr> files := f, incoming := dict_set (po_transfer_id p) t' (incoming s),
      outbox := outbox s @ [(po_addr_key p, Message m)] \<rparr>"
    using o(1) m e(2) unfolding part_def
    by (simp add: s' accept_offer_def Let_def t'_def t_def f_def new_incoming_def transfer_transition_to_def transmit_def)
  moreover have "prefix_ok f (po_transfer_id p) t' b"
    using f p o(2) by (auto simp: prefix_ok_def t'_def t_def new_incoming_def part_def)
  ultimately show ?thesis
    using o(2) p(6) m
    by (intro exI[of _ t'] exI[of _ m]) (auto simp: holds_prefix_def t'_def t_def new_incoming_def)
qed

lemma deliver_file:
  assumes h: "holds_prefix s tid t b" "it_expected_chunk_index t = it_bytes_received t div CHUNK_SIZE"
    and e: "write_ok e" "replace_ok e" "send_ok e addr" and u: "tid = uuid_str u" "length u = 16" "int (length b) \<le> MAX_INCOMING_FILE_SIZE"
    and cs: "cs = chunk_loop CHUNK_SIZE (it_bytes_received t div CHUNK_SIZE) (it_bytes_received t) (drop (it_bytes_received t) b)"
    and s': "s' = run dir (deliver e addr (chunk_frames a tid cs @ [(a, Message (make_file_done tid c))])) s"
  shows "read_file (files s') (it_dest_path t) = Some b"
    "notices s' = notices s @ [\<lparr> nt_sent = False, nt_transfer_id = tid, nt_success = True,
      nt_filepath = Some (it_dest_path t), nt_error = None \<rparr>]"
    "outbox s' = outbox s @ [(addr, Message (make_file_complete_ack tid True []))]"
proof -
  have len: "it_bytes_received t \<le> length b" "length b \<le> 2147483648"
    using h(1) u(3) by (simp_all add: holds_prefix_def prefix_ok_def MAX_INCOMING_FILE_SIZE_def)
  have "i < 2 ^ 32 \<and> k < 2 ^ 64" if "(i, k, d) \<in> set cs" for i k d
  proof -
    note chunk_loop_bounds[OF that[unfolded cs]]
    moreover have "it_bytes_received t div CHUNK_SIZE + length (drop (it_bytes_received t) b) \<le>
        it_bytes_received t + length (drop (it_bytes_received t) b)"
      by (intro add_right_mono div_le_dividend)
    moreover have "it_bytes_received t + length (drop (it_bytes_received t) b) \<le> 2147483648"
      using len by simp
    ultimately have "i < 2147483648 \<and> k < 2147483648"
      by linarith
    then show ?thesis
      by simp
  qed
  then have ev: "deliver e addr (chunk_frames a tid cs) = chunk_events e addr tid cs"
    unfolding u(1) by (intro deliver_chunks u(2)) auto
  define s1 where "s1 = run dir (chunk_events e addr tid cs) s"
  have "0 < CHUNK_SIZE"
    by (simp add: CHUNK_SIZE_def DEFAULT_CHUNK_SIZE_def)
  then obtain t' where t': "holds_prefix s1 tid t' b" "it_bytes_received t' = length b" "it_dest_path t' = it_dest_path t"
    "says_same s s1"
    using feed_chunks[OF e(1) _ h(1) h(2)[symmetric] refl refl, of CHUNK_SIZE dir addr] unfolding s1_def cs by blast
  have "s' = snd (handle_done e addr tid s1)"
    by (simp add: s' run_append ev event_of_done run_def[of _ "[_]"] flip: s1_def)
  then show "read_file (files s') (it_dest_path t) = Some b"
    "notices s' = notices s @ [\<lparr> nt_sent = False, nt_transfer_id = tid, nt_success = True,
      nt_filepath = Some (it_dest_path t), nt_error = None \<rparr>]"
    "outbox s' = outbox s @ [(addr, Message (make_file_complete_ack tid True []))]"
    using done_delivers[OF t'(1,2) e(2), of addr] t'(3,4) e(3) by (auto simp: says_same_def)
qed

lemma offer_reaches:
  assumes "read_file (files s) path = Some b" "send_ok e ra" "s1 = run sdir [(e, OfferFile tid ra path)] s"
  shows "run dir (deliver er sa (new_frames s s1)) r =
    handle_offer er dir sa tid (basename path) (int (length b)) (sha256_hex b) (Some (my_name e)) r"
  using assms
  by (simp add: run_def offer_file_def Let_def transfer_transition_to_def transmit_def new_frames_def event_of_offer)

text \<open>(C4) A whole transfer. One side offers a file of at most two gibibytes, its frames reach the other
  side, that side asks its user, who accepts, and its answer reaches the sender; the sending task runs, its
  frames reach the receiver, the acknowledgement reaches the sender. If a partial download was picked up,
  it holds a prefix of the file; sends and system calls succeed. Then the receiver's file is the sender's,
  byte for byte, under a name in its downloads directory, and both sides report success. The number of
  steps the sending task needs is three more than the number of chunks left to send.\<close>

theorem offered_file_arrives:
  assumes src: "read_file (files S) path = Some b" "int (length b) \<le> MAX_INCOMING_FILE_SIZE"
    and id: "tid = uuid_str u" "length u = 16"
    and es: "send_ok es ra" and er: "send_ok er sa" "write_ok er" "open_ok er" "replace_ok er"
    and R: "sess_ok (\<lambda>_ _ _ _ _. True) dir R"
    and S1: "S1 = run sdir [(es, OfferFile tid ra path)] S"
    and R1: "R1 = run dir (deliver er sa (new_frames S S1)) R" "pending R1 = pending R @ [p]"
    and partial: "\<forall>d. 0 < po_resume_offset p \<longrightarrow> read_file (files R1) (po_part_path p) = Some d \<longrightarrow>
      take (po_resume_offset p) d = take (po_resume_offset p) b"
    and R2: "R2 = run dir [(er, UserAnswer (length (pending R)) True)] R1"
    and S2: "S2 = run sdir (deliver es ra (new_frames R1 R2)) S1"
  shows "\<exists>k S3 R3 S4. S3 = run sdir (steps es tid (k + 3)) S2 \<and> k * CHUNK_SIZE < length b + CHUNK_SIZE \<and>
    R3 = run dir (deliver er sa (new_frames S2 S3)) R2 \<and>
    S4 = run sdir (deliver es ra (new_frames R2 R3) @ steps es tid 1) S3 \<and>
    inside dir (po_dest_path p) \<and> read_file (files R3) (po_dest_path p) = Some b \<and>
    notices R3 = notices R2 @ [\<lparr> nt_sent = False, nt_transfer_id = tid, nt_success = True,
      nt_filepath = Some (po_dest_path p), nt_error = None \<rparr>] \<and>
    notices S4 = notices S2 @ [\<lparr> nt_sent = True, nt_transfer_id = tid, nt_success = True,
      nt_filepath = Some path, nt_error = None \<rparr>]"
proof -
  define t where "t = \<lparr> ot_transfer_id = tid, ot_addr_key = ra, ot_filepath = path, ot_filename = basename path,
    ot_size = int (length b), ot_checksum = sha256_hex b,
    ot_peer_device_id = (case get_peer_device_id es ra of None \<Rightarrow> [] | Some d \<Rightarrow> d),
    ot_resume_offset = 0, ot_state = O_WAITING_FOR_ACCEPT, ot_ack_event = False, ot_ack_success = False \<rparr>"
  define offer where "offer = make_file_offer (env_now es) tid (my_device_id es) (my_name es) (basename path) (int (length b)) (sha256_hex b)"
  have s1: "dict_get (transfers S1) tid = Some t" "tid \<in> set (outgoing S1)" "files S1 = files S"
    "outbox S1 = outbox S @ [(ra, Message offer)]"
    using src(1) es by (simp_all add: S1 run_def offer_file_def Let_def transfer_transition_to_def transmit_def t_def offer_def)
  have r1: "R1 = handle_offer er dir sa tid (basename path) (int (length b)) (sha256_hex b) (Some (my_name es)) R"
    unfolding R1(1) by (rule offer_reaches[OF src(1) es S1])
  note asked = asked_offer[OF R1(2)[unfolded r1], folded r1]
  have ok1: "sess_ok (\<lambda>_ _ _ _ _. True) dir R1"
    using guarded_offer[where Q = "\<lambda>_ _ _ _ _. True"] R unfolding r1 guarded_def by blast
  have inside: "inside dir (po_dest_path p)"
    using sess_okD(5)[OF ok1] R1(2) by (simp add: po_ok_def)
  define R1' where "R1' = R1\<lparr> pending := pending R, offer_resume_offsets := dict_pop tid (offer_resume_offsets R1) \<rparr>"
  have r2: "R2 = snd (accept_offer er p R1')"
    using asked by (simp add: R2 run_def answer_offer_def R1(2) R1'_def)
  have ok1': "fs_ok dir (handles R1) (files R1')"
    using sess_okD(6)[OF ok1] by (simp add: R1'_def)
  obtain r m where r: "holds_prefix R2 tid r b" "it_dest_path r = po_dest_path p" "CHUNK_SIZE dvd it_bytes_received r"
    "it_expected_chunk_index r = it_bytes_received r div CHUNK_SIZE"
    "make_file_accept (env_now er) tid (int (it_bytes_received r)) = Inr m" "outbox R2 = outbox R1 @ [(sa, Message m)]"
    using accepted_offer[OF ok1' _ _ _ _ _ _ _ er(3) _ r2, of b] asked partial er(1) by (auto simp: R1'_def)
  define k where "k = it_bytes_received r"
  have k: "k \<le> length b"
    using r(1) by (simp add: k_def holds_prefix_def prefix_ok_def)
  have s2: "S2 = handle_accept es ra tid (if k = 0 then None else Some (JInt (int k))) S1"
    by (simp add: S2 new_frames_def r(6) event_of_accept[OF r(5)] run_def k_def)
  define cs where "cs = chunk_loop CHUNK_SIZE (k div CHUNK_SIZE) k (drop k b)"
  define S3 where "S3 = run sdir (steps es tid (length cs + 3)) S2"
  obtain h where h: "dict_get (names (files S)) path = Some h" "data_of (files S) h = b"
    using src(1) by (auto simp: read_file_def)
  note sends = sender_sends[OF s1(1,2) _ _ _ _ src(2) _ id r(3)[folded k_def] k cs_def s2, of h, where dir = sdir, folded S3_def]
  have out2: "outbox S2 = outbox S1" "notices S2 = notices S1"
    using s1(1,2) by (simp_all add: s2 handle_accept_def find_outgoing_def Let_def t_def transfer_transition_to_def)
  have sent: "new_frames S2 S3 = chunk_frames ra tid cs @ [(ra, Message (make_file_done tid (sha256_hex b)))]"
    "dict_get (transfers S3) tid = Some (t\<lparr> ot_resume_offset := k, ot_state := O_WAITING_FOR_COMPLETE_ACK \<rparr>)"
    "dict_get (tasks S3) tid = Some AwaitingAck" "tid \<in> set (outgoing S3)" "notices S3 = notices S2"
    using sends h s1(2,3) es out2 by (simp_all add: t_def new_frames_def)
  define R3 where "R3 = run dir (deliver er sa (new_frames S2 S3)) R2"
  note got = deliver_file[OF r(1,4) er(2,4,1) id src(2) cs_def[unfolded k_def] R3_def[unfolded sent(1)]]
  define S4 where "S4 = run sdir (deliver es ra (new_frames R2 R3) @ steps es tid 1) S3"
  have "S4 = run sdir (steps es tid 1) (handle_complete_ack tid (Some (JBool True)) S3)"
    by (simp add: S4_def new_frames_def got(3) event_of_ack run_append) (simp add: run_def)
  note ended = sender_concludes[OF sent(2,4) _ sent(3) this]
  have "length cs * CHUNK_SIZE < length b + CHUNK_SIZE"
    using chunk_loop_count[of CHUNK_SIZE "k div CHUNK_SIZE" k "drop k b"]
    by (simp add: cs_def CHUNK_SIZE_def DEFAULT_CHUNK_SIZE_def)
  then show ?thesis
    using got(1,2) ended(2) sent(5) r(2) inside S3_def R3_def S4_def by (auto simp: t_def)
qed

definition calm_env :: env where
  "calm_env = hostile_env\<lparr> get_peer_device_id := (\<lambda>_. None) \<rparr>"

definition demo_source :: fs where
  "demo_source = \<lparr> names = [(''a.txt'', 0)], contents = [(0, [1, 2, 3])], next_handle = 1 \<rparr>"

definition empty_fs :: fs where
  "empty_fs = \<lparr> names = [], contents = [], next_handle = 0 \<rparr>"

definition demo_pending :: "string \<Rightarrow> pending_offer" where
  "demo_pending tid = \<lparr> po_transfer_id = tid, po_addr_key = ''10.0.0.1:9'', po_filename = ''a.txt'', po_size = 3,
     po_checksum = sha256_hex [1, 2, 3], po_sender_name = ''me'', po_dest_path = ''dl/a.txt'',
     po_part_path = ''dl/a.txt.part'', po_peer_device_id = None, po_resume_offset = 0, po_partial = False \<rparr>"

lemma demo_resolve: "resolve_safe_dest_path (\<lambda>p. ''/'' @ p) False empty_fs False ''a.txt'' ''dl'' = Inr ''dl/a.txt''"
  by code_simp

lemma demo_swept: "sweep_expired now dir empty_fs = empty_fs"
  by (simp add: sweep_expired_def scandir_def empty_fs_def)

lemma demo_asked:
  "pending (handle_offer calm_env ''dl'' ''10.0.0.1:9'' tid ''a.txt'' 3 (sha256_hex [1, 2, 3]) (Some ''me'')
     (new_session 0 ''dl'' empty_fs)) = [demo_pending tid]"
  using demo_resolve
  by (simp add: handle_offer_def new_session_def demo_swept MAX_INCOMING_FILE_SIZE_def calm_env_def hostile_env_def
    place_offer_def choose_partial_def ask_def is_busy_def check_disk_space_def demo_pending_def get_part_path_def)

lemma demo_session_ok: "sess_ok Q ''dl'' (new_session 0 ''dl'' empty_fs)"
  by (rule new_session_ok) (simp add: fs_ok_def empty_fs_def)

theorem offered_file_arrives_witness:
  "\<exists>es. read_file (files (run ''dl'' es (new_session 0 ''dl'' empty_fs))) ''dl/a.txt'' = Some [1, 2, 3]"
proof -
  define tid where "tid = uuid_str (replicate 16 1)"
  define S where "S = (new_session 0 ''src'' empty_fs)\<lparr> files := demo_source \<rparr>"
  define R where "R = new_session 0 ''dl'' empty_fs"
  define S1 where "S1 = run ''src'' [(calm_env, OfferFile tid ''10.0.0.2:9'' ''a.txt'')] S"
  define R1 where "R1 = run ''dl'' (deliver calm_env ''10.0.0.1:9'' (new_frames S S1)) R"
  define R2 where "R2 = run ''dl'' [(calm_env, UserAnswer (length (pending R)) True)] R1"
  define S2 where "S2 = run ''src'' (deliver calm_env ''10.0.0.2:9'' (new_frames R1 R2)) S1"
  have env: "send_ok calm_env a" "write_ok calm_env" "open_ok calm_env" "replace_ok calm_env" "my_name calm_env = ''me''" for a
    by (simp_all add: calm_env_def hostile_env_def)
  have src: "read_file (files S) ''a.txt'' = Some [1, 2, 3]"
    by (simp add: S_def demo_source_def read_file_def data_of_def)
  have base: "basename ''a.txt'' = ''a.txt''"
    by code_simp
  have "R1 = handle_offer calm_env ''dl'' ''10.0.0.1:9'' tid ''a.txt'' 3 (sha256_hex [1, 2, 3]) (Some ''me'') R"
    unfolding R1_def using offer_reaches[OF src env(1) S1_def] by (simp add: env base)
  then have asked: "pending R1 = pending R @ [demo_pending tid]"
    using demo_asked by (simp add: R_def new_session_def)
  obtain es where "read_file (files (run ''dl'' es R2)) ''dl/a.txt'' = Some [1, 2, 3]"
    using offered_file_arrives[OF src _ tid_def _ env(1) env(1-4) demo_session_ok[folded R_def] S1_def R1_def asked _ R2_def S2_def]
    by (auto simp: MAX_INCOMING_FILE_SIZE_def demo_pending_def)
  then show ?thesis
    unfolding R2_def R1_def run_append[symmetric] R_def by blast
qed

text \<open>A download in small, for the properties of a receiving session.\<close>

definition demo_events :: "(env \<times> event) list" where
  "demo_events = [(calm_env, FileOffer ''10.0.0.1:9'' (uuid_str (replicate 16 1)) ''a.txt'' 3 (sha256_hex [1, 2, 3]) (Some ''me'')),
     (calm_env, UserAnswer 0 True)]"

lemma demo_accepted:
  "\<exists>t. holds_prefix (run ''dl'' demo_events (new_session 0 ''dl'' empty_fs)) (uuid_str (replicate 16 1)) t [1, 2, 3] \<and>
    it_dest_path t = ''dl/a.txt'' \<and> it_expected_chunk_index t = it_bytes_received t div CHUNK_SIZE"
proof -
  define tid where "tid = uuid_str (replicate 16 1)"
  define R where "R = new_session 0 ''dl'' empty_fs"
  define R1 where "R1 = handle_offer calm_env ''dl'' ''10.0.0.1:9'' tid ''a.txt'' 3 (sha256_hex [1, 2, 3]) (Some ''me'') R"
  define R1' where "R1' = R1\<lparr> pending := [], offer_resume_offsets := dict_pop tid (offer_resume_offsets R1) \<rparr>"
  have asked: "pending R1 = [demo_pending tid]"
    using demo_asked by (simp add: R1_def R_def)
  have "sess_ok (\<lambda>_ _ _ _ _. True) ''dl'' R1"
    using guarded_offer[where Q = "\<lambda>_ _ _ _ _. True"] demo_session_ok unfolding R1_def R_def guarded_def by blast
  then have ok: "fs_ok ''dl'' (handles R1) (files R1')" and po: "po_ok (\<lambda>_ _ _ _ _. True) ''dl'' (demo_pending tid)"
    using sess_okD(5,6) asked by (simp_all add: R1'_def)
  have "run ''dl'' demo_events R = snd (accept_offer calm_env (demo_pending tid) R1')"
    using asked by (simp add: demo_events_def run_def answer_offer_def R1'_def demo_pending_def flip: R1_def tid_def)
  moreover have "inside ''dl'' (po_part_path (demo_pending tid))"
    using po inside_part by (simp add: po_ok_def)
  ultimately show ?thesis
    using accepted_offer[OF ok _ _ _ _ _ _ _ _ _ refl, where p = "demo_pending tid" and b = "[1, 2, 3]" and e = calm_env]
    unfolding tid_def R_def
    by (auto simp: demo_pending_def get_part_path_def calm_env_def hostile_env_def)
qed

theorem incoming_transfers_are_bounded_witness:
  "\<exists>t. dict_get (incoming (run ''dl'' demo_events (new_session 0 ''dl'' empty_fs))) (uuid_str (replicate 16 1)) = Some t \<and>
    it_bytes_received t \<le> 2 ^ 31"
proof -
  obtain t where t: "dict_get (incoming (run ''dl'' demo_events (new_session 0 ''dl'' empty_fs))) (uuid_str (replicate 16 1)) = Some t"
    using demo_accepted unfolding holds_prefix_def by blast
  have "fs_ok ''dl'' {} empty_fs"
    by (simp add: fs_ok_def empty_fs_def)
  then show ?thesis
    using incoming_transfers_are_bounded[OF _ t] t by blast
qed


section \<open>Where the session falls short\<close>

text \<open>\<open>_fail_outgoing\<close> is meant to report a failure once. The state machine lets FAILED follow FAILED,
  so a second signal, such as the failed send of a connection that was just reported lost, reports again.\<close>

theorem failure_reported_twice:
  assumes "dict_get (transfers s) tid = Some t" "ot_state t \<in> {O_WAITING_FOR_ACCEPT, O_SENDING, O_WAITING_FOR_COMPLETE_ACK}"
  shows "notices (fail_outgoing tid r2 (fail_outgoing tid r1 s)) = notices s @
    [\<lparr> nt_sent = True, nt_transfer_id = tid, nt_success = False, nt_filepath = None, nt_error = Some r1 \<rparr>,
     \<lparr> nt_sent = True, nt_transfer_id = tid, nt_success = False, nt_filepath = None, nt_error = Some r2 \<rparr>]"
  using assms by (auto simp: fail_outgoing_def transfer_transition_to_def notify_complete_def)

text \<open>The same in a run: the connection is lost while a chunk is being sent.\<close>

theorem lost_connection_reported_twice:
  assumes "dict_get (transfers s) tid = Some t" "ot_state t = O_SENDING" "outgoing s = [tid]" "incoming s = []"
    "dict_get (tasks s) tid = Some (Streaming h i offset)" "offset < length (data_of (files s) h)"
    "encode_file_data tid (int i) (int offset) (take CHUNK_SIZE (drop offset (data_of (files s) h))) = Inr payload"
    "\<not> send_ok e (ot_addr_key t)" "ot_addr_key t \<noteq> []"
  shows "map nt_error (notices (run dir [(e, TaskStep False tid), (e, Disconnected (ot_addr_key t) None),
      (e, TaskStep False tid)] s)) = map nt_error (notices s) @ [Some ''connection_lost'', Some ''send_failed'']"
proof -
  define s1 where "s1 = s\<lparr> tasks := dict_set tid SendFailed (tasks s) \<rparr>"
  have "take CHUNK_SIZE (drop offset (data_of (files s) h)) \<noteq> []"
    using assms(6) by (simp add: CHUNK_SIZE_def DEFAULT_CHUNK_SIZE_def)
  then have 1: "snd (send_chunks e False tid s) = s1"
    using assms by (simp add: send_chunks_def stream_chunk_def Let_def set_phase_def s1_def)
  have 2: "on_peer_disconnected e (ot_addr_key t) None s1 = fail_outgoing tid ''connection_lost'' s1"
    using assms(1,3,4,9) by (simp add: on_peer_disconnected_def handle_connection_lost_def out_with_addr_def s1_def)
  have t: "dict_get (transfers (fail_outgoing tid r s1)) tid \<noteq> None" "tasks (fail_outgoing tid r s1) = tasks s1" for r
    using assms(1) by (auto simp: s1_def fail_outgoing_def split: sum.splits)
  have 3: "snd (send_chunks e False tid (fail_outgoing tid ''connection_lost'' s1)) =
      finish_task tid (fail_outgoing tid ''send_failed'' (fail_outgoing tid ''connection_lost'' s1))"
    using t(1)[of "''connection_lost''"] t(2)[of "''connection_lost''"]
    by (cases "dict_get (transfers (fail_outgoing tid ''connection_lost'' s1)) tid") (simp_all add: send_chunks_def s1_def)
  show ?thesis
    using failure_reported_twice[of s1 tid t] assms(1,2) by (simp add: run_def 1 2 3) (simp add: s1_def)
qed

text \<open>Chunks, \<open>file_done\<close>, \<open>file_accept\<close>, \<open>file_reject\<close> and \<open>file_complete_ack\<close> are matched by the
  transfer id alone: the connection they come from makes no difference while the transfer is known.\<close>

theorem sender_of_a_chunk_is_not_checked:
  assumes "dict_get (incoming s) tid = Some t" "it_state t \<in> {I_ACCEPTED, I_RECEIVING}"
  shows "handle_chunk e addr tid i offset data s = handle_chunk e addr' tid i offset data s"
  using assms by (auto simp: handle_chunk_def transfer_transition_to_def)

text \<open>Giving up a transfer removes whatever file is at its destination, also one it never wrote.\<close>

theorem abort_removes_destination: "\<not> exists_file (files (abort_incoming e t reason s)) (it_dest_path t)"
  by (simp add: abort_incoming_def Let_def exists_file_def)

text \<open>A success acknowledgement that is handled before the sending task has noted that
  \<open>file_done\<close> is out is dropped, and the transfer then fails by timeout although the receiver has the file.\<close>

theorem early_acknowledgement_is_lost:
  assumes "dict_get (transfers s) tid = Some t" "ot_state t = O_SENDING" "\<not> ot_ack_event t"
    "dict_get (tasks s) tid = Some DoneSent" "py_bool ack"
  shows "map_option ot_state (dict_get (transfers (run dir [(e, FileCompleteAck addr tid ack), (e, TaskStep False tid),
      (e, TaskStep True tid)] s)) tid) = Some O_FAILED"
proof -
  have 1: "handle_complete_ack tid ack s = s"
    using assms by (simp add: handle_complete_ack_def find_outgoing_def)
  show ?thesis
    using assms by (simp add: run_def 1 send_chunks_def await_ack_def transfer_transition_to_def set_phase_def
      conclude_def Let_def finish_task_def)
qed

end
