(* ===== verification/Identity.thy ===== *)
theory Identity
  imports Codecs Sha256 Paths
begin

text \<open>
  Model of src/core/identity/device_identity.py, fingerprint.py and rotation.py: device identifiers
  as digests of public keys, their printed form, and transition certificates by which an old key
  vouches for a new one. Ed25519 (the cryptography package) is a parameter: a record of its three
  operations; \<open>ed_laws\<close> states what its documentation promises of them.
\<close>

section \<open>Device identity\<close>

record ed25519 =
  ed_public :: "bytes \<Rightarrow> bytes"
  ed_sign :: "bytes \<Rightarrow> bytes \<Rightarrow> bytes"
  ed_verify :: "bytes \<Rightarrow> bytes \<Rightarrow> bytes \<Rightarrow> bool"

definition ed_laws :: "ed25519 \<Rightarrow> bool" where
  "ed_laws ed \<longleftrightarrow> (\<forall>sk. length (ed_public ed sk) = 32) \<and>
     (\<forall>sk m. ed_verify ed (ed_public ed sk) (ed_sign ed sk m) m)"

record device_keypair =
  private_key :: bytes
  public_key_bytes :: bytes
  kp_device_id :: string

definition compute_device_id :: "bytes \<Rightarrow> string" where
  "compute_device_id pk = sha256_hex pk"

definition keypair_from_private_key :: "ed25519 \<Rightarrow> bytes \<Rightarrow> device_keypair" where
  "keypair_from_private_key ed sk =
    \<lparr> private_key = sk, public_key_bytes = ed_public ed sk,
      kp_device_id = compute_device_id (ed_public ed sk) \<rparr>"

definition kp_sign :: "ed25519 \<Rightarrow> device_keypair \<Rightarrow> bytes \<Rightarrow> bytes" where
  "kp_sign ed kp data = ed_sign ed (private_key kp) data"

text \<open>\<open>Ed25519PublicKey.from_public_bytes\<close> takes 32 bytes and raises ValueError for any other length;
  \<open>verify\<close> raises InvalidSignature.\<close>

definition public_key_from_bytes :: "bytes \<Rightarrow> bytes result" where
  "public_key_from_bytes data = (if length data = 32 then Inr data else Inl (Py ValueError))"

definition verify_sig :: "ed25519 \<Rightarrow> bytes \<Rightarrow> bytes \<Rightarrow> bytes \<Rightarrow> unit result" where
  "verify_sig ed pk sig m = require (ed_verify ed pk sig m) (Py InvalidSignature)"

section \<open>Fingerprints\<close>

fun byte_pairs :: "string \<Rightarrow> string list" where
  "byte_pairs (a # b # s) = [a, b] # byte_pairs s"
| "byte_pairs s = (if s = [] then [] else [s])"

definition format_fingerprint :: "string \<Rightarrow> nat option \<Rightarrow> string result" where
  "format_fingerprint device_id_hex groups_shown =
    (if length device_id_hex mod 2 \<noteq> 0 then Inl (Py ValueError)
     else (let pairs = byte_pairs device_id_hex;
               shown = (case groups_shown of None \<Rightarrow> pairs | Some n \<Rightarrow> take n pairs)
           in Inr (join_with '':'' shown)))"

definition short_fingerprint :: "string \<Rightarrow> string result" where
  "short_fingerprint device_id_hex = format_fingerprint device_id_hex (Some 8)"

section \<open>Key rotation\<close>

definition ROTATION_DOMAIN :: bytes where
  "ROTATION_DOMAIN = utf8_encode ''peerc-key-rotation'' @ [0]"

record transition_certificate =
  old_device_id :: string
  old_public_key :: string
  new_device_id :: string
  new_public_key :: string
  tc_timestamp :: time
  tc_signature :: string

definition rotation_payload :: "string \<Rightarrow> string \<Rightarrow> string \<Rightarrow> string \<Rightarrow> time \<Rightarrow> bytes" where
  "rotation_payload old_id new_id old_pk new_pk ts =
    ROTATION_DOMAIN @ utf8_encode old_id @ [0] @ utf8_encode new_id @ [0] @
    utf8_encode old_pk @ [0] @ utf8_encode new_pk @ [0] @ pack_double ts"

definition create_transition_certificate ::
  "ed25519 \<Rightarrow> time \<Rightarrow> device_keypair \<Rightarrow> device_keypair \<Rightarrow> transition_certificate result" where
  "create_transition_certificate ed now old new =
    (if kp_device_id old = kp_device_id new then Inl (Trust RotationError)
     else (let old_pub_b64 = b64encode (public_key_bytes old);
               new_pub_b64 = b64encode (public_key_bytes new);
               payload = rotation_payload (kp_device_id old) (kp_device_id new) old_pub_b64 new_pub_b64 now
           in Inr \<lparr> old_device_id = kp_device_id old, old_public_key = old_pub_b64,
                    new_device_id = kp_device_id new, new_public_key = new_pub_b64,
                    tc_timestamp = now, tc_signature = b64encode (kp_sign ed old payload) \<rparr>))"

definition verify_transition_certificate :: "ed25519 \<Rightarrow> transition_certificate \<Rightarrow> bool" where
  "verify_transition_certificate ed cert =
    (case (b64decode (old_public_key cert), b64decode (tc_signature cert)) of
       (Some old_pub, Some sig) \<Rightarrow>
         is_ok (rbind (public_key_from_bytes old_pub) (\<lambda>pk.
           verify_sig ed pk sig (rotation_payload (old_device_id cert) (new_device_id cert)
             (old_public_key cert) (new_public_key cert) (tc_timestamp cert))))
     | _ \<Rightarrow> False)"

section \<open>Lemmas\<close>

lemma length_device_id [simp]: "length (compute_device_id pk) = 64"
  by (simp add: compute_device_id_def)

lemma verify_transition_certificate_iff:
  "verify_transition_certificate ed cert \<longleftrightarrow>
    (\<exists>pk sig. b64decode (old_public_key cert) = Some pk \<and> b64decode (tc_signature cert) = Some sig \<and>
       length pk = 32 \<and> ed_verify ed pk sig (rotation_payload (old_device_id cert) (new_device_id cert)
         (old_public_key cert) (new_public_key cert) (tc_timestamp cert)))"
  by (auto simp: verify_transition_certificate_def public_key_from_bytes_def verify_sig_def is_ok_iff
      rbind_eq_Inr split: option.splits)

lemma created_certificate_verifies:
  assumes "ed_laws ed" "public_key_bytes old = ed_public ed (private_key old)"
    and "create_transition_certificate ed now old new = Inr cert"
  shows "verify_transition_certificate ed cert"
  using assms
  by (auto simp: create_transition_certificate_def Let_def kp_sign_def
      ed_laws_def verify_transition_certificate_iff split: if_splits)

text \<open>A NUL-terminated field can be read off a payload when the field has no NUL.\<close>

lemma nul_field_inject:
  assumes "(0::byte) \<notin> set a" "0 \<notin> set b" "a @ 0 # r = b @ 0 # s"
  shows "a = b \<and> r = s"
  using assms
proof (induction a arbitrary: b)
  case Nil
  then show ?case by (cases b) auto
next
  case (Cons x a)
  then show ?case by (cases b) auto
qed

lemma byte_of_eq_0: "0 = byte_of n \<longleftrightarrow> n mod 256 = 0"
proof -
  have "byte_of n = 0 \<longleftrightarrow> unat (byte_of n) = 0"
    by (simp only: unsigned_eq_0_iff)
  then show ?thesis
    by (simp only: unat_byte_of eq_commute[of 0 "byte_of n"])
qed

lemma char_of_0: "char_of (0 :: nat) = CHR 0x00"
  by (simp add: char_of_def)

lemma of_char_nonzero: "c \<noteq> CHR 0x00 \<Longrightarrow> (of_char c :: nat) \<noteq> 0"
  using char_of_0 char_of_char[of c] by metis

lemma utf8_lead_nonzero: "(192 + (of_char c :: nat) div 64) mod 256 \<noteq> 0"
proof -
  have "192 + (of_char c :: nat) div 64 < 256" using of_char_less[of c] by linarith
  then show ?thesis by (simp only: mod_less)
qed

lemma utf8_tail_nonzero: "(128 + (of_char c :: nat) mod 64) mod 256 \<noteq> 0"
proof -
  have "128 + (of_char c :: nat) mod 64 < 256" using mod_less_divisor[of 64 "of_char c :: nat"] by linarith
  then show ?thesis by (simp only: mod_less)
qed

lemma utf8_char_no_nul:
  assumes "c \<noteq> CHR 0x00" shows "(0::byte) \<notin> set (utf8_char c)"
proof (cases "(of_char c :: nat) < 128")
  case True
  then have "utf8_char c = [byte_of (of_char c)]" by (simp only: utf8_char_def Let_def if_True)
  then show ?thesis
    using of_char_nonzero[OF assms] mod_less[OF of_char_less[of c]] byte_of_eq_0[of "of_char c"] by auto
next
  case False
  then have "utf8_char c = [byte_of (192 + of_char c div 64), byte_of (128 + of_char c mod 64)]"
    by (simp only: utf8_char_def Let_def if_False)
  then show ?thesis
    using utf8_lead_nonzero[of c] utf8_tail_nonzero[of c] byte_of_eq_0[of "192 + of_char c div 64"] byte_of_eq_0[of "128 + of_char c mod 64"]
    by (metis list.set(1,2) empty_iff insert_iff)
qed

lemma utf8_no_nul:
  assumes "CHR 0x00 \<notin> set s"
  shows "(0::byte) \<notin> set (utf8_encode s)"
proof
  assume "0 \<in> set (utf8_encode s)"
  then obtain c where "c \<in> set s" "0 \<in> set (utf8_char c)"
    unfolding utf8_encode_def by auto
  with assms utf8_char_no_nul[of c] show False
    by metis
qed

lemma text_field_inject:
  assumes "CHR 0x00 \<notin> set a" "CHR 0x00 \<notin> set b" "utf8_encode a @ 0 # r = utf8_encode b @ 0 # s"
  shows "a = b \<and> r = s"
  using nul_field_inject[OF utf8_no_nul[OF assms(1)] utf8_no_nul[OF assms(2)] assms(3)]
  by (simp only: utf8_encode_inject)

definition nul_free :: "string \<Rightarrow> bool" where
  "nul_free s \<longleftrightarrow> CHR 0x00 \<notin> set s"

lemma rotation_payload_inject:
  assumes eq: "rotation_payload a b c d t = rotation_payload a' b' c' d' t'"
    and "nul_free a" "nul_free b" "nul_free c" "nul_free d" "nul_free a'" "nul_free b'" "nul_free c'" "nul_free d'"
  shows "a = a' \<and> b = b' \<and> c = c' \<and> d = d' \<and> pack_double t = pack_double t'"
proof -
  note nf = assms(2-9)[unfolded nul_free_def]
  from eq have 1: "utf8_encode a @ 0 # utf8_encode b @ 0 # utf8_encode c @ 0 # utf8_encode d @ 0 # pack_double t =
      utf8_encode a' @ 0 # utf8_encode b' @ 0 # utf8_encode c' @ 0 # utf8_encode d' @ 0 # pack_double t'"
    by (simp only: rotation_payload_def same_append_eq append_Cons append_Nil)
  note 2 = text_field_inject[OF nf(1) nf(5) 1]
  note 3 = text_field_inject[OF nf(2) nf(6) conjunct2[OF 2]]
  note 4 = text_field_inject[OF nf(3) nf(7) conjunct2[OF 3]]
  note 5 = text_field_inject[OF nf(4) nf(8) conjunct2[OF 4]]
  from 2 3 4 5 show ?thesis
    by blast
qed

text \<open>An instance of the signature interface, for concrete runs.\<close>

definition demo_ed :: ed25519 where
  "demo_ed = \<lparr> ed_public = (\<lambda>sk. take 32 (sk @ replicate 32 0)),
     ed_sign = (\<lambda>sk m. take 32 (sk @ replicate 32 0) @ m),
     ed_verify = (\<lambda>pk sig m. sig = pk @ m) \<rparr>"

lemma demo_ed_laws: "ed_laws demo_ed"
  by (auto simp: ed_laws_def demo_ed_def min_def)

end
