(* ===== verification/Membership.thy ===== *)
theory Membership
  imports Identity
begin

text \<open>
  Model of src/core/group/membership.py and admin.py: groups, the membership certificates their
  administrators sign, and the collection of k-of-n administrator signatures for one action. The
  clock, generated identifiers and Ed25519 are arguments. Sums of float times are exact here; the
  rounding of the double is not modelled. The lemmas show what a certificate's signature pins down
  and that an approved action has the votes of enough distinct administrators for exactly that action.
\<close>

section \<open>Signatures in base64\<close>

text \<open>\<open>_sign\<close> and \<open>_verify\<close> of protocol.py; every caller of the latter turns an exception into False.\<close>

definition sign_b64 :: "ed25519 \<Rightarrow> device_keypair \<Rightarrow> bytes \<Rightarrow> string" where
  "sign_b64 ed kp payload = b64encode (kp_sign ed kp payload)"

definition verifies :: "ed25519 \<Rightarrow> bytes \<Rightarrow> string \<Rightarrow> bytes \<Rightarrow> bool" where
  "verifies ed pk signature payload =
    (case b64decode signature of
       None \<Rightarrow> False
     | Some sig \<Rightarrow> is_ok (rbind (public_key_from_bytes pk) (\<lambda>k. verify_sig ed k sig payload)))"

definition genuine_keypair :: "ed25519 \<Rightarrow> device_keypair \<Rightarrow> bool" where
  "genuine_keypair ed kp \<longleftrightarrow> public_key_bytes kp = ed_public ed (private_key kp)"

lemma verifies_iff:
  "verifies ed pk g m \<longleftrightarrow> length pk = 32 \<and> (\<exists>sig. b64decode g = Some sig \<and> ed_verify ed pk sig m)"
  by (auto simp: verifies_def public_key_from_bytes_def verify_sig_def is_ok_iff rbind_eq_Inr split: option.splits)

lemma sign_b64_verifies [simp]:
  "ed_laws ed \<Longrightarrow> genuine_keypair ed kp \<Longrightarrow> verifies ed (public_key_bytes kp) (sign_b64 ed kp m) m"
  by (simp add: verifies_iff sign_b64_def kp_sign_def genuine_keypair_def ed_laws_def)

section \<open>Groups and membership certificates\<close>

definition MEMBERSHIP_DOMAIN :: bytes where
  "MEMBERSHIP_DOMAIN = utf8_encode ''peerc-group-membership'' @ [0]"

definition DEFAULT_ROLE :: string where
  "DEFAULT_ROLE = ''member''"

record group_info =
  gi_group_id :: string
  gi_name :: string
  gi_admin_device_id :: string
  gi_admin_public_key :: string
  gi_created_at :: time

definition create_group :: "time \<Rightarrow> string \<Rightarrow> device_keypair \<Rightarrow> string \<Rightarrow> string option \<Rightarrow> group_info" where
  "create_group now uuid admin name group_id =
    \<lparr> gi_group_id = (case group_id of Some g \<Rightarrow> if g = [] then uuid else g | None \<Rightarrow> uuid), gi_name = name,
      gi_admin_device_id = kp_device_id admin,
      gi_admin_public_key = b64encode (public_key_bytes admin), gi_created_at = now \<rparr>"

record membership_certificate =
  mc_device_id :: string
  mc_device_public_key :: string
  mc_group_id :: string
  mc_role :: string
  mc_permissions :: "string list"
  mc_issued_at :: pyfloat
  mc_expires_at :: "pyfloat option"
  mc_admin_device_id :: string
  mc_signature :: string
  mc_status :: string

definition membership_payload ::
  "string \<Rightarrow> string \<Rightarrow> string \<Rightarrow> string \<Rightarrow> string list \<Rightarrow> pyfloat \<Rightarrow> pyfloat option \<Rightarrow> string \<Rightarrow> bytes" where
  "membership_payload device_id device_pk group_id role permissions issued_at expires_at admin_device_id =
    MEMBERSHIP_DOMAIN @ utf8_encode device_id @ [0] @ utf8_encode device_pk @ [0] @ utf8_encode group_id @ [0] @
    utf8_encode role @ [0] @ utf8_encode (join_with '','' (sort permissions)) @ [0] @
    utf8_encode admin_device_id @ [0] @ pack_double (time_of issued_at) @
    pack_double (case expires_at of None \<Rightarrow> - 1 | Some t \<Rightarrow> time_of t)"

definition cert_payload :: "membership_certificate \<Rightarrow> bytes" where
  "cert_payload c = membership_payload (mc_device_id c) (mc_device_public_key c) (mc_group_id c) (mc_role c)
     (mc_permissions c) (mc_issued_at c) (mc_expires_at c) (mc_admin_device_id c)"

definition pf_add :: "pyfloat \<Rightarrow> pyfloat \<Rightarrow> pyfloat" where
  "pf_add a b = (let k = max (snd a) (snd b)
     in strip_zeros (fst a * 10 ^ (k - snd a) + fst b * 10 ^ (k - snd b)) k)"

definition issue_membership_certificate ::
  "ed25519 \<Rightarrow> pyfloat \<Rightarrow> device_keypair \<Rightarrow> string \<Rightarrow> bytes \<Rightarrow> string \<Rightarrow> string \<Rightarrow> string list \<Rightarrow> pyfloat option \<Rightarrow>
     membership_certificate result" where
  "issue_membership_certificate ed now admin device_id device_pk group_id role permissions ttl =
    (if device_id = [] \<or> group_id = [] then Inl (Grp MembershipError)
     else (let pk64 = b64encode device_pk;
               expires_at = map_option (pf_add now) ttl;
               payload = membership_payload device_id pk64 group_id role permissions now expires_at (kp_device_id admin)
           in Inr \<lparr> mc_device_id = device_id, mc_device_public_key = pk64, mc_group_id = group_id, mc_role = role,
                    mc_permissions = permissions, mc_issued_at = now, mc_expires_at = expires_at,
                    mc_admin_device_id = kp_device_id admin, mc_signature = sign_b64 ed admin payload,
                    mc_status = ''active'' \<rparr>))"

definition verify_membership_certificate :: "ed25519 \<Rightarrow> membership_certificate \<Rightarrow> bytes \<Rightarrow> bool" where
  "verify_membership_certificate ed cert admin_pk = verifies ed admin_pk (mc_signature cert) (cert_payload cert)"

definition is_membership_expired :: "time \<Rightarrow> membership_certificate \<Rightarrow> bool" where
  "is_membership_expired now cert = (case mc_expires_at cert of None \<Rightarrow> False | Some t \<Rightarrow> time_of t < now)"

lemma time_of_strip: "time_of (strip_zeros m k) = of_int m / 10 ^ k"
proof (induction k arbitrary: m)
  case (Suc k)
  show ?case
  proof (cases "0 < k \<and> m mod 10 = 0")
    case True
    then have "m = 10 * (m div 10)"
      by auto
    then have "(of_int m :: rat) = 10 * of_int (m div 10)"
      by (metis of_int_mult of_int_numeral)
    then show ?thesis
      using True Suc.IH by simp
  qed (auto simp: time_of_def)
qed (simp add: time_of_def)

lemma time_of_add [simp]: "time_of (pf_add a b) = time_of a + time_of b"
proof -
  have scale: "(of_int m :: rat) * 10 ^ (k - i) / 10 ^ k = of_int m / 10 ^ i" if "i \<le> k" for m k i
    using that by (simp add: power_diff)
  define k where "k = max (snd a) (snd b)"
  have "time_of (pf_add a b) =
      of_int (fst a) * 10 ^ (k - snd a) / 10 ^ k + of_int (fst b) * 10 ^ (k - snd b) / 10 ^ k"
    by (simp add: pf_add_def time_of_strip k_def[symmetric] add_divide_distrib)
  also have "\<dots> = time_of a + time_of b"
    by (simp add: scale k_def time_of_def)
  finally show ?thesis .
qed

section \<open>Threshold approvals\<close>

definition ADMIN_APPROVAL_DOMAIN :: bytes where
  "ADMIN_APPROVAL_DOMAIN = utf8_encode ''peerc-group-admin-approval'' @ [0]"

record threshold_approval =
  ta_group_id :: string
  ta_action_id :: string
  ta_action_payload :: bytes
  required_threshold :: int
  ta_signatures :: "(string, string) dict"
  ta_created_at :: time

definition create_threshold_approval :: "time \<Rightarrow> string \<Rightarrow> string \<Rightarrow> bytes \<Rightarrow> int \<Rightarrow> threshold_approval result" where
  "create_threshold_approval now group_id action_id action_payload k =
    (if k < 1 then Inl (Grp AdminError)
     else if group_id = [] \<or> action_id = [] then Inl (Grp AdminError)
     else Inr \<lparr> ta_group_id = group_id, ta_action_id = action_id, ta_action_payload = action_payload,
                required_threshold = k, ta_signatures = [], ta_created_at = now \<rparr>)"

definition approval_payload :: "string \<Rightarrow> string \<Rightarrow> bytes \<Rightarrow> bytes result" where
  "approval_payload group_id action_id action_payload =
    rbind (lp_field (utf8_encode group_id)) (\<lambda>g. rbind (lp_field (utf8_encode action_id)) (\<lambda>a.
    rbind (lp_field action_payload) (\<lambda>p. Inr (ADMIN_APPROVAL_DOMAIN @ g @ a @ p))))"

definition approval_text :: "threshold_approval \<Rightarrow> bytes result" where
  "approval_text ap = approval_payload (ta_group_id ap) (ta_action_id ap) (ta_action_payload ap)"

definition sign_approval :: "ed25519 \<Rightarrow> threshold_approval \<Rightarrow> device_keypair \<Rightarrow> threshold_approval result" where
  "sign_approval ed ap kp =
    (if dict_get (ta_signatures ap) (kp_device_id kp) \<noteq> None then Inl (Grp AdminError)
     else rbind (approval_text ap) (\<lambda>payload.
       Inr (ap\<lparr> ta_signatures := dict_set (kp_device_id kp) (sign_b64 ed kp payload) (ta_signatures ap) \<rparr>)))"

definition verify_approval_signature :: "ed25519 \<Rightarrow> threshold_approval \<Rightarrow> string \<Rightarrow> bytes \<Rightarrow> bool" where
  "verify_approval_signature ed ap device_id public_key =
    (case dict_get (ta_signatures ap) device_id of
       None \<Rightarrow> False
     | Some g \<Rightarrow> (case approval_text ap of Inl _ \<Rightarrow> False | Inr payload \<Rightarrow> verifies ed public_key g payload))"

definition count_valid_signatures :: "ed25519 \<Rightarrow> threshold_approval \<Rightarrow> (string, bytes) dict \<Rightarrow> nat" where
  "count_valid_signatures ed ap active_admins =
    length [(i, pk) \<leftarrow> active_admins. verify_approval_signature ed ap i pk]"

definition is_approved :: "ed25519 \<Rightarrow> threshold_approval \<Rightarrow> (string, bytes) dict \<Rightarrow> bool" where
  "is_approved ed ap active_admins \<longleftrightarrow> int (count_valid_signatures ed ap active_admins) \<ge> required_threshold ap"

section \<open>What the signatures pin down\<close>

text \<open>The payload is injective up to what it leaves out: the order of permissions and the spelling of
  a float. A comma inside a permission and an expiry of -1.0 are the two collisions.\<close>

lemma membership_payload_inject:
  assumes eq: "membership_payload d k g r ps i e a = membership_payload d' k' g' r' ps' i' e' a'"
    and "nul_free d" "nul_free k" "nul_free g" "nul_free r" "nul_free (join_with '','' (sort ps))" "nul_free a"
    and "nul_free d'" "nul_free k'" "nul_free g'" "nul_free r'" "nul_free (join_with '','' (sort ps'))" "nul_free a'"
  shows "d = d' \<and> k = k' \<and> g = g' \<and> r = r' \<and> join_with '','' (sort ps) = join_with '','' (sort ps') \<and> a = a' \<and>
    pack_double (time_of i) = pack_double (time_of i')"
proof -
  note nf = assms(2-13)[unfolded nul_free_def]
  define t t' where "t = pack_double (case e of None \<Rightarrow> - 1 | Some t \<Rightarrow> time_of t)"
    and "t' = pack_double (case e' of None \<Rightarrow> - 1 | Some t \<Rightarrow> time_of t)"
  from eq have 1: "utf8_encode d @ 0 # utf8_encode k @ 0 # utf8_encode g @ 0 # utf8_encode r @ 0 #
      utf8_encode (join_with '','' (sort ps)) @ 0 # utf8_encode a @ 0 # pack_double (time_of i) @ t =
    utf8_encode d' @ 0 # utf8_encode k' @ 0 # utf8_encode g' @ 0 # utf8_encode r' @ 0 #
      utf8_encode (join_with '','' (sort ps')) @ 0 # utf8_encode a' @ 0 # pack_double (time_of i') @ t'"
    by (simp only: membership_payload_def same_append_eq append_Cons append_Nil t_def t'_def)
  note 2 = text_field_inject[OF nf(1) nf(7) 1]
  note 3 = text_field_inject[OF nf(2) nf(8) conjunct2[OF 2]]
  note 4 = text_field_inject[OF nf(3) nf(9) conjunct2[OF 3]]
  note 5 = text_field_inject[OF nf(4) nf(10) conjunct2[OF 4]]
  note 6 = text_field_inject[OF nf(5) nf(11) conjunct2[OF 5]]
  note 7 = text_field_inject[OF nf(6) nf(12) conjunct2[OF 6]]
  have "pack_double (time_of i) = pack_double (time_of i')"
    using conjunct2[OF 7] by (simp add: append_eq_append_conv)
  with 2 3 4 5 6 7 show ?thesis
    by blast
qed

lemma issued_certificate_verifies:
  assumes "ed_laws ed" "genuine_keypair ed admin"
    and "issue_membership_certificate ed now admin i pk g role ps ttl = Inr cert"
  shows "verify_membership_certificate ed cert (public_key_bytes admin)"
proof -
  have "mc_signature cert = sign_b64 ed admin (cert_payload cert)"
    using assms(3) by (auto simp: issue_membership_certificate_def cert_payload_def Let_def split: if_splits)
  then show ?thesis
    using assms(1,2) by (simp add: verify_membership_certificate_def)
qed

lemma approval_payload_inject:
  assumes "approval_payload g a p = Inr m" "approval_payload g' a' p' = Inr m"
  shows "g = g' \<and> a = a' \<and> p = p'"
proof -
  from assms(1) obtain x y z where 1: "lp_field (utf8_encode g) = Inr x" "lp_field (utf8_encode a) = Inr y"
      "lp_field p = Inr z" "m = ADMIN_APPROVAL_DOMAIN @ x @ y @ z"
    by (auto simp: approval_payload_def rbind_eq_Inr)
  from assms(2) obtain x' y' z' where 2: "lp_field (utf8_encode g') = Inr x'" "lp_field (utf8_encode a') = Inr y'"
      "lp_field p' = Inr z'" "m = ADMIN_APPROVAL_DOMAIN @ x' @ y' @ z'"
    by (auto simp: approval_payload_def rbind_eq_Inr)
  have "x @ y @ z = x' @ y' @ z'"
    using 1(4) 2(4) by simp
  then have g: "utf8_encode g = utf8_encode g' \<and> y @ z = y' @ z'"
    by (rule lp_field_inject[OF 1(1) 2(1)])
  then have a: "utf8_encode a = utf8_encode a' \<and> z = z'"
    by (intro lp_field_inject[OF 1(2) 2(2)]) simp
  then have "p = p' \<and> ([]::bytes) = []"
    by (intro lp_field_inject[OF 1(3) 2(3)]) simp
  with g a show ?thesis
    by simp
qed

lemma verify_approval_signature_iff:
  "verify_approval_signature ed ap i pk \<longleftrightarrow>
    (\<exists>g m. dict_get (ta_signatures ap) i = Some g \<and> approval_text ap = Inr m \<and> verifies ed pk g m)"
  by (cases "approval_text ap") (auto simp: verify_approval_signature_def split: option.splits)

section \<open>Properties\<close>

text \<open>\<open>approved i\<close> are the actions administrator \<open>i\<close> agreed to. The hypothesis is unforgeability of the
  signatures the collection holds: one that verifies under an administrator's key is over the text of an
  action that administrator agreed to.\<close>

definition votes_are_genuine ::
  "ed25519 \<Rightarrow> threshold_approval \<Rightarrow> (string, bytes) dict \<Rightarrow> (string \<Rightarrow> (string \<times> string \<times> bytes) set) \<Rightarrow> bool" where
  "votes_are_genuine ed ap admins approved \<longleftrightarrow>
    (\<forall>i pk g m. (i, pk) \<in> set admins \<longrightarrow> dict_get (ta_signatures ap) i = Some g \<longrightarrow> verifies ed pk g m \<longrightarrow>
      (\<exists>(gid, aid, p)\<in>approved i. approval_payload gid aid p = Inr m))"

text \<open>
  (C18) An approved action has its votes. When the collection counts as approved against the current
  administrators, at least the required number of distinct administrators agreed to exactly this group,
  action and payload: signatures given for another action, and signatures of devices that are no longer
  administrators, do not count.
\<close>

theorem approved_action_has_the_votes:
  assumes "is_approved ed ap admins" "distinct (map fst admins)" "votes_are_genuine ed ap admins approved"
  shows "\<exists>voters \<subseteq> fst ` set admins. required_threshold ap \<le> int (card voters) \<and>
    voters \<subseteq> {i. (ta_group_id ap, ta_action_id ap, ta_action_payload ap) \<in> approved i}"
proof (intro exI conjI)
  define valid where "valid = filter (\<lambda>(i, pk). verify_approval_signature ed ap i pk) admins"
  show "fst ` set valid \<subseteq> fst ` set admins"
    by (auto simp: valid_def)
  have "distinct (map fst valid)"
    using assms(2) by (simp add: valid_def distinct_map_filter)
  then have "card (fst ` set valid) = length valid"
    by (metis distinct_card length_map set_map)
  then show "required_threshold ap \<le> int (card (fst ` set valid))"
    using assms(1) by (simp add: is_approved_def count_valid_signatures_def valid_def)
  show "fst ` set valid \<subseteq> {i. (ta_group_id ap, ta_action_id ap, ta_action_payload ap) \<in> approved i}"
  proof
    fix i
    assume "i \<in> fst ` set valid"
    then obtain pk g m where v: "(i, pk) \<in> set admins" "dict_get (ta_signatures ap) i = Some g"
        "approval_text ap = Inr m" "verifies ed pk g m"
      by (auto simp: valid_def verify_approval_signature_iff)
    then obtain gid aid p where a: "(gid, aid, p) \<in> approved i" "approval_payload gid aid p = Inr m"
      using assms(3) unfolding votes_are_genuine_def by fast
    from approval_payload_inject[OF v(3)[unfolded approval_text_def] a(2)] a(1)
    show "i \<in> {i. (ta_group_id ap, ta_action_id ap, ta_action_payload ap) \<in> approved i}"
      by simp
  qed
qed

primrec sign_all :: "ed25519 \<Rightarrow> threshold_approval \<Rightarrow> device_keypair list \<Rightarrow> threshold_approval result" where
  "sign_all ed ap [] = Inr ap"
| "sign_all ed ap (kp # kps) = rbind (sign_approval ed ap kp) (\<lambda>ap'. sign_all ed ap' kps)"

lemma sign_approval_text [simp]:
  "approval_text (ap\<lparr> ta_signatures := s \<rparr>) = approval_text ap"
  by (simp add: approval_text_def)

text \<open>Signers with distinct ids that have not signed yet all succeed, and their signatures are exactly
  the new ones.\<close>

lemma sign_all_run:
  assumes "approval_text ap = Inr m" "distinct (map kp_device_id kps)"
    and "kp_device_id ` set kps \<inter> dom (dict_get (ta_signatures ap)) = {}"
  shows "\<exists>ap'. sign_all ed ap kps = Inr ap' \<and> approval_text ap' = Inr m \<and>
    required_threshold ap' = required_threshold ap \<and>
    (\<forall>kp\<in>set kps. dict_get (ta_signatures ap') (kp_device_id kp) = Some (sign_b64 ed kp m)) \<and>
    (\<forall>i. i \<notin> kp_device_id ` set kps \<longrightarrow> dict_get (ta_signatures ap') i = dict_get (ta_signatures ap) i)"
  using assms
proof (induction kps arbitrary: ap)
  case (Cons kp kps)
  define ap1 where "ap1 = ap\<lparr> ta_signatures := dict_set (kp_device_id kp) (sign_b64 ed kp m) (ta_signatures ap) \<rparr>"
  have step: "sign_approval ed ap kp = Inr ap1"
    using Cons.prems by (auto simp: sign_approval_def ap1_def)
  have "approval_text ap1 = Inr m" "distinct (map kp_device_id kps)"
      "kp_device_id ` set kps \<inter> dom (dict_get (ta_signatures ap1)) = {}"
    using Cons.prems by (simp_all add: ap1_def disjoint_iff domIff)
  from Cons.IH[OF this] obtain ap' where ap': "sign_all ed ap1 kps = Inr ap'" "approval_text ap' = Inr m"
      "required_threshold ap' = required_threshold ap1"
      "\<forall>kp\<in>set kps. dict_get (ta_signatures ap') (kp_device_id kp) = Some (sign_b64 ed kp m)"
      "\<forall>i. i \<notin> kp_device_id ` set kps \<longrightarrow> dict_get (ta_signatures ap') i = dict_get (ta_signatures ap1) i"
    by blast
  have "kp_device_id kp \<notin> kp_device_id ` set kps"
    using Cons.prems(2) by auto
  with ap'(5) have "dict_get (ta_signatures ap') (kp_device_id kp) = Some (sign_b64 ed kp m)"
    by (simp add: ap1_def)
  then show ?case
    using step ap' by (intro exI[of _ ap']) (auto simp: ap1_def)
qed simp

text \<open>
  (C19) Enough administrators suffice. Starting from a fresh collection, any distinct active
  administrators can sign one after another; the number of valid signatures is then exactly their
  number, and the action is approved precisely when that reaches the threshold.
\<close>

theorem threshold_is_reached:
  assumes "ed_laws ed" "create_threshold_approval now gid aid p k = Inr ap" "approval_text ap = Inr m"
    and "distinct (map kp_device_id kps)" "distinct (map fst admins)"
    and "\<forall>kp\<in>set kps. genuine_keypair ed kp \<and> (kp_device_id kp, public_key_bytes kp) \<in> set admins"
  shows "\<exists>ap'. sign_all ed ap kps = Inr ap' \<and> count_valid_signatures ed ap' admins = length kps \<and>
    (is_approved ed ap' admins \<longleftrightarrow> k \<le> int (length kps))"
proof -
  have fresh: "ta_signatures ap = []" "required_threshold ap = k"
    using assms(2) by (auto simp: create_threshold_approval_def split: if_splits)
  obtain ap' where ap': "sign_all ed ap kps = Inr ap'" "approval_text ap' = Inr m" "required_threshold ap' = k"
      "\<forall>kp\<in>set kps. dict_get (ta_signatures ap') (kp_device_id kp) = Some (sign_b64 ed kp m)"
      "\<forall>i. i \<notin> kp_device_id ` set kps \<longrightarrow> dict_get (ta_signatures ap') i = None"
    using sign_all_run[OF assms(3,4), of ed] fresh by auto
  define valid where "valid = filter (\<lambda>(i, pk). verify_approval_signature ed ap' i pk) admins"
  have key: "pk = public_key_bytes kp" if "(kp_device_id kp, pk) \<in> set admins" "kp \<in> set kps" for kp pk
    using that assms(5,6) by (metis eq_key_imp_eq_value)
  have "fst ` set valid = kp_device_id ` set kps"
  proof (intro equalityI subsetI)
    fix i
    assume "i \<in> fst ` set valid"
    then show "i \<in> kp_device_id ` set kps"
      using ap'(5) by (fastforce simp: valid_def verify_approval_signature_iff)
  next
    fix i
    assume "i \<in> kp_device_id ` set kps"
    then obtain kp where kp: "kp \<in> set kps" "i = kp_device_id kp"
      by blast
    then have "verify_approval_signature ed ap' i (public_key_bytes kp)"
      using ap'(2,4) assms(1,6) by (simp add: verify_approval_signature_iff)
    then have "(i, public_key_bytes kp) \<in> set valid"
      using kp assms(6) by (simp add: valid_def)
    then show "i \<in> fst ` set valid"
      by force
  qed
  moreover have "distinct (map fst valid)"
    using assms(5) by (simp add: valid_def distinct_map_filter)
  ultimately have "length valid = length kps"
    using assms(4) by (metis distinct_card length_map set_map)
  then show ?thesis
    using ap'(1,3) by (simp add: is_approved_def count_valid_signatures_def valid_def)
qed

definition sample_admin :: "byte \<Rightarrow> string \<Rightarrow> device_keypair" where
  "sample_admin b i = \<lparr> private_key = [b], public_key_bytes = ed_public demo_ed [b], kp_device_id = i \<rparr>"

abbreviation two_admins :: "(string, bytes) dict" where
  "two_admins \<equiv> [(''a'', ed_public demo_ed [1]), (''b'', ed_public demo_ed [2]), (''c'', ed_public demo_ed [3])]"

definition sample_approval :: threshold_approval where
  "sample_approval = \<lparr> ta_group_id = ''g'', ta_action_id = ''x'', ta_action_payload = [5],
     required_threshold = 2, ta_signatures = [], ta_created_at = 0 \<rparr>"

lemma sample_approval_text: "approval_text sample_approval =
    Inr (ADMIN_APPROVAL_DOMAIN @ [0, 0, 0, 1, 103, 0, 0, 0, 1, 120, 0, 0, 0, 1, 5])"
  by code_simp

theorem threshold_is_reached_witness:
  "\<exists>ap'. sign_all demo_ed sample_approval [sample_admin 1 ''a'', sample_admin 3 ''c''] = Inr ap' \<and>
     is_approved demo_ed ap' two_admins"
proof -
  have c: "create_threshold_approval 0 ''g'' ''x'' [5] 2 = Inr sample_approval"
    by (simp add: create_threshold_approval_def sample_approval_def)
  show ?thesis
    using threshold_is_reached[OF demo_ed_laws c sample_approval_text,
        of "[sample_admin 1 ''a'', sample_admin 3 ''c'']" two_admins]
    by (auto simp: sample_admin_def genuine_keypair_def)
qed

abbreviation sample_votes :: threshold_approval where
  "sample_votes \<equiv> sample_approval\<lparr> ta_signatures :=
     [(''a'', sign_b64 demo_ed (sample_admin 1 ''a'') (projr (approval_text sample_approval))),
      (''c'', sign_b64 demo_ed (sample_admin 3 ''c'') (projr (approval_text sample_approval)))] \<rparr>"

lemma demo_verifies:
  "verifies demo_ed pk (sign_b64 demo_ed kp t) m \<longleftrightarrow>
    length pk = 32 \<and> ed_public demo_ed (private_key kp) = pk \<and> t = m"
proof -
  define k where "k = ed_public demo_ed (private_key kp)"
  have "length k = 32" "ed_sign demo_ed (private_key kp) t = k @ t"
    by (auto simp: k_def demo_ed_def)
  then show ?thesis
    by (auto simp: verifies_iff sign_b64_def kp_sign_def k_def[symmetric] demo_ed_def[THEN arg_cong[of _ _ ed_verify]])
qed

lemma sample_votes_genuine:
  "votes_are_genuine demo_ed sample_votes two_admins (\<lambda>i. if i = ''b'' then {} else {(''g'', ''x'', [5])})"
  using sample_approval_text
  by (auto simp: votes_are_genuine_def demo_verifies approval_text_def sample_approval_def split: if_splits)

theorem approved_action_has_the_votes_witness:
  "is_approved demo_ed sample_votes two_admins \<and>
   (\<exists>voters \<subseteq> {''a'', ''b'', ''c''}. 2 \<le> int (card voters) \<and> ''b'' \<notin> voters)"
proof
  show ok: "is_approved demo_ed sample_votes two_admins"
    using sample_approval_text
    by (simp add: is_approved_def count_valid_signatures_def verify_approval_signature_iff demo_verifies sample_admin_def
        approval_text_def[symmetric]) (simp add: demo_ed_def sample_approval_def)
  from approved_action_has_the_votes[OF ok _ sample_votes_genuine] obtain voters
    where "voters \<subseteq> {''a'', ''b'', ''c''}" "2 \<le> int (card voters)"
      "voters \<subseteq> {i. (''g'', ''x'', [5]) \<in> (if i = ''b'' then {} else {(''g'', ''x'', [5 :: byte])})}"
    by (auto simp: sample_approval_def)
  then show "\<exists>voters \<subseteq> {''a'', ''b'', ''c''}. 2 \<le> int (card voters) \<and> ''b'' \<notin> voters"
    by (intro exI[of _ voters]) auto
qed

end
