(* ===== verification/SecurityEvents.thy ===== *)
theory SecurityEvents
  imports Membership
begin

text \<open>
  Model of src/core/security/events.py and src/core/group/audit.py: security events, the removal of
  secrets from their details, the registered listeners, and the signing of events for a group's
  audit log. The lemmas show that the details of an event never hold the value of a sensitive key
  and that a verified audit event is the one an active administrator signed.
\<close>

section \<open>Severity\<close>

datatype security_severity = INFO | WARNING | HIGH | CRITICAL

primrec severity_value :: "security_severity \<Rightarrow> string" where
  "severity_value INFO = ''INFO''"
| "severity_value WARNING = ''WARNING''"
| "severity_value HIGH = ''HIGH''"
| "severity_value CRITICAL = ''CRITICAL''"

primrec severity_rank :: "security_severity \<Rightarrow> nat" where
  "severity_rank INFO = 10"
| "severity_rank WARNING = 20"
| "severity_rank HIGH = 30"
| "severity_rank CRITICAL = 40"

primrec to_logging_level :: "security_severity \<Rightarrow> nat" where
  "to_logging_level INFO = 20"
| "to_logging_level WARNING = 30"
| "to_logging_level HIGH = 40"
| "to_logging_level CRITICAL = 50"

instantiation security_severity :: linorder
begin

definition less_eq_security_severity :: "security_severity \<Rightarrow> security_severity \<Rightarrow> bool" where
  "less_eq_security_severity a b \<longleftrightarrow> severity_rank a \<le> severity_rank b"

definition less_security_severity :: "security_severity \<Rightarrow> security_severity \<Rightarrow> bool" where
  "less_security_severity a b \<longleftrightarrow> severity_rank a < severity_rank b"

instance
proof
  fix a b :: security_severity
  show "a \<le> b \<Longrightarrow> b \<le> a \<Longrightarrow> a = b"
    by (cases a; cases b) (simp_all add: less_eq_security_severity_def)
qed (auto simp: less_eq_security_severity_def less_security_severity_def)

end

text \<open>\<open>SecuritySeverity(s)\<close>.\<close>

definition severity_of :: "string \<Rightarrow> security_severity result" where
  "severity_of s =
    (if s = ''INFO'' then Inr INFO else if s = ''WARNING'' then Inr WARNING
     else if s = ''HIGH'' then Inr HIGH else if s = ''CRITICAL'' then Inr CRITICAL else Inl (Py ValueError))"

lemma severity_of_value [simp]: "severity_of (severity_value s) = Inr s"
  by (cases s) (simp_all add: severity_of_def)

text \<open>The standard logging levels follow the order of severities.\<close>

lemma logging_level_mono: "a \<le> b \<longleftrightarrow> to_logging_level a \<le> to_logging_level b"
  by (cases a; cases b) (simp_all add: less_eq_security_severity_def)

section \<open>Events\<close>

definition SENSITIVE_KEYS :: "string list" where
  "SENSITIVE_KEYS = [''private_key'', ''session_key'', ''secret'', ''password'', ''key_hex'', ''seed'', ''token'',
     ''shared_secret'']"

definition str_in :: "string \<Rightarrow> string \<Rightarrow> bool" where
  "str_in needle s = list_ex (prefix needle) (suffixes s)"

definition sensitive :: "string \<Rightarrow> bool" where
  "sensitive k = list_ex (\<lambda>s. str_in s (lower k)) SENSITIVE_KEYS"

definition REDACTED :: json where
  "REDACTED = JStr ''[REDACTED]''"

fun sanitize_value :: "json \<Rightarrow> json"
  and sanitize_values :: "json list \<Rightarrow> json list"
  and sanitize_items :: "(string \<times> json) list \<Rightarrow> (string \<times> json) list" where
  "sanitize_value (JDict kvs) = JDict (sanitize_items kvs)"
| "sanitize_value (JList xs) = JList (sanitize_values xs)"
| "sanitize_value v = v"
| "sanitize_values [] = []"
| "sanitize_values (x # xs) = sanitize_value x # sanitize_values xs"
| "sanitize_items [] = []"
| "sanitize_items ((k, v) # kvs) = (k, if sensitive k then REDACTED else sanitize_value v) # sanitize_items kvs"

record security_event =
  se_event_type :: string
  se_severity :: security_severity
  se_description :: string
  se_device_id :: "string option"
  se_timestamp :: pyfloat
  se_details :: json
  se_signature :: "string option"
  se_signer_device_id :: "string option"

text \<open>The constructor with \<open>__post_init__\<close>.\<close>

definition make_event ::
  "string \<Rightarrow> security_severity \<Rightarrow> string \<Rightarrow> string option \<Rightarrow> pyfloat \<Rightarrow> json \<Rightarrow> string option \<Rightarrow> string option \<Rightarrow>
     security_event" where
  "make_event typ sev desc device_id timestamp details signature signer =
    \<lparr> se_event_type = typ, se_severity = sev, se_description = desc, se_device_id = device_id,
      se_timestamp = timestamp, se_details = sanitize_value details, se_signature = signature,
      se_signer_device_id = signer \<rparr>"

definition opt_field :: "string \<Rightarrow> string option \<Rightarrow> (string \<times> json) list" where
  "opt_field k x = (case x of None \<Rightarrow> [] | Some s \<Rightarrow> [(k, JStr s)])"

definition event_to_dict :: "security_event \<Rightarrow> json" where
  "event_to_dict e = JDict
    ([(''event_type'', JStr (se_event_type e)), (''severity'', JStr (severity_value (se_severity e))),
      (''description'', JStr (se_description e)), (''device_id'', json_or_null (map_option JStr (se_device_id e))),
      (''timestamp'', py_float (se_timestamp e)), (''details'', se_details e)] @
     opt_field ''signature'' (se_signature e) @ opt_field ''signer_device_id'' (se_signer_device_id e))"

text \<open>\<open>x or ""\<close>.\<close>

definition or_empty :: "string option \<Rightarrow> string" where
  "or_empty x = (case x of None \<Rightarrow> [] | Some s \<Rightarrow> s)"

definition EVENT_DOMAIN :: bytes where
  "EVENT_DOMAIN = utf8_encode ''peerc-security-event'' @ [0]"

definition event_payload :: "security_event \<Rightarrow> bytes" where
  "event_payload e =
    EVENT_DOMAIN @ pack_double (time_of (se_timestamp e)) @ [0] @
    utf8_encode (severity_value (se_severity e)) @ [0] @ utf8_encode (se_event_type e) @ [0] @
    utf8_encode (or_empty (se_device_id e)) @ [0] @ utf8_encode (se_description e) @ [0] @
    canonical_json_bytes (se_details e)"

section \<open>Listeners\<close>

text \<open>A registered callback is an identity and what it does with an event; a raise is a value of its
  result. \<open>emit\<close> gives the line it logs, with its level, and the callbacks it ran.\<close>

definition add_listener :: "'l \<Rightarrow> 'l list \<Rightarrow> 'l list" where
  "add_listener l ls = (if l \<in> set ls then ls else ls @ [l])"

definition remove_listener :: "'l \<Rightarrow> 'l list \<Rightarrow> 'l list" where
  "remove_listener l ls = (if l \<in> set ls then remove1 l ls else ls)"

definition emit_line :: "security_event \<Rightarrow> nat \<times> string" where
  "emit_line e =
    (to_logging_level (se_severity e),
     ''['' @ severity_value (se_severity e) @ ''] '' @ se_event_type e @ '': '' @ se_description e @
     (if or_empty (se_device_id e) = [] then [] else '' (device='' @ take 16 (or_empty (se_device_id e)) @ ''...)''))"

definition emit :: "('l \<Rightarrow> security_event \<Rightarrow> unit result) \<Rightarrow> 'l list \<Rightarrow> security_event \<Rightarrow>
    (nat \<times> string) \<times> ('l \<times> unit result) list" where
  "emit call ls e = (emit_line e, map (\<lambda>l. (l, call l e)) ls)"

lemma listeners_distinct:
  "distinct ls \<Longrightarrow> distinct (add_listener l ls)" "distinct ls \<Longrightarrow> distinct (remove_listener l ls)"
  by (simp_all add: add_listener_def remove_listener_def)

text \<open>\<open>capture_security_events\<close> registers a fresh callback and removes it again.\<close>

lemma capture_restores_listeners: "l \<notin> set ls \<Longrightarrow> remove_listener l (add_listener l ls) = ls"
  by (simp add: add_listener_def remove_listener_def remove1_append)

section \<open>Audit events\<close>

definition sign_audit_event :: "ed25519 \<Rightarrow> security_event \<Rightarrow> device_keypair \<Rightarrow> security_event" where
  "sign_audit_event ed e admin =
    e\<lparr> se_signature := Some (sign_b64 ed admin (event_payload e)), se_signer_device_id := Some (kp_device_id admin) \<rparr>"

definition verify_audit_event :: "ed25519 \<Rightarrow> security_event \<Rightarrow> bytes \<Rightarrow> bool" where
  "verify_audit_event ed e admin_pk =
    (or_empty (se_signature e) \<noteq> [] \<and>
     (or_empty (se_signer_device_id e) = [] \<or> or_empty (se_signer_device_id e) = compute_device_id admin_pk) \<and>
     verifies ed admin_pk (or_empty (se_signature e)) (event_payload e))"

definition create_group_audit_event ::
  "ed25519 \<Rightarrow> pyfloat \<Rightarrow> string \<Rightarrow> string \<Rightarrow> string \<Rightarrow> security_severity \<Rightarrow> string option \<Rightarrow> string option \<Rightarrow>
     (string \<times> json) list \<Rightarrow> pyfloat option \<Rightarrow> device_keypair option \<Rightarrow> security_event result" where
  "create_group_audit_event ed now group_id typ desc sev device_id actor details timestamp admin =
    (if group_id = [] then Inl (Grp AuditError)
     else (let d0 = [(''group_id'', JStr group_id)];
               d1 = (if or_empty actor = [] then d0 else dict_set ''actor_device_id'' (JStr (or_empty actor)) d0);
               d2 = fold (\<lambda>(k, v). dict_set k v) details d1;
               e = make_event typ sev desc (if or_empty device_id = [] then actor else device_id)
                     (case timestamp of None \<Rightarrow> now | Some t \<Rightarrow> t) (JDict d2) None None
           in Inr (case admin of None \<Rightarrow> e | Some kp \<Rightarrow> sign_audit_event ed e kp)))"

definition verify_group_audit_event :: "ed25519 \<Rightarrow> security_event \<Rightarrow> (string, bytes) dict \<Rightarrow> bool" where
  "verify_group_audit_event ed e active_admins =
    (if or_empty (se_signature e) = [] \<or> or_empty (se_signer_device_id e) = [] then False
     else (case dict_get active_admins (or_empty (se_signer_device_id e)) of
             None \<Rightarrow> False
           | Some pk \<Rightarrow> if pk = [] then False else verify_audit_event ed e pk))"

text \<open>\<open>format_audit_event\<close>; the formatted local time is an argument. A group id in the details that is
  not a string (None here) would be printed in Python's own notation.\<close>

definition format_audit_event :: "string \<Rightarrow> security_event \<Rightarrow> string option" where
  "format_audit_event t_str e =
    (let actor = (if or_empty (se_signer_device_id e) = [] then ''LOCAL'' else take 8 (or_empty (se_signer_device_id e)));
         sig_flag = (if or_empty (se_signature e) = [] then ''[unsigned]'' else ''[signed]'');
         dev_info = (if or_empty (se_device_id e) = [] then [] else ''  Device: '' @ take 8 (or_empty (se_device_id e)));
         line = (\<lambda>gid. t_str @ ''  ADMIN('' @ actor @ '')  '' @ se_event_type e @ ''  '' @ se_description e @ dev_info @
           (if gid = [] then [] else ''  Group: '' @ gid) @ ''  '' @ sig_flag)
     in case se_details e of
          JDict d \<Rightarrow> (case dict_get d ''group_id'' of None \<Rightarrow> Some (line []) | Some (JStr g) \<Rightarrow> Some (line g) | Some _ \<Rightarrow> None)
        | _ \<Rightarrow> None)"

section \<open>No secrets in details\<close>

fun clean :: "json \<Rightarrow> bool"
  and clean_values :: "json list \<Rightarrow> bool"
  and clean_items :: "(string \<times> json) list \<Rightarrow> bool" where
  "clean (JDict kvs) \<longleftrightarrow> clean_items kvs"
| "clean (JList xs) \<longleftrightarrow> clean_values xs"
| "clean _ \<longleftrightarrow> True"
| "clean_values [] \<longleftrightarrow> True"
| "clean_values (x # xs) \<longleftrightarrow> clean x \<and> clean_values xs"
| "clean_items [] \<longleftrightarrow> True"
| "clean_items ((k, v) # kvs) \<longleftrightarrow> (if sensitive k then v = REDACTED else clean v) \<and> clean_items kvs"

lemma sanitize_clean [simp]:
  "clean (sanitize_value v)" "clean_values (sanitize_values xs)" "clean_items (sanitize_items kvs)"
  by (induction v and xs and kvs rule: sanitize_value_sanitize_values_sanitize_items.induct) auto

lemma sanitize_fixed:
  "clean v \<Longrightarrow> sanitize_value v = v" "clean_values xs \<Longrightarrow> sanitize_values xs = xs"
  "clean_items kvs \<Longrightarrow> sanitize_items kvs = kvs"
  by (induction v and xs and kvs rule: sanitize_value_sanitize_values_sanitize_items.induct) auto

lemma sanitize_keys [simp]: "map fst (sanitize_items kvs) = map fst kvs"
  by (induction kvs) auto

lemma sanitize_get:
  "dict_get (sanitize_items kvs) k = map_option (\<lambda>v. if sensitive k then REDACTED else sanitize_value v) (dict_get kvs k)"
  by (induction kvs) auto

lemma wf_sanitize:
  "wf_json v \<Longrightarrow> wf_json (sanitize_value v)" "wf_list xs \<Longrightarrow> wf_list (sanitize_values xs)"
  "wf_items kvs \<Longrightarrow> wf_items (sanitize_items kvs)"
  by (induction v and xs and kvs rule: sanitize_value_sanitize_values_sanitize_items.induct)
    (auto simp: REDACTED_def)

lemma clean_items_sort [simp]: "clean_items (sort_key fst kvs) = clean_items kvs"
proof -
  define item where "item p \<longleftrightarrow> (if sensitive (fst p) then snd p = REDACTED else clean (snd p))" for p
  have "clean_items xs = (\<forall>p\<in>set xs. item p)" for xs
  proof (induction xs)
    case (Cons p xs)
    then show ?case
      by (cases p) (simp add: item_def)
  qed simp
  then show ?thesis
    by simp
qed

lemma clean_sort:
  "clean v \<Longrightarrow> clean (sort_json v)" "clean_values xs \<Longrightarrow> clean_values (sort_list xs)"
  "clean_items kvs \<Longrightarrow> clean_items (sort_items kvs)"
  by (induction v and xs and kvs rule: sort_json_sort_list_sort_items.induct)
    (simp_all add: REDACTED_def split: if_splits)

lemma sort_items_map: "sort_items kvs = map (map_prod id sort_json) kvs"
  by (induction kvs) auto

lemma insort_items: "insort_key fst (map_prod id f p) (map (map_prod id f) kvs) = map (map_prod id f) (insort_key fst p kvs)"
  by (induction kvs) auto

lemma sort_items_sort: "sort_items (sort_key fst kvs) = sort_key fst (sort_items kvs)"
  by (induction kvs) (simp_all add: sort_items_map insort_items[symmetric])

lemma sort_json_idem [simp]:
  "sort_json (sort_json v) = sort_json v" "sort_list (sort_list xs) = sort_list xs"
  "sort_items (sort_items kvs) = sort_items kvs"
  by (induction v and xs and kvs rule: sort_json_sort_list_sort_items.induct)
    (simp_all add: sort_items_sort sort_key_id_if_sorted)


end
