(* ===== verification/Policy.thy ===== *)
theory Policy
  imports ExportAuth
begin

text \<open>
  Model of the data part of src/core/group/policy.py: the rules of the communication matrix, group
  policies, the text a policy's signature is over, and the evaluation of one policy for one attempt.
  The enforcer that consults the group store is in Enforcer. The lemmas show that the stored form of
  a matrix reads back as the matrix and that the first rule that applies decides.
\<close>

section \<open>Rules\<close>

datatype policy_action = CHAT | FILE_SEND | FILE_RECEIVE | EXPORT | TRUST | GROUP_JOIN | GROUP_LEAVE | ACTION_ALL

primrec action_value :: "policy_action \<Rightarrow> string" where
  "action_value CHAT = ''chat''"
| "action_value FILE_SEND = ''file_send''"
| "action_value FILE_RECEIVE = ''file_receive''"
| "action_value EXPORT = ''export''"
| "action_value TRUST = ''trust''"
| "action_value GROUP_JOIN = ''group_join''"
| "action_value GROUP_LEAVE = ''group_leave''"
| "action_value ACTION_ALL = ''*''"

datatype policy_effect = ALLOW | DENY

primrec effect_value :: "policy_effect \<Rightarrow> string" where
  "effect_value ALLOW = ''allow''"
| "effect_value DENY = ''deny''"

text \<open>\<open>PolicyEffect(s)\<close>, and the coercion of a plain string by \<open>__post_init__\<close>.\<close>

definition effect_of :: "string \<Rightarrow> policy_effect result" where
  "effect_of s = (if s = ''allow'' then Inr ALLOW else if s = ''deny'' then Inr DENY else Inl (Py ValueError))"

definition coerce_effect :: "string \<Rightarrow> policy_effect result" where
  "coerce_effect s = effect_of (lower s)"

record communication_rule =
  ru_source :: string
  ru_destination :: string
  ru_action :: string
  ru_effect :: policy_effect

text \<open>The arguments of \<open>matches\<close>: one attempt to communicate.\<close>

record comm_attempt =
  ca_action :: string
  ca_source_device_id :: string
  ca_dest_device_id :: string
  ca_source_role :: "string option"
  ca_dest_role :: "string option"
  ca_source_group_id :: "string option"
  ca_dest_group_id :: "string option"

definition names_party :: "string \<Rightarrow> string \<Rightarrow> string option \<Rightarrow> string option \<Rightarrow> bool" where
  "names_party pattern device_id role group_id =
    (let r = lower pattern
     in r = ''*'' \<or> r = lower device_id \<or> (role \<noteq> None \<and> r = lower (the role)) \<or>
        (group_id \<noteq> None \<and> r = lower (the group_id)))"

definition rule_matches :: "communication_rule \<Rightarrow> comm_attempt \<Rightarrow> bool" where
  "rule_matches r c =
    (if ru_action r \<noteq> ''*'' \<and> lower (ru_action r) \<noteq> lower (ca_action c) then False
     else if \<not> names_party (ru_source r) (ca_source_device_id c) (ca_source_role c) (ca_source_group_id c) then False
     else names_party (ru_destination r) (ca_dest_device_id c) (ca_dest_role c) (ca_dest_group_id c))"

definition rule_to_dict :: "communication_rule \<Rightarrow> json" where
  "rule_to_dict r = JDict [(''source'', JStr (ru_source r)), (''destination'', JStr (ru_destination r)),
     (''action'', JStr (ru_action r)), (''effect'', JStr (effect_value (ru_effect r)))]"

text \<open>\<open>d[k]\<close> and \<open>d.get(k, default)\<close> where a string is expected. A value of another type, which Python
  would keep until the first \<open>lower()\<close> on it, is an error at once.\<close>

definition need_str :: "(string \<times> json) list \<Rightarrow> string \<Rightarrow> string result" where
  "need_str d k = (case dict_get d k of None \<Rightarrow> Inl (Py KeyError) | Some (JStr s) \<Rightarrow> Inr s | Some _ \<Rightarrow> Inl (Py TypeError))"

definition str_or :: "string \<Rightarrow> (string \<times> json) list \<Rightarrow> string \<Rightarrow> string result" where
  "str_or def d k = (case dict_get d k of None \<Rightarrow> Inr def | Some (JStr s) \<Rightarrow> Inr s | Some _ \<Rightarrow> Inl (Py TypeError))"

definition rule_from_dict :: "(string \<times> json) list \<Rightarrow> communication_rule result" where
  "rule_from_dict d =
    rbind (need_str d ''source'') (\<lambda>src.
    rbind (need_str d ''destination'') (\<lambda>dst.
    rbind (str_or ''*'' d ''action'') (\<lambda>act.
    rbind (rbind (str_or ''allow'' d ''effect'') effect_of) (\<lambda>eff.
    Inr \<lparr> ru_source = src, ru_destination = dst, ru_action = act, ru_effect = eff \<rparr>))))"

section \<open>Policies\<close>

record group_policy =
  gp_group_id :: string
  allow_external_trust :: bool
  allow_export :: bool
  leave_requires_admin :: bool
  allow_inter_group :: bool
  communication_matrix :: "communication_rule list"
  default_communication_effect :: policy_effect
  gp_version :: int
  gp_updated_at :: pyfloat
  gp_admin_device_id :: "string option"
  gp_signature :: "string option"

definition POLICY_DOMAIN :: bytes where
  "POLICY_DOMAIN = utf8_encode ''peerc-group-policy'' @ [0]"

definition matrix_json :: "communication_rule list \<Rightarrow> json" where
  "matrix_json rules = JList (map rule_to_dict rules)"

text \<open>The matrix a stored list of JSON values denotes: entries that are not objects are dropped.\<close>

fun parse_rules :: "json list \<Rightarrow> communication_rule list result" where
  "parse_rules [] = Inr []"
| "parse_rules (JDict d # vs) = rbind (rule_from_dict d) (\<lambda>r. rbind (parse_rules vs) (\<lambda>rs. Inr (r # rs)))"
| "parse_rules (_ # vs) = parse_rules vs"

definition policy_flags :: "group_policy \<Rightarrow> int" where
  "policy_flags p = of_bool (allow_external_trust p) + 2 * of_bool (allow_export p) +
     4 * of_bool (leave_requires_admin p) + 8 * of_bool (allow_inter_group p)"

definition policy_payload :: "group_policy \<Rightarrow> bytes result" where
  "policy_payload p =
    rbind (lp_field (utf8_encode (gp_group_id p))) (\<lambda>gid.
    rbind (pack_uint 4 (gp_version p)) (\<lambda>version.
    rbind (pack_uint 4 (policy_flags p)) (\<lambda>flags.
    rbind (lp_field (utf8_encode (or_empty (gp_admin_device_id p)))) (\<lambda>admin.
    rbind (lp_field (canonical_json_bytes (matrix_json (communication_matrix p)))) (\<lambda>matrix.
    Inr (POLICY_DOMAIN @ gid @ version @ flags @ utf8_encode (effect_value (default_communication_effect p)) @ [0] @
      admin @ matrix))))))"

section \<open>Evaluating one policy\<close>

text \<open>The inner loop of \<open>check_communication\<close>: whether a rule matched, or the denial it raises.\<close>

fun scan_rules :: "comm_attempt \<Rightarrow> communication_rule list \<Rightarrow> bool result" where
  "scan_rules c [] = Inr False"
| "scan_rules c (r # rs) =
    (if rule_matches r c
     then (if ru_effect r = DENY then Inl (Grp CommunicationDeniedError) else Inr True)
     else scan_rules c rs)"

definition check_policy :: "comm_attempt \<Rightarrow> group_policy \<Rightarrow> unit result" where
  "check_policy c p =
    rbind (scan_rules c (communication_matrix p)) (\<lambda>matched.
      if \<not> matched \<and> default_communication_effect p = DENY then Inl (Grp CommunicationDeniedError) else Inr ())"

text \<open>What a policy says of an attempt: the effect of the first rule that applies to it, otherwise the
  default.\<close>

definition policy_verdict :: "group_policy \<Rightarrow> comm_attempt \<Rightarrow> policy_effect" where
  "policy_verdict p c =
    (case filter (\<lambda>r. rule_matches r c) (communication_matrix p) of
       [] \<Rightarrow> default_communication_effect p
     | r # _ \<Rightarrow> ru_effect r)"

section \<open>Lemmas\<close>

lemma effect_of_value [simp]: "effect_of (effect_value e) = Inr e"
  by (cases e) (simp_all add: effect_of_def)

lemma coerce_effect_upper: "coerce_effect ''ALLOW'' = Inr ALLOW \<and> coerce_effect ''DENY'' = Inr DENY"
  by code_simp

lemma rule_roundtrip: "parse_rules [rule_to_dict r] = Inr [r]"
  by (simp add: rule_to_dict_def rule_from_dict_def need_str_def str_or_def)

lemma matrix_roundtrip: "parse_rules (map rule_to_dict rs) = Inr rs"
proof (induction rs)
  case (Cons r rs)
  then show ?case
    using rule_roundtrip[of r] by (simp add: rule_to_dict_def rbind_eq_Inr)
qed simp

lemma wf_matrix [simp]: "wf_json (matrix_json rs)"
proof -
  have "wf_list (map rule_to_dict rs)"
    by (induction rs) (simp_all add: rule_to_dict_def)
  then show ?thesis
    by (simp add: matrix_json_def)
qed

lemma check_policy_verdict:
  "check_policy c p = (if policy_verdict p c = DENY then Inl (Grp CommunicationDeniedError) else Inr ())"
proof -
  have "scan_rules c rs = (case filter (\<lambda>r. rule_matches r c) rs of
      [] \<Rightarrow> Inr False
    | r # _ \<Rightarrow> if ru_effect r = DENY then Inl (Grp CommunicationDeniedError) else Inr True)" for rs
    by (induction rs) auto
  then show ?thesis
    by (simp add: check_policy_def policy_verdict_def split: list.split)
qed

lemma policy_effect_cases: "e \<noteq> DENY \<longleftrightarrow> e = ALLOW"
  by (cases e) simp_all

end
