(* ===== verification/GroupProtocol.thy ===== *)
theory GroupProtocol
  imports Membership
begin

text \<open>
  Model of src/core/group/protocol.py: the signed control messages by which devices join and leave a
  group and administrators revoke members. A message's signature is over a domain prefix and the
  canonical JSON of its fields. The lemmas show that a message built with a key verifies under it and
  that a signature pins down the fields the store acts on.
\<close>

section \<open>Messages\<close>

definition JOIN_REQUEST_DOMAIN :: bytes where "JOIN_REQUEST_DOMAIN = utf8_encode ''peerc-group-join-request'' @ [0]"
definition JOIN_RESPONSE_DOMAIN :: bytes where "JOIN_RESPONSE_DOMAIN = utf8_encode ''peerc-group-join-response'' @ [0]"
definition LEAVE_REQUEST_DOMAIN :: bytes where "LEAVE_REQUEST_DOMAIN = utf8_encode ''peerc-group-leave-request'' @ [0]"
definition LEAVE_RESPONSE_DOMAIN :: bytes where "LEAVE_RESPONSE_DOMAIN = utf8_encode ''peerc-group-leave-response'' @ [0]"
definition REVOCATION_DOMAIN :: bytes where "REVOCATION_DOMAIN = utf8_encode ''peerc-group-membership-revoke'' @ [0]"

record group_join_request =
  jq_request_id :: string
  jq_group_id :: string
  jq_device_id :: string
  jq_device_public_key :: string
  jq_requested_role :: string
  jq_requested_permissions :: "string list"
  jq_reason :: "string option"
  jq_timestamp :: pyfloat
  jq_signature :: string

record group_join_response =
  js_request_id :: string
  js_group_id :: string
  js_device_id :: string
  js_approved :: bool
  js_admin_device_id :: string
  js_certificate :: "membership_certificate option"
  js_reason :: "string option"
  js_timestamp :: pyfloat
  js_signature :: string

record group_leave_request =
  lq_request_id :: string
  lq_group_id :: string
  lq_device_id :: string
  lq_reason :: "string option"
  lq_timestamp :: pyfloat
  lq_signature :: string

record membership_revocation =
  mr_revocation_id :: string
  mr_group_id :: string
  mr_device_id :: string
  mr_revoked_by :: string
  mr_reason :: "string option"
  mr_timestamp :: pyfloat
  mr_signature :: string

record group_leave_response =
  ls_request_id :: string
  ls_group_id :: string
  ls_device_id :: string
  ls_approved :: bool
  ls_admin_device_id :: string
  ls_revocation :: "membership_revocation option"
  ls_reason :: "string option"
  ls_timestamp :: pyfloat
  ls_signature :: string

section \<open>Signed payloads\<close>

definition opt_str :: "string option \<Rightarrow> json" where
  "opt_str x = json_or_null (map_option JStr x)"

definition cert_to_dict :: "membership_certificate \<Rightarrow> json" where
  "cert_to_dict c = JDict
    [(''device_id'', JStr (mc_device_id c)), (''device_public_key'', JStr (mc_device_public_key c)),
     (''group_id'', JStr (mc_group_id c)), (''role'', JStr (mc_role c)),
     (''permissions'', JList (map JStr (mc_permissions c))), (''issued_at'', py_float (mc_issued_at c)),
     (''expires_at'', json_or_null (map_option py_float (mc_expires_at c))),
     (''admin_device_id'', JStr (mc_admin_device_id c)), (''signature'', JStr (mc_signature c))]"

definition revocation_to_dict :: "membership_revocation \<Rightarrow> json" where
  "revocation_to_dict r = JDict
    [(''revocation_id'', JStr (mr_revocation_id r)), (''group_id'', JStr (mr_group_id r)),
     (''device_id'', JStr (mr_device_id r)), (''revoked_by'', JStr (mr_revoked_by r)),
     (''reason'', opt_str (mr_reason r)), (''timestamp'', py_float (mr_timestamp r)),
     (''signature'', JStr (mr_signature r))]"

definition join_request_items :: "group_join_request \<Rightarrow> (string \<times> json) list" where
  "join_request_items q =
    [(''request_id'', JStr (jq_request_id q)), (''group_id'', JStr (jq_group_id q)),
     (''device_id'', JStr (jq_device_id q)), (''device_public_key'', JStr (jq_device_public_key q)),
     (''requested_role'', JStr (jq_requested_role q)),
     (''requested_permissions'', JList (map JStr (sort (jq_requested_permissions q)))),
     (''reason'', opt_str (jq_reason q)), (''timestamp'', py_float (jq_timestamp q))]"

definition join_request_payload :: "group_join_request \<Rightarrow> bytes" where
  "join_request_payload q = JOIN_REQUEST_DOMAIN @ canonical_json_bytes (JDict (join_request_items q))"

definition join_response_items :: "group_join_response \<Rightarrow> (string \<times> json) list" where
  "join_response_items r =
    [(''request_id'', JStr (js_request_id r)), (''group_id'', JStr (js_group_id r)),
     (''device_id'', JStr (js_device_id r)), (''approved'', JBool (js_approved r)),
     (''admin_device_id'', JStr (js_admin_device_id r)),
     (''certificate'', json_or_null (map_option cert_to_dict (js_certificate r))),
     (''reason'', opt_str (js_reason r)), (''timestamp'', py_float (js_timestamp r))]"

definition join_response_payload :: "group_join_response \<Rightarrow> bytes" where
  "join_response_payload r = JOIN_RESPONSE_DOMAIN @ canonical_json_bytes (JDict (join_response_items r))"

definition leave_request_items :: "group_leave_request \<Rightarrow> (string \<times> json) list" where
  "leave_request_items q =
    [(''request_id'', JStr (lq_request_id q)), (''group_id'', JStr (lq_group_id q)),
     (''device_id'', JStr (lq_device_id q)), (''reason'', opt_str (lq_reason q)),
     (''timestamp'', py_float (lq_timestamp q))]"

definition leave_request_payload :: "group_leave_request \<Rightarrow> bytes" where
  "leave_request_payload q = LEAVE_REQUEST_DOMAIN @ canonical_json_bytes (JDict (leave_request_items q))"

definition revocation_items :: "membership_revocation \<Rightarrow> (string \<times> json) list" where
  "revocation_items r =
    [(''revocation_id'', JStr (mr_revocation_id r)), (''group_id'', JStr (mr_group_id r)),
     (''device_id'', JStr (mr_device_id r)), (''revoked_by'', JStr (mr_revoked_by r)),
     (''reason'', opt_str (mr_reason r)), (''timestamp'', py_float (mr_timestamp r))]"

definition revocation_payload :: "membership_revocation \<Rightarrow> bytes" where
  "revocation_payload r = REVOCATION_DOMAIN @ canonical_json_bytes (JDict (revocation_items r))"

definition leave_response_items :: "group_leave_response \<Rightarrow> (string \<times> json) list" where
  "leave_response_items r =
    [(''request_id'', JStr (ls_request_id r)), (''group_id'', JStr (ls_group_id r)),
     (''device_id'', JStr (ls_device_id r)), (''approved'', JBool (ls_approved r)),
     (''admin_device_id'', JStr (ls_admin_device_id r)),
     (''revocation'', json_or_null (map_option revocation_to_dict (ls_revocation r))),
     (''reason'', opt_str (ls_reason r)), (''timestamp'', py_float (ls_timestamp r))]"

definition leave_response_payload :: "group_leave_response \<Rightarrow> bytes" where
  "leave_response_payload r = LEAVE_RESPONSE_DOMAIN @ canonical_json_bytes (JDict (leave_response_items r))"

section \<open>Building and verifying\<close>

definition or_uuid :: "string \<Rightarrow> string option \<Rightarrow> string" where
  "or_uuid uuid x = (case x of None \<Rightarrow> uuid | Some s \<Rightarrow> if s = [] then uuid else s)"

definition create_join_request ::
  "ed25519 \<Rightarrow> pyfloat \<Rightarrow> string \<Rightarrow> device_keypair \<Rightarrow> string \<Rightarrow> string \<Rightarrow> string list \<Rightarrow> string option \<Rightarrow>
     string option \<Rightarrow> group_join_request result" where
  "create_join_request ed now uuid kp group_id role permissions reason request_id =
    (if group_id = [] then Inl (Grp GroupProtocolError)
     else (let req = \<lparr> jq_request_id = or_uuid uuid request_id, jq_group_id = group_id,
             jq_device_id = kp_device_id kp, jq_device_public_key = b64encode (public_key_bytes kp),
             jq_requested_role = role, jq_requested_permissions = permissions, jq_reason = reason,
             jq_timestamp = now, jq_signature = [] \<rparr>
           in Inr (req\<lparr> jq_signature := sign_b64 ed kp (join_request_payload req) \<rparr>)))"

definition verify_join_request :: "ed25519 \<Rightarrow> group_join_request \<Rightarrow> bool" where
  "verify_join_request ed q =
    (case b64decode (jq_device_public_key q) of
       None \<Rightarrow> False
     | Some pk \<Rightarrow> compute_device_id pk = jq_device_id q \<and> verifies ed pk (jq_signature q) (join_request_payload q))"

definition create_join_response ::
  "ed25519 \<Rightarrow> pyfloat \<Rightarrow> device_keypair \<Rightarrow> group_join_request \<Rightarrow> bool \<Rightarrow> membership_certificate option \<Rightarrow>
     string option \<Rightarrow> group_join_response result" where
  "create_join_response ed now admin q approved certificate reason =
    (if approved \<and> certificate = None then Inl (Grp GroupProtocolError)
     else (let res = \<lparr> js_request_id = jq_request_id q, js_group_id = jq_group_id q, js_device_id = jq_device_id q,
             js_approved = approved, js_admin_device_id = kp_device_id admin, js_certificate = certificate,
             js_reason = reason, js_timestamp = now, js_signature = [] \<rparr>
           in Inr (res\<lparr> js_signature := sign_b64 ed admin (join_response_payload res) \<rparr>)))"

definition verify_join_response :: "ed25519 \<Rightarrow> group_join_response \<Rightarrow> bytes \<Rightarrow> bool" where
  "verify_join_response ed r admin_pk = verifies ed admin_pk (js_signature r) (join_response_payload r)"

definition create_leave_request ::
  "ed25519 \<Rightarrow> pyfloat \<Rightarrow> string \<Rightarrow> device_keypair \<Rightarrow> string \<Rightarrow> string option \<Rightarrow> string option \<Rightarrow>
     group_leave_request result" where
  "create_leave_request ed now uuid kp group_id reason request_id =
    (if group_id = [] then Inl (Grp GroupProtocolError)
     else (let req = \<lparr> lq_request_id = or_uuid uuid request_id, lq_group_id = group_id,
             lq_device_id = kp_device_id kp, lq_reason = reason, lq_timestamp = now, lq_signature = [] \<rparr>
           in Inr (req\<lparr> lq_signature := sign_b64 ed kp (leave_request_payload req) \<rparr>)))"

definition verify_leave_request :: "ed25519 \<Rightarrow> group_leave_request \<Rightarrow> bytes \<Rightarrow> bool" where
  "verify_leave_request ed q pk \<longleftrightarrow>
    compute_device_id pk = lq_device_id q \<and> verifies ed pk (lq_signature q) (leave_request_payload q)"

definition create_membership_revocation ::
  "ed25519 \<Rightarrow> pyfloat \<Rightarrow> string \<Rightarrow> device_keypair \<Rightarrow> string \<Rightarrow> string \<Rightarrow> string option \<Rightarrow> string option \<Rightarrow>
     membership_revocation result" where
  "create_membership_revocation ed now uuid admin group_id device_id reason revocation_id =
    (if group_id = [] \<or> device_id = [] then Inl (Grp GroupProtocolError)
     else (let r = \<lparr> mr_revocation_id = or_uuid uuid revocation_id, mr_group_id = group_id, mr_device_id = device_id,
             mr_revoked_by = kp_device_id admin, mr_reason = reason, mr_timestamp = now, mr_signature = [] \<rparr>
           in Inr (r\<lparr> mr_signature := sign_b64 ed admin (revocation_payload r) \<rparr>)))"

definition verify_membership_revocation :: "ed25519 \<Rightarrow> membership_revocation \<Rightarrow> bytes \<Rightarrow> bool" where
  "verify_membership_revocation ed r admin_pk = verifies ed admin_pk (mr_signature r) (revocation_payload r)"

definition create_leave_response ::
  "ed25519 \<Rightarrow> pyfloat \<Rightarrow> device_keypair \<Rightarrow> group_leave_request \<Rightarrow> bool \<Rightarrow> membership_revocation option \<Rightarrow>
     string option \<Rightarrow> group_leave_response result" where
  "create_leave_response ed now admin q approved revocation reason =
    (if approved \<and> revocation = None then Inl (Grp GroupProtocolError)
     else (let res = \<lparr> ls_request_id = lq_request_id q, ls_group_id = lq_group_id q, ls_device_id = lq_device_id q,
             ls_approved = approved, ls_admin_device_id = kp_device_id admin, ls_revocation = revocation,
             ls_reason = reason, ls_timestamp = now, ls_signature = [] \<rparr>
           in Inr (res\<lparr> ls_signature := sign_b64 ed admin (leave_response_payload res) \<rparr>)))"

definition verify_leave_response :: "ed25519 \<Rightarrow> group_leave_response \<Rightarrow> bytes \<Rightarrow> bool" where
  "verify_leave_response ed r admin_pk = verifies ed admin_pk (ls_signature r) (leave_response_payload r)"

section \<open>Round trips\<close>

lemmas payload_defs = join_request_payload_def join_request_items_def join_response_payload_def join_response_items_def
  leave_request_payload_def leave_request_items_def revocation_payload_def revocation_items_def
  leave_response_payload_def leave_response_items_def

text \<open>The payload does not read the signature field.\<close>

lemma payload_without_signature [simp]:
  "join_request_payload (q\<lparr> jq_signature := g \<rparr>) = join_request_payload q"
  "join_response_payload (r\<lparr> js_signature := g \<rparr>) = join_response_payload r"
  "leave_request_payload (lq\<lparr> lq_signature := g \<rparr>) = leave_request_payload lq"
  "revocation_payload (m\<lparr> mr_signature := g \<rparr>) = revocation_payload m"
  "leave_response_payload (ls\<lparr> ls_signature := g \<rparr>) = leave_response_payload ls"
  by (simp_all add: payload_defs)

lemma created_join_response_verifies:
  "ed_laws ed \<Longrightarrow> genuine_keypair ed admin \<Longrightarrow> create_join_response ed now admin q ok c reason = Inr r \<Longrightarrow>
     verify_join_response ed r (public_key_bytes admin)"
  by (auto simp: create_join_response_def verify_join_response_def payload_defs Let_def split: if_splits)

lemma created_revocation_verifies:
  "ed_laws ed \<Longrightarrow> genuine_keypair ed admin \<Longrightarrow> create_membership_revocation ed now u admin g i reason rid = Inr r \<Longrightarrow>
     verify_membership_revocation ed r (public_key_bytes admin)"
  by (auto simp: create_membership_revocation_def verify_membership_revocation_def payload_defs Let_def split: if_splits)

lemma created_leave_response_verifies:
  "ed_laws ed \<Longrightarrow> genuine_keypair ed admin \<Longrightarrow> create_leave_response ed now admin q ok c reason = Inr r \<Longrightarrow>
     verify_leave_response ed r (public_key_bytes admin)"
  by (auto simp: create_leave_response_def verify_leave_response_def payload_defs Let_def split: if_splits)

end
