(* ===== verification/GroupStore.thy ===== *)
theory GroupStore
  imports Policy GroupProtocol
begin

text \<open>
  Model of src/core/group/store.py: the six tables of the group database and every operation on them.
  A store is detached or has a database; a table is a dictionary from the primary key to the other
  columns, a JSON column holds its text. Clock readings and generated identifiers come from an
  environment. An SQL ORDER BY leaves rows with equal keys in insertion order here. GroupAuthority
  proves what the operations keep.
\<close>

section \<open>Tables\<close>

datatype membership_status = M_ACTIVE | M_REVOKED

datatype admin_status = A_ACTIVE | A_REMOVED

primrec membership_status_value :: "membership_status \<Rightarrow> string" where
  "membership_status_value M_ACTIVE = ''active''"
| "membership_status_value M_REVOKED = ''revoked''"

record membership_row =
  mw_device_public_key :: string
  mw_role :: string
  mw_permissions :: string
  mw_issued_at :: pyfloat
  mw_expires_at :: "pyfloat option"
  mw_admin_device_id :: string
  mw_signature :: string
  mw_status :: membership_status
  mw_revoked_by :: "string option"
  mw_revoked_at :: "pyfloat option"
  mw_revoke_reason :: "string option"

record policy_row =
  pw_allow_external_trust :: bool
  pw_allow_export :: bool
  pw_leave_requires_admin :: bool
  pw_allow_inter_group :: bool
  pw_communication_matrix :: string
  pw_default_communication_effect :: string
  pw_version :: int
  pw_updated_at :: pyfloat
  pw_admin_device_id :: "string option"
  pw_signature :: "string option"

record admin_record =
  ar_public_key :: string
  ar_added_at :: time
  ar_added_by :: "string option"
  ar_status :: admin_status
  ar_removed_at :: "pyfloat option"
  ar_removed_by :: "string option"

record audit_row =
  aw_group_id :: string
  aw_event_type :: string
  aw_severity :: string
  aw_description :: string
  aw_device_id :: "string option"
  aw_timestamp :: pyfloat
  aw_details :: string
  aw_signature :: "string option"
  aw_signer_device_id :: "string option"

record capability_row =
  cw_request_id :: string
  cw_group_id :: string
  cw_device_id :: string
  cw_file_id :: string
  cw_action :: string
  cw_issued_at :: pyfloat
  cw_expires_at :: pyfloat
  cw_nonce :: string
  cw_admin_device_id :: string
  cw_signature :: string
  cw_used :: bool
  cw_used_at :: "pyfloat option"

record group_db =
  gd_groups :: "(string, group_info) dict"
  gd_memberships :: "(string \<times> string, membership_row) dict"
  gd_policies :: "(string, policy_row) dict"
  gd_admins :: "(string \<times> string, admin_record) dict"
  gd_audit_log :: "(string, audit_row) dict"
  gd_capabilities :: "(string, capability_row) dict"

record group_store =
  gs_conn :: "group_db option"
  gs_owns_conn :: bool

record gs_env =
  ge_clock :: "nat \<Rightarrow> pyfloat"
  ge_uuid :: string

definition empty_group_db :: group_db where
  "empty_group_db = \<lparr> gd_groups = [], gd_memberships = [], gd_policies = [], gd_admins = [], gd_audit_log = [],
     gd_capabilities = [] \<rparr>"

section \<open>Rows\<close>

definition cert_row :: "membership_certificate \<Rightarrow> membership_row" where
  "cert_row c =
    \<lparr> mw_device_public_key = mc_device_public_key c, mw_role = mc_role c,
      mw_permissions = join_with '','' (sort (mc_permissions c)), mw_issued_at = mc_issued_at c,
      mw_expires_at = mc_expires_at c, mw_admin_device_id = mc_admin_device_id c, mw_signature = mc_signature c,
      mw_status = M_ACTIVE, mw_revoked_by = None, mw_revoked_at = None, mw_revoke_reason = None \<rparr>"

definition row_to_cert :: "string \<times> string \<Rightarrow> membership_row \<Rightarrow> membership_certificate" where
  "row_to_cert k r =
    \<lparr> mc_device_id = snd k, mc_device_public_key = mw_device_public_key r, mc_group_id = fst k, mc_role = mw_role r,
      mc_permissions = (if mw_permissions r = [] then [] else split_on (CHR '','') (mw_permissions r)),
      mc_issued_at = mw_issued_at r, mc_expires_at = mw_expires_at r, mc_admin_device_id = mw_admin_device_id r,
      mc_signature = mw_signature r, mc_status = membership_status_value (mw_status r) \<rparr>"

record membership_revocation_record =
  rr_group_id :: string
  rr_device_id :: string
  rr_revoked_by :: "string option"
  rr_revoked_at :: pyfloat
  rr_reason :: "string option"

definition row_to_revocation :: "string \<times> string \<Rightarrow> membership_row \<Rightarrow> membership_revocation_record option" where
  "row_to_revocation k r =
    (case (mw_status r, mw_revoked_at r) of
       (M_REVOKED, Some t) \<Rightarrow> Some \<lparr> rr_group_id = fst k, rr_device_id = snd k, rr_revoked_by = mw_revoked_by r,
         rr_revoked_at = t, rr_reason = mw_revoke_reason r \<rparr>
     | _ \<Rightarrow> None)"

definition policy_to_row :: "group_policy \<Rightarrow> policy_row" where
  "policy_to_row p =
    \<lparr> pw_allow_external_trust = allow_external_trust p, pw_allow_export = allow_export p,
      pw_leave_requires_admin = leave_requires_admin p, pw_allow_inter_group = allow_inter_group p,
      pw_communication_matrix = dumps (matrix_json (communication_matrix p)),
      pw_default_communication_effect = effect_value (default_communication_effect p), pw_version = gp_version p,
      pw_updated_at = gp_updated_at p, pw_admin_device_id = gp_admin_device_id p, pw_signature = gp_signature p \<rparr>"

text \<open>The stored text is written by \<open>set_policy\<close>, so it is a JSON list; any other text is an error.\<close>

definition row_to_policy :: "string \<Rightarrow> policy_row \<Rightarrow> group_policy result" where
  "row_to_policy group_id r =
    rbind (if pw_communication_matrix r = [] then Inr []
           else (case loads (pw_communication_matrix r) of Some (JList vs) \<Rightarrow> parse_rules vs | _ \<Rightarrow> Inl (Py ValueError)))
      (\<lambda>rules.
    rbind (effect_of (pw_default_communication_effect r)) (\<lambda>eff.
    Inr \<lparr> gp_group_id = group_id, allow_external_trust = pw_allow_external_trust r, allow_export = pw_allow_export r,
      leave_requires_admin = pw_leave_requires_admin r, allow_inter_group = pw_allow_inter_group r,
      communication_matrix = rules, default_communication_effect = eff, gp_version = pw_version r,
      gp_updated_at = pw_updated_at r, gp_admin_device_id = pw_admin_device_id r, gp_signature = pw_signature r \<rparr>))"

definition event_row :: "string \<Rightarrow> security_event \<Rightarrow> audit_row" where
  "event_row group_id e =
    \<lparr> aw_group_id = group_id, aw_event_type = se_event_type e, aw_severity = severity_value (se_severity e),
      aw_description = se_description e, aw_device_id = se_device_id e, aw_timestamp = se_timestamp e,
      aw_details = dumps (sort_json (se_details e)), aw_signature = se_signature e,
      aw_signer_device_id = se_signer_device_id e \<rparr>"

definition row_to_audit_event :: "audit_row \<Rightarrow> security_event result" where
  "row_to_audit_event r =
    rbind (if aw_details r = [] then Inr (JDict [])
           else (case loads (aw_details r) of Some d \<Rightarrow> Inr d | None \<Rightarrow> Inl (Py ValueError))) (\<lambda>details.
    rbind (severity_of (aw_severity r)) (\<lambda>sev.
    Inr (make_event (aw_event_type r) sev (aw_description r) (aw_device_id r) (aw_timestamp r) details
      (aw_signature r) (aw_signer_device_id r))))"

definition capability_to_row :: "export_capability \<Rightarrow> capability_row" where
  "capability_to_row c =
    \<lparr> cw_request_id = xc_request_id c, cw_group_id = xc_group_id c, cw_device_id = xc_device_id c,
      cw_file_id = xc_file_id c, cw_action = xc_action c, cw_issued_at = xc_issued_at c,
      cw_expires_at = xc_expires_at c, cw_nonce = xc_nonce c, cw_admin_device_id = or_empty (xc_admin_device_id c),
      cw_signature = or_empty (xc_signature c), cw_used = False, cw_used_at = None \<rparr>"

definition row_to_capability :: "string \<Rightarrow> capability_row \<Rightarrow> export_capability" where
  "row_to_capability i r =
    \<lparr> xc_capability_id = i, xc_request_id = cw_request_id r, xc_device_id = cw_device_id r, xc_group_id = cw_group_id r,
      xc_file_id = cw_file_id r, xc_action = cw_action r, xc_issued_at = cw_issued_at r, xc_expires_at = cw_expires_at r,
      xc_nonce = cw_nonce r, xc_admin_device_id = Some (cw_admin_device_id r), xc_signature = Some (cw_signature r) \<rparr>"

section \<open>Connection\<close>

definition gs_close :: "group_store \<Rightarrow> group_store" where
  "gs_close s = (if gs_owns_conn s \<and> gs_conn s \<noteq> None then s\<lparr> gs_conn := None \<rparr> else s)"

definition gs_adopt_conn :: "group_db option \<Rightarrow> group_store \<Rightarrow> group_store" where
  "gs_adopt_conn conn s = s\<lparr> gs_conn := conn, gs_owns_conn := False \<rparr>"

definition gs_require_conn :: "(group_store, group_db) op" where
  "gs_require_conn s = (case gs_conn s of None \<Rightarrow> (Inl (Py RuntimeError), s) | Some db \<Rightarrow> (Inr db, s))"

definition gs_query :: "(group_db \<Rightarrow> 'a) \<Rightarrow> (group_store, 'a) op" where
  "gs_query f = sbind gs_require_conn (\<lambda>db. sret (f db))"

definition gs_execute :: "(group_db \<Rightarrow> group_db) \<Rightarrow> (group_store, unit) op" where
  "gs_execute f = sbind gs_require_conn (\<lambda>db. smodify (\<lambda>s. s\<lparr> gs_conn := Some (f db) \<rparr>))"

section \<open>Reading\<close>

definition get_group :: "string \<Rightarrow> (group_store, group_info option) op" where
  "get_group group_id = gs_query (\<lambda>db. dict_get (gd_groups db) group_id)"

definition list_groups :: "(group_store, group_info list) op" where
  "list_groups = gs_query (\<lambda>db. sort_key (\<lambda>g. - gi_created_at g) (map snd (gd_groups db)))"

definition get_membership :: "string \<Rightarrow> string \<Rightarrow> (group_store, membership_certificate option) op" where
  "get_membership group_id device_id = gs_query (\<lambda>db.
     map_option (row_to_cert (group_id, device_id)) (dict_get (gd_memberships db) (group_id, device_id)))"

definition get_membership_status :: "string \<Rightarrow> string \<Rightarrow> (group_store, membership_status option) op" where
  "get_membership_status group_id device_id = gs_query (\<lambda>db.
     map_option mw_status (dict_get (gd_memberships db) (group_id, device_id)))"

definition list_memberships :: "string \<Rightarrow> membership_status option \<Rightarrow> (group_store, membership_certificate list) op" where
  "list_memberships group_id status = gs_query (\<lambda>db.
     map (\<lambda>(k, r). row_to_cert k r) (sort_key (\<lambda>(_, r). - time_of (mw_issued_at r))
       [(k, r) \<leftarrow> gd_memberships db. fst k = group_id \<and> (status = None \<or> status = Some (mw_status r))]))"

definition get_membership_revocation :: "string \<Rightarrow> string \<Rightarrow> (group_store, membership_revocation_record option) op" where
  "get_membership_revocation group_id device_id = gs_query (\<lambda>db.
     case dict_get (gd_memberships db) (group_id, device_id) of
       None \<Rightarrow> None | Some r \<Rightarrow> row_to_revocation (group_id, device_id) r)"

definition get_policy :: "string \<Rightarrow> (group_store, group_policy option) op" where
  "get_policy group_id = sbind (gs_query (\<lambda>db. dict_get (gd_policies db) group_id)) (\<lambda>row.
     case row of None \<Rightarrow> sret None | Some r \<Rightarrow> sbind (slift (row_to_policy group_id r)) (\<lambda>p. sret (Some p)))"

primrec all_ok :: "'a result list \<Rightarrow> 'a list result" where
  "all_ok [] = Inr []"
| "all_ok (r # rs) = rbind r (\<lambda>x. rbind (all_ok rs) (\<lambda>xs. Inr (x # xs)))"

definition list_policies :: "(group_store, group_policy list) op" where
  "list_policies = sbind (gs_query (\<lambda>db. sort_key (\<lambda>(_, r). - time_of (pw_updated_at r)) (gd_policies db))) (\<lambda>rows.
     slift (all_ok (map (\<lambda>(g, r). row_to_policy g r) rows)))"

definition get_admin :: "string \<Rightarrow> string \<Rightarrow> (group_store, admin_record option) op" where
  "get_admin group_id device_id = gs_query (\<lambda>db. dict_get (gd_admins db) (group_id, device_id))"

definition get_admin_status :: "string \<Rightarrow> string \<Rightarrow> (group_store, admin_status option) op" where
  "get_admin_status group_id device_id = gs_query (\<lambda>db.
     map_option ar_status (dict_get (gd_admins db) (group_id, device_id)))"

definition is_admin :: "string \<Rightarrow> string \<Rightarrow> (group_store, bool) op" where
  "is_admin group_id device_id = sbind (get_admin_status group_id device_id) (\<lambda>st. sret (st = Some A_ACTIVE))"

definition list_admins :: "string \<Rightarrow> admin_status option \<Rightarrow> (group_store, (string \<times> admin_record) list) op" where
  "list_admins group_id status = gs_query (\<lambda>db.
     map (\<lambda>(k, a). (snd k, a)) (sort_key (\<lambda>(_, a). ar_added_at a)
       [(k, a) \<leftarrow> gd_admins db. fst k = group_id \<and> (status = None \<or> status = Some (ar_status a))]))"

primrec decode_keys :: "(string \<times> admin_record) list \<Rightarrow> (string, bytes) dict \<Rightarrow> (string, bytes) dict result" where
  "decode_keys [] d = Inr d"
| "decode_keys (a # as) d =
    (case b64decode (ar_public_key (snd a)) of
       None \<Rightarrow> Inl (Py ValueError)
     | Some pk \<Rightarrow> decode_keys as (dict_set (fst a) pk d))"

definition get_active_admin_public_keys :: "string \<Rightarrow> (group_store, (string, bytes) dict) op" where
  "get_active_admin_public_keys group_id = sbind (list_admins group_id (Some A_ACTIVE)) (\<lambda>as. slift (decode_keys as []))"

section \<open>Audit log\<close>

text \<open>The row's key: \<open>details["event_id"]\<close> when it is truthy. Identifiers that are neither strings nor
  integers are not modelled (an error here).\<close>

definition audit_event_id :: "json \<Rightarrow> string \<Rightarrow> string result" where
  "audit_event_id details uuid =
    (case details of
       JDict d \<Rightarrow>
         (case dict_get d ''event_id'' of
            None \<Rightarrow> Inr uuid
          | Some JNull \<Rightarrow> Inr uuid
          | Some (JStr i) \<Rightarrow> Inr (if i = [] then uuid else i)
          | Some (JInt n) \<Rightarrow> Inr (if n = 0 then uuid else int_str n)
          | Some (JBool b) \<Rightarrow> Inr (if b then ''1'' else uuid)
          | Some _ \<Rightarrow> Inl (Py ValueError))
     | _ \<Rightarrow> Inr uuid)"

definition record_audit_event ::
  "ed25519 \<Rightarrow> gs_env \<Rightarrow> string \<Rightarrow> security_event \<Rightarrow> bool \<Rightarrow> (group_store, security_event) op" where
  "record_audit_event ed e group_id event verify_with_admins =
    (if group_id = [] then sfail (Grp GroupStoreError)
     else sbind (get_group group_id) (\<lambda>g.
     if g = None then sfail (Grp GroupStoreError)
     else sbind (if verify_with_admins \<and> or_empty (se_signature event) \<noteq> []
                 then sbind (get_active_admin_public_keys group_id) (\<lambda>keys.
                        slift (require (verify_group_audit_event ed event keys) (Grp GroupStoreError)))
                 else sret ()) (\<lambda>_.
     sbind (slift (audit_event_id (se_details event) (ge_uuid e))) (\<lambda>event_id.
     sbind (gs_query (\<lambda>db. dict_get (gd_audit_log db) event_id)) (\<lambda>old.
     if old \<noteq> None then sfail (Py IntegrityError)
     else sbind (gs_execute (\<lambda>db. db\<lparr> gd_audit_log := dict_set event_id (event_row group_id event) (gd_audit_log db) \<rparr>))
       (\<lambda>_. sret event))))))"

text \<open>How every other operation ends: an unsigned event of its own, recorded.\<close>

definition audit ::
  "ed25519 \<Rightarrow> gs_env \<Rightarrow> string \<Rightarrow> string \<Rightarrow> string \<Rightarrow> security_severity \<Rightarrow> string option \<Rightarrow> string option \<Rightarrow>
     (string \<times> json) list \<Rightarrow> (group_store, security_event) op" where
  "audit ed e group_id typ desc sev device_id actor details =
    sbind (slift (create_group_audit_event ed (ge_clock e 1) group_id typ desc sev device_id actor details None None))
      (\<lambda>event. record_audit_event ed e group_id event False)"

definition list_audit_events ::
  "string \<Rightarrow> int option \<Rightarrow> string option \<Rightarrow> security_severity option \<Rightarrow> time option \<Rightarrow> (group_store, security_event list) op" where
  "list_audit_events group_id limit event_type severity since =
    sbind (gs_query (\<lambda>db. sort_key (\<lambda>r. time_of (aw_timestamp r)) [r \<leftarrow> map snd (gd_audit_log db).
        aw_group_id r = group_id \<and>
        (or_empty event_type = [] \<or> aw_event_type r = or_empty event_type) \<and>
        (severity = None \<or> aw_severity r = severity_value (the severity)) \<and>
        (since = None \<or> time_of (aw_timestamp r) \<ge> the since)])) (\<lambda>rows.
    slift (all_ok (map row_to_audit_event
      (case limit of None \<Rightarrow> rows | Some n \<Rightarrow> if n < 0 then rows else take (nat n) rows))))"

definition get_audit_event :: "string \<Rightarrow> (group_store, security_event option) op" where
  "get_audit_event event_id = sbind (gs_query (\<lambda>db. dict_get (gd_audit_log db) event_id)) (\<lambda>row.
     case row of None \<Rightarrow> sret None | Some r \<Rightarrow> sbind (slift (row_to_audit_event r)) (\<lambda>ev. sret (Some ev)))"

section \<open>Groups and administrators\<close>

definition insert_admin :: "string \<Rightarrow> string \<Rightarrow> admin_record \<Rightarrow> (group_store, unit) op" where
  "insert_admin group_id device_id a =
    sbind (gs_query (\<lambda>db. dict_get (gd_admins db) (group_id, device_id))) (\<lambda>old.
      if old \<noteq> None then sfail (Py IntegrityError)
      else gs_execute (\<lambda>db. db\<lparr> gd_admins := dict_set (group_id, device_id) a (gd_admins db) \<rparr>))"

definition new_admin :: "string \<Rightarrow> time \<Rightarrow> string option \<Rightarrow> admin_record" where
  "new_admin public_key added_at added_by =
    \<lparr> ar_public_key = public_key, ar_added_at = added_at, ar_added_by = added_by, ar_status = A_ACTIVE,
      ar_removed_at = None, ar_removed_by = None \<rparr>"

definition store_create_group :: "ed25519 \<Rightarrow> gs_env \<Rightarrow> group_info \<Rightarrow> (group_store, group_info) op" where
  "store_create_group ed e g =
    sbind (get_group (gi_group_id g)) (\<lambda>old.
    if old \<noteq> None then sfail (Grp GroupStoreError)
    else sbind (gs_execute (\<lambda>db. db\<lparr> gd_groups := dict_set (gi_group_id g) g (gd_groups db) \<rparr>)) (\<lambda>_.
         sbind (insert_admin (gi_group_id g) (gi_admin_device_id g)
                  (new_admin (gi_admin_public_key g) (gi_created_at g) None)) (\<lambda>_.
         sbind (audit ed e (gi_group_id g) ''group_created'' (''Group '' @ [CHR 0x27] @ gi_name g @ [CHR 0x27] @ '' created by founder'')
                  INFO None (Some (gi_admin_device_id g))
                  [(''name'', JStr (gi_name g)), (''admin_device_id'', JStr (gi_admin_device_id g))]) (\<lambda>_.
         sret g))))"

definition add_admin :: "ed25519 \<Rightarrow> gs_env \<Rightarrow> string \<Rightarrow> string \<Rightarrow> bytes \<Rightarrow> string \<Rightarrow> (group_store, admin_record) op" where
  "add_admin ed e group_id device_id public_key added_by =
    sbind (get_group group_id) (\<lambda>g.
    if g = None then sfail (Grp GroupStoreError)
    else sbind (get_admin_status group_id added_by) (\<lambda>st.
    if st \<noteq> Some A_ACTIVE then sfail (Grp GroupStoreError)
    else sbind (get_admin group_id device_id) (\<lambda>old.
    if old \<noteq> None then sfail (Grp GroupStoreError)
    else (let record = new_admin (b64encode public_key) (time_of (ge_clock e 0)) (Some added_by)
          in sbind (insert_admin group_id device_id record) (\<lambda>_.
             sbind (audit ed e group_id ''admin_added''
                      (''Admin '' @ take 8 device_id @ '' added to group '' @ group_id) INFO (Some device_id) (Some added_by) [])
               (\<lambda>_. sret record))))))"

definition remove_admin :: "ed25519 \<Rightarrow> gs_env \<Rightarrow> string \<Rightarrow> string \<Rightarrow> string \<Rightarrow> string option \<Rightarrow> (group_store, unit) op" where
  "remove_admin ed e group_id device_id removed_by reason =
    sbind (get_admin_status group_id device_id) (\<lambda>st.
    if st \<noteq> Some A_ACTIVE then sfail (Grp GroupStoreError)
    else sbind (list_admins group_id (Some A_ACTIVE)) (\<lambda>active.
    if length active \<le> 1 then sfail (Grp GroupStoreError)
    else sbind (gs_execute (\<lambda>db. case dict_get (gd_admins db) (group_id, device_id) of
                  None \<Rightarrow> db
                | Some a \<Rightarrow> db\<lparr> gd_admins := dict_set (group_id, device_id)
                    (a\<lparr> ar_status := A_REMOVED, ar_removed_by := Some removed_by, ar_removed_at := Some (ge_clock e 0) \<rparr>)
                    (gd_admins db) \<rparr>)) (\<lambda>_.
         sbind (audit ed e group_id ''admin_removed''
                  (''Admin '' @ take 8 device_id @ '' removed from group '' @ group_id) WARNING (Some device_id)
                  (Some removed_by) [(''reason'', JStr (or_empty reason)), (''removed_by'', JStr removed_by)]) (\<lambda>_.
         sret ()))))"

section \<open>Memberships\<close>

text \<open>\<open>get_admin\<close> and \<open>get_admin_status\<close>, with the refusal the callers share.\<close>

definition active_admin :: "string \<Rightarrow> string \<Rightarrow> (group_store, admin_record) op" where
  "active_admin group_id device_id =
    sbind (get_admin group_id device_id) (\<lambda>admin.
      case admin of
        None \<Rightarrow> sfail (Grp GroupStoreError)
      | Some a \<Rightarrow> sbind (get_admin_status group_id device_id) (\<lambda>st.
          if st \<noteq> Some A_ACTIVE then sfail (Grp GroupStoreError) else sret a))"

text \<open>\<open>base64.b64decode\<close> of a stored key: malformed text raises \<open>binascii.Error\<close>, a \<open>ValueError\<close>.\<close>

definition decode_key :: "string \<Rightarrow> bytes result" where
  "decode_key k = (case b64decode k of None \<Rightarrow> Inl (Py ValueError) | Some b \<Rightarrow> Inr b)"

definition record_membership :: "ed25519 \<Rightarrow> gs_env \<Rightarrow> membership_certificate \<Rightarrow> (group_store, membership_certificate) op" where
  "record_membership ed e cert =
    sbind (get_group (mc_group_id cert)) (\<lambda>g.
    if g = None then sfail (Grp GroupStoreError)
    else sbind (active_admin (mc_group_id cert) (mc_admin_device_id cert)) (\<lambda>admin.
    sbind (slift (decode_key (ar_public_key admin))) (\<lambda>pk.
    if \<not> verify_membership_certificate ed cert pk then sfail (Grp GroupStoreError)
    else sbind (get_membership (mc_group_id cert) (mc_device_id cert)) (\<lambda>old.
    if old \<noteq> None then sfail (Grp GroupStoreError)
    else sbind (gs_execute (\<lambda>db. db\<lparr> gd_memberships :=
                  dict_set (mc_group_id cert, mc_device_id cert) (cert_row cert) (gd_memberships db) \<rparr>)) (\<lambda>_.
         sbind (audit ed e (mc_group_id cert) ''membership_issued''
                  (''Membership recorded for device '' @ take 8 (mc_device_id cert) @ '' (role='' @ mc_role cert @ '')'')
                  INFO (Some (mc_device_id cert)) (Some (mc_admin_device_id cert))
                  [(''role'', JStr (mc_role cert)), (''permissions'', JList (map JStr (mc_permissions cert)))]) (\<lambda>_.
         sret cert))))))"

definition mark_membership_revoked ::
  "ed25519 \<Rightarrow> gs_env \<Rightarrow> string \<Rightarrow> string \<Rightarrow> string \<Rightarrow> string option \<Rightarrow> pyfloat option \<Rightarrow> (group_store, unit) op" where
  "mark_membership_revoked ed e group_id device_id by_device reason at_time =
    sbind (get_membership group_id device_id) (\<lambda>cert.
    if cert = None then sfail (Grp GroupStoreError)
    else sbind (get_membership_status group_id device_id) (\<lambda>st.
    if st \<noteq> Some M_ACTIVE then sfail (Grp GroupStoreError)
    else sbind (gs_execute (\<lambda>db. case dict_get (gd_memberships db) (group_id, device_id) of
                  None \<Rightarrow> db
                | Some r \<Rightarrow> db\<lparr> gd_memberships := dict_set (group_id, device_id)
                    (r\<lparr> mw_status := M_REVOKED, mw_revoked_by := Some by_device,
                       mw_revoked_at := Some (case at_time of None \<Rightarrow> ge_clock e 0
                         | Some t \<Rightarrow> if time_of t = 0 then ge_clock e 0 else t),
                       mw_revoke_reason := reason \<rparr>) (gd_memberships db) \<rparr>)) (\<lambda>_.
         sbind (audit ed e group_id ''membership_revoked'' (''Membership revoked for device '' @ take 8 device_id) WARNING
                  (Some device_id) (Some by_device)
                  [(''reason'', JStr (or_empty reason)), (''revoked_by'', JStr by_device)]) (\<lambda>_.
         sret ()))))"

definition revoke_membership ::
  "ed25519 \<Rightarrow> gs_env \<Rightarrow> string \<Rightarrow> string \<Rightarrow> string \<Rightarrow> string option \<Rightarrow> (group_store, unit) op" where
  "revoke_membership ed e group_id device_id by_device reason =
    sbind (get_admin_status group_id by_device) (\<lambda>st.
    if st \<noteq> Some A_ACTIVE then sfail (Grp GroupStoreError)
    else mark_membership_revoked ed e group_id device_id by_device reason None)"

definition record_revocation :: "ed25519 \<Rightarrow> gs_env \<Rightarrow> membership_revocation \<Rightarrow> (group_store, unit) op" where
  "record_revocation ed e r =
    sbind (active_admin (mr_group_id r) (mr_revoked_by r)) (\<lambda>admin.
    sbind (slift (decode_key (ar_public_key admin))) (\<lambda>pk.
    if \<not> verify_membership_revocation ed r pk then sfail (Grp GroupStoreError)
    else mark_membership_revoked ed e (mr_group_id r) (mr_device_id r) (mr_revoked_by r) (mr_reason r)
           (Some (mr_timestamp r))))"

definition process_join_response :: "ed25519 \<Rightarrow> gs_env \<Rightarrow> group_join_response \<Rightarrow> (group_store, membership_certificate) op" where
  "process_join_response ed e r =
    (if \<not> js_approved r then sfail (Grp GroupStoreError)
     else case js_certificate r of
       None \<Rightarrow> sfail (Grp GroupStoreError)
     | Some cert \<Rightarrow>
         sbind (active_admin (js_group_id r) (js_admin_device_id r)) (\<lambda>admin.
         sbind (slift (decode_key (ar_public_key admin))) (\<lambda>pk.
         if \<not> verify_join_response ed r pk then sfail (Grp GroupStoreError)
         else if mc_group_id cert \<noteq> js_group_id r \<or> mc_device_id cert \<noteq> js_device_id r then sfail (Grp GroupStoreError)
         else if mc_admin_device_id cert \<noteq> js_admin_device_id r then sfail (Grp GroupStoreError)
         else record_membership ed e cert)))"

definition process_leave_request :: "ed25519 \<Rightarrow> gs_env \<Rightarrow> group_leave_request \<Rightarrow> (group_store, unit) op" where
  "process_leave_request ed e q =
    sbind (get_membership (lq_group_id q) (lq_device_id q)) (\<lambda>found.
    case found of
      None \<Rightarrow> sfail (Grp GroupStoreError)
    | Some cert \<Rightarrow>
        sbind (get_membership_status (lq_group_id q) (lq_device_id q)) (\<lambda>st.
        if st \<noteq> Some M_ACTIVE then sfail (Grp GroupStoreError)
        else sbind (slift (decode_key (mc_device_public_key cert))) (\<lambda>pk.
        if \<not> verify_leave_request ed q pk then sfail (Grp GroupStoreError)
        else sbind (get_policy (lq_group_id q)) (\<lambda>policy.
        if policy \<noteq> None \<and> leave_requires_admin (the policy) then sfail (Grp LeaveRequiresAdminError)
        else mark_membership_revoked ed e (lq_group_id q) (lq_device_id q) (lq_device_id q)
               (Some (or_uuid ''member left group'' (lq_reason q))) (Some (lq_timestamp q))))))"

definition process_leave_response :: "ed25519 \<Rightarrow> gs_env \<Rightarrow> group_leave_response \<Rightarrow> (group_store, unit) op" where
  "process_leave_response ed e r =
    (if \<not> ls_approved r then sfail (Grp GroupStoreError)
     else case ls_revocation r of
       None \<Rightarrow> sfail (Grp GroupStoreError)
     | Some rv \<Rightarrow>
         sbind (active_admin (ls_group_id r) (ls_admin_device_id r)) (\<lambda>admin.
         sbind (slift (decode_key (ar_public_key admin))) (\<lambda>pk.
         if \<not> verify_leave_response ed r pk then sfail (Grp GroupStoreError)
         else if mr_group_id rv \<noteq> ls_group_id r \<or> mr_device_id rv \<noteq> ls_device_id r then sfail (Grp GroupStoreError)
         else if mr_revoked_by rv \<noteq> ls_admin_device_id r then sfail (Grp GroupStoreError)
         else record_revocation ed e rv)))"

section \<open>Policies and capabilities\<close>

definition set_policy :: "ed25519 \<Rightarrow> gs_env \<Rightarrow> group_policy \<Rightarrow> (group_store, group_policy) op" where
  "set_policy ed e p =
    sbind (get_group (gp_group_id p)) (\<lambda>g.
    if g = None then sfail (Grp GroupStoreError)
    else sbind (if or_empty (gp_admin_device_id p) = [] then sret (Some A_ACTIVE)
                else get_admin_status (gp_group_id p) (or_empty (gp_admin_device_id p))) (\<lambda>st.
    if st \<noteq> Some A_ACTIVE then sfail (Grp GroupStoreError)
    else sbind (gs_execute (\<lambda>db. db\<lparr> gd_policies := dict_set (gp_group_id p) (policy_to_row p) (gd_policies db) \<rparr>)) (\<lambda>_.
         sbind (audit ed e (gp_group_id p) ''policy_changed''
                  (''Policy version '' @ int_str (gp_version p) @ '' updated for group '' @ gp_group_id p) INFO None
                  (gp_admin_device_id p)
                  [(''version'', JInt (gp_version p)), (''allow_external_trust'', JBool (allow_external_trust p)),
                   (''allow_export'', JBool (allow_export p)),
                   (''leave_requires_admin'', JBool (leave_requires_admin p))]) (\<lambda>_.
         sret p))))"

definition store_capability :: "ed25519 \<Rightarrow> gs_env \<Rightarrow> export_capability \<Rightarrow> (group_store, unit) op" where
  "store_capability ed e c =
    (if cap_is_expired (time_of (ge_clock e 0)) c then sfail (Grp GroupStoreError)
     else sbind (list_admins (xc_group_id c) (Some A_ACTIVE)) (\<lambda>as.
     sbind (slift (verify_export_capability ed (time_of (ge_clock e 1)) c (map (ar_public_key \<circ> snd) as))) (\<lambda>ok.
     if \<not> ok then sfail (Grp GroupStoreError)
     else gs_execute (\<lambda>db. db\<lparr> gd_capabilities :=
            dict_pop (xc_capability_id c) (gd_capabilities db) @ [(xc_capability_id c, capability_to_row c)] \<rparr>))))"

definition usable_row :: "time \<Rightarrow> string \<Rightarrow> string \<Rightarrow> string \<Rightarrow> capability_row \<Rightarrow> bool" where
  "usable_row now group_id device_id file_id r \<longleftrightarrow>
    cw_group_id r = group_id \<and> cw_device_id r = device_id \<and> \<not> cw_used r \<and> time_of (cw_expires_at r) > now \<and>
    (cw_file_id r = file_id \<or> cw_file_id r = ''*'')"

definition get_valid_capability :: "time \<Rightarrow> string \<Rightarrow> string \<Rightarrow> string \<Rightarrow> (group_store, export_capability option) op" where
  "get_valid_capability now group_id device_id file_id = gs_query (\<lambda>db.
     case sort_key (\<lambda>(_, r). - time_of (cw_expires_at r))
            [(i, r) \<leftarrow> gd_capabilities db. usable_row now group_id device_id file_id r] of
       [] \<Rightarrow> None
     | (i, r) # _ \<Rightarrow> Some (row_to_capability i r))"

definition mark_capability_used :: "pyfloat \<Rightarrow> string \<Rightarrow> (group_store, unit) op" where
  "mark_capability_used now capability_id = gs_execute (\<lambda>db.
     case dict_get (gd_capabilities db) capability_id of
       None \<Rightarrow> db
     | Some r \<Rightarrow> db\<lparr> gd_capabilities :=
         dict_set capability_id (r\<lparr> cw_used := True, cw_used_at := Some now \<rparr>) (gd_capabilities db) \<rparr>)"

definition list_capabilities ::
  "time \<Rightarrow> string \<Rightarrow> string option \<Rightarrow> bool \<Rightarrow> bool \<Rightarrow> (group_store, export_capability list) op" where
  "list_capabilities now group_id device_id include_expired include_used = gs_query (\<lambda>db.
     map (\<lambda>(i, r). row_to_capability i r) (sort_key (\<lambda>(_, r). - time_of (cw_issued_at r))
       [(i, r) \<leftarrow> gd_capabilities db. cw_group_id r = group_id \<and> (device_id = None \<or> device_id = Some (cw_device_id r)) \<and>
          (include_expired \<or> time_of (cw_expires_at r) > now) \<and> (include_used \<or> \<not> cw_used r)]))"

definition purge_expired_capabilities :: "time \<Rightarrow> (group_store, nat) op" where
  "purge_expired_capabilities now =
    sbind (gs_query (\<lambda>db. length [(i, r) \<leftarrow> gd_capabilities db. time_of (cw_expires_at r) \<le> now \<or> cw_used r])) (\<lambda>n.
    sbind (gs_execute (\<lambda>db. db\<lparr> gd_capabilities :=
             [(i, r) \<leftarrow> gd_capabilities db. \<not> (time_of (cw_expires_at r) \<le> now \<or> cw_used r)] \<rparr>)) (\<lambda>_.
    sret n))"

end
