(* ===== verification/GroupAuthority.thy ===== *)
theory GroupAuthority
  imports GroupStore Steps
begin

text \<open>
  What the operations of the group store keep. The tables that carry authority (groups,
  administrators, memberships) change only in five ways, given by \<^term>\<open>change\<close>; every operation is
  shown to make such a change or none. On top of it: the store refines an abstract authority of sets
  of administrators and members, a group never loses its last administrator, administrators are
  appointed by administrators, memberships carry an administrator's signature, and revocation is
  final.
\<close>

section \<open>The authority tables\<close>

record roster =
  ro_groups :: "(string, group_info) dict"
  ro_admins :: "(string \<times> string, admin_record) dict"
  ro_members :: "(string \<times> string, membership_row) dict"

definition roster_of :: "group_db \<Rightarrow> roster" where
  "roster_of db = \<lparr> ro_groups = gd_groups db, ro_admins = gd_admins db, ro_members = gd_memberships db \<rparr>"

definition roster :: "group_store \<Rightarrow> roster option" where
  "roster s = map_option roster_of (gs_conn s)"

lemma roster_attached [simp]: "gs_conn s = Some db \<Longrightarrow> roster s = Some (roster_of db)"
  by (simp add: roster_def)

lemma roster_SomeD: "roster s = Some R \<Longrightarrow> \<exists>db. gs_conn s = Some db \<and> R = roster_of db"
  by (auto simp: roster_def)

lemma roster_of_simps [simp]:
  "ro_groups (roster_of db) = gd_groups db" "ro_admins (roster_of db) = gd_admins db"
  "ro_members (roster_of db) = gd_memberships db"
  "roster_of (db\<lparr> gd_policies := x \<rparr>) = roster_of db" "roster_of (db\<lparr> gd_audit_log := y \<rparr>) = roster_of db"
  "roster_of (db\<lparr> gd_capabilities := z \<rparr>) = roster_of db"
  by (simp_all add: roster_of_def)

text \<open>Running a query or an update on an attached store.\<close>

lemma gs_query_run [simp]: "gs_conn s = Some db \<Longrightarrow> gs_query f s = (Inr (f db), s)"
  by (simp add: gs_query_def gs_require_conn_def sbind_def)

lemma gs_execute_run [simp]: "gs_conn s = Some db \<Longrightarrow> gs_execute f s = (Inr (), s\<lparr> gs_conn := Some (f db) \<rparr>)"
  by (simp add: gs_execute_def gs_require_conn_def sbind_def)

lemma sbind_query [simp]: "gs_conn s = Some db \<Longrightarrow> sbind (gs_query f) k s = k (f db) s"
  by (simp add: sbind_def)

lemma sbind_execute [simp]: "gs_conn s = Some db \<Longrightarrow> sbind (gs_execute f) k s = k () (s\<lparr> gs_conn := Some (f db) \<rparr>)"
  by (simp add: sbind_def)

lemma sbind_pure [simp]:
  "sbind (sret x) f s = f x s" "sbind (slift (Inr y)) h s = h y s"
  by (simp_all add: sbind_def)

lemmas query_defs = get_group_def get_admin_def get_admin_status_def get_membership_def get_membership_status_def
  list_admins_def get_active_admin_public_keys_def

lemma sbind_assoc: "sbind (sbind m f) h s = sbind m (\<lambda>x. sbind (f x) h) s"
  by (simp add: sbind_def split: prod.split sum.split)

text \<open>Reading never changes a store.\<close>

definition reads :: "('s, 'a) op \<Rightarrow> bool" where
  "reads m \<longleftrightarrow> (\<forall>s. snd (m s) = s)"

lemma reads_sbind [intro]: "reads m \<Longrightarrow> (\<And>x. reads (f x)) \<Longrightarrow> reads (sbind m f)"
  by (auto simp: reads_def sbind_def split: prod.splits sum.splits) (metis snd_conv)+

lemma reads_basic [simp, intro]: "reads (sret x)" "reads (sfail err)" "reads (slift r)" "reads (gs_query f)"
  by (auto simp: reads_def gs_query_def gs_require_conn_def sbind_def split: option.split)

lemma reads_ops [simp, intro]:
  "reads (get_group g)" "reads (get_admin g d)" "reads (get_admin_status g d)" "reads (get_membership g d)"
  "reads (get_membership_status g d)" "reads (list_admins g st)" "reads (get_active_admin_public_keys g)"
  by (auto simp: query_defs)

lemma reads_get_policy [simp, intro]: "reads (get_policy g)"
  unfolding get_policy_def by (intro reads_sbind reads_basic) (auto split: option.split)

lemma reads_active_admin [simp, intro]: "reads (active_admin g d)"
  unfolding active_admin_def by (intro reads_sbind) (auto split: option.split)

section \<open>What auditing leaves alone\<close>

text \<open>An operation that keeps a part of the database, whether it returns or raises.\<close>

definition keeps_view :: "(group_db \<Rightarrow> 'v) \<Rightarrow> (group_store, 'a) op \<Rightarrow> bool" where
  "keeps_view v m \<longleftrightarrow> (\<forall>s. map_option v (gs_conn (snd (m s))) = map_option v (gs_conn s))"

lemma keeps_view_sbind [intro]:
  assumes "keeps_view v m" "\<And>x. keeps_view v (f x)"
  shows "keeps_view v (sbind m f)"
  unfolding keeps_view_def
proof
  fix s
  show "map_option v (gs_conn (snd (sbind m f s))) = map_option v (gs_conn s)"
    using assms unfolding keeps_view_def sbind_def
    by (cases "m s"; cases "fst (m s)") (auto split: sum.split, (metis fst_conv snd_conv sum.sel)+)
qed

lemma reads_keeps_view: "reads m \<Longrightarrow> keeps_view v m"
  by (simp add: reads_def keeps_view_def)

lemma execute_keeps_view: "(\<And>db. v (f db) = v db) \<Longrightarrow> keeps_view v (gs_execute f)"
  by (auto simp: keeps_view_def gs_execute_def gs_require_conn_def sbind_def split: option.split)

lemma keeps_view_basic [simp, intro]:
  "keeps_view v (sret x)" "keeps_view v (sfail err)" "keeps_view v (slift r)" "keeps_view v (gs_query f)"
  "keeps_view v (get_group g)" "keeps_view v (get_active_admin_public_keys g)" "keeps_view v (get_admin g d)"
  "keeps_view v (get_admin_status g d)" "keeps_view v (get_membership g d)" "keeps_view v (get_membership_status g d)"
  "keeps_view v (list_admins g st)" "keeps_view v (active_admin g d)" "keeps_view v (get_policy g)"
  by (simp_all add: reads_keeps_view reads_ops)

lemma record_audit_event_keeps:
  "(\<And>db l. v (db\<lparr> gd_audit_log := l \<rparr>) = v db) \<Longrightarrow> keeps_view v (record_audit_event ed e g ev verify)"
  unfolding record_audit_event_def by (auto intro!: keeps_view_sbind execute_keeps_view)

lemma audit_keeps:
  "(\<And>db l. v (db\<lparr> gd_audit_log := l \<rparr>) = v db) \<Longrightarrow> keeps_view v (audit ed e g typ desc sev dev act det)"
  unfolding audit_def by (auto intro!: keeps_view_sbind record_audit_event_keeps)

lemma audit_then [simp]: "roster (snd (sbind (audit ed e g typ desc sev dev act det) (\<lambda>_. sret x) s)) = roster s"
proof -
  have "keeps_view roster_of (sbind (audit ed e g typ desc sev dev act det) (\<lambda>_. sret x))"
    by (auto intro!: keeps_view_sbind audit_keeps)
  then show ?thesis
    unfolding keeps_view_def roster_def by blast
qed

section \<open>How the authority tables change\<close>

text \<open>Who may end a membership: an active administrator, or the member by a signed request.\<close>

definition may_end :: "ed25519 \<Rightarrow> roster \<Rightarrow> string \<Rightarrow> string \<Rightarrow> membership_row \<Rightarrow> string \<Rightarrow> bool" where
  "may_end ed R g d r by_device \<longleftrightarrow>
    (\<exists>a. dict_get (ro_admins R) (g, by_device) = Some a \<and> ar_status a = A_ACTIVE) \<or>
    by_device = d \<and> (\<exists>q pk. lq_group_id q = g \<and> lq_device_id q = d \<and> b64decode (mw_device_public_key r) = Some pk \<and>
      verify_leave_request ed q pk)"

inductive change :: "ed25519 \<Rightarrow> roster \<Rightarrow> roster \<Rightarrow> bool" for ed where
  same: "change ed R R"
| found: "dict_get (ro_groups R) (gi_group_id g) = None \<Longrightarrow>
    change ed R (R\<lparr> ro_groups := dict_set (gi_group_id g) g (ro_groups R),
      ro_admins := dict_set (gi_group_id g, gi_admin_device_id g) (new_admin pk t None) (ro_admins R) \<rparr>)"
| appoint: "dict_get (ro_groups R) g \<noteq> None \<Longrightarrow> dict_get (ro_admins R) (g, b) = Some a \<Longrightarrow> ar_status a = A_ACTIVE \<Longrightarrow>
    dict_get (ro_admins R) (g, d) = None \<Longrightarrow>
    change ed R (R\<lparr> ro_admins := dict_set (g, d) (new_admin pk t (Some b)) (ro_admins R) \<rparr>)"
| dismiss: "dict_get (ro_admins R) (g, d) = Some a \<Longrightarrow> ar_status a = A_ACTIVE \<Longrightarrow>
    dict_get (ro_admins R) (g, d') = Some a' \<Longrightarrow> ar_status a' = A_ACTIVE \<Longrightarrow> d' \<noteq> d \<Longrightarrow>
    change ed R (R\<lparr> ro_admins := dict_set (g, d)
      (a\<lparr> ar_status := A_REMOVED, ar_removed_by := who, ar_removed_at := at_time \<rparr>) (ro_admins R) \<rparr>)"
| admit: "dict_get (ro_groups R) (mc_group_id c) \<noteq> None \<Longrightarrow>
    dict_get (ro_admins R) (mc_group_id c, mc_admin_device_id c) = Some a \<Longrightarrow> ar_status a = A_ACTIVE \<Longrightarrow>
    b64decode (ar_public_key a) = Some pk \<Longrightarrow> verify_membership_certificate ed c pk \<Longrightarrow>
    dict_get (ro_members R) (mc_group_id c, mc_device_id c) = None \<Longrightarrow>
    change ed R (R\<lparr> ro_members := dict_set (mc_group_id c, mc_device_id c) (cert_row c) (ro_members R) \<rparr>)"
| expel: "dict_get (ro_members R) (g, d) = Some r \<Longrightarrow> mw_status r = M_ACTIVE \<Longrightarrow> may_end ed R g d r who \<Longrightarrow>
    change ed R (R\<lparr> ro_members := dict_set (g, d)
      (r\<lparr> mw_status := M_REVOKED, mw_revoked_by := Some who, mw_revoked_at := at_time, mw_revoke_reason := why \<rparr>)
      (ro_members R) \<rparr>)"

lemma roster_of_updates:
  "(roster_of db)\<lparr> ro_groups := x \<rparr> = roster_of (db\<lparr> gd_groups := x \<rparr>)"
  "(roster_of db)\<lparr> ro_admins := y \<rparr> = roster_of (db\<lparr> gd_admins := y \<rparr>)"
  "(roster_of db)\<lparr> ro_members := z \<rparr> = roster_of (db\<lparr> gd_memberships := z \<rparr>)"
  by (simp_all add: roster_of_def)

lemmas db_change = change.found[of "roster_of db" for db] change.appoint[of "roster_of db" for db]
  change.dismiss[of "roster_of db" for db] change.admit[of "roster_of db" for db] change.expel[of "roster_of db" for db]

lemmas db_changes = db_change[unfolded roster_of_simps roster_of_updates]

definition roster_ok :: "roster \<Rightarrow> bool" where
  "roster_ok R \<longleftrightarrow> distinct (map fst (ro_admins R)) \<and>
     (\<forall>g d a. dict_get (ro_admins R) (g, d) = Some a \<longrightarrow> dict_get (ro_groups R) g \<noteq> None)"

definition changes :: "ed25519 \<Rightarrow> group_store \<Rightarrow> group_store \<Rightarrow> bool" where
  "changes ed s t \<longleftrightarrow> (\<forall>R. roster s = Some R \<longrightarrow> roster_ok R \<longrightarrow> (\<exists>R'. roster t = Some R' \<and> change ed R R'))"

lemma changes_same [simp, intro]: "roster t = roster s \<Longrightarrow> changes ed s t"
  by (auto simp: changes_def intro: change.same)

text \<open>An operation that starts by reading.\<close>

lemma after_read:
  assumes "reads m" and "\<And>x. m s = (Inr x, s) \<Longrightarrow> changes ed s (snd (f x s))"
  shows "changes ed s (snd (sbind m f s))"
proof (cases "m s")
  case (Pair r s')
  moreover have "s' = s"
    using assms(1) Pair unfolding reads_def by (metis snd_conv)
  ultimately show ?thesis
    using assms(2) by (cases r) (auto simp: sbind_def)
qed

lemma query_result: "gs_query f s = (Inr x, t) \<longleftrightarrow> (\<exists>db. gs_conn s = Some db \<and> x = f db \<and> t = s)"
  by (cases "gs_conn s") (auto simp: gs_query_def gs_require_conn_def sbind_def)

lemma active_admin_result:
  "active_admin g d s = (Inr a, s) \<longleftrightarrow>
    (\<exists>db. gs_conn s = Some db \<and> dict_get (gd_admins db) (g, d) = Some a \<and> ar_status a = A_ACTIVE)"
  by (cases "gs_conn s") (auto simp: active_admin_def get_admin_def get_admin_status_def sbind_def gs_query_def
      gs_require_conn_def split: option.splits if_splits)

lemma decode_key_result [simp]: "decode_key k = Inr pk \<longleftrightarrow> b64decode k = Some pk"
  by (auto simp: decode_key_def split: option.split)

lemma changesI:
  assumes "gs_conn s = Some db" "roster t = Some R'" "roster_ok (roster_of db) \<Longrightarrow> change ed (roster_of db) R'"
  shows "changes ed s t"
  using assms by (auto simp: changes_def)

lemma changes_if: "(c \<Longrightarrow> changes ed s (snd (m s))) \<Longrightarrow> (\<not> c \<Longrightarrow> changes ed s (snd (n s))) \<Longrightarrow>
    changes ed s (snd ((if c then m else n) s))"
  by simp

lemma changes_case: "(x = None \<Longrightarrow> changes ed s (snd (m s))) \<Longrightarrow> (\<And>y. x = Some y \<Longrightarrow> changes ed s (snd (n y s))) \<Longrightarrow>
    changes ed s (snd ((case x of None \<Rightarrow> m | Some y \<Rightarrow> n y) s))"
  by (cases x) simp_all

lemma changes_fail: "changes ed s (snd (sfail err s))"
  by simp

text \<open>An operation that ends by writing a row and recording an event.\<close>

lemma write_and_audit:
  assumes "\<And>db. gs_conn s = Some db \<Longrightarrow> roster_ok (roster_of db) \<Longrightarrow> change ed (roster_of db) (roster_of (f db))"
  shows "changes ed s (snd (sbind (gs_execute f) (\<lambda>_. sbind (audit ed' e g typ desc sev dev act det) (\<lambda>_. sret x)) s))"
proof (cases "gs_conn s")
  case (Some db)
  then show ?thesis
    using assms by (intro changesI[OF Some]) auto
qed (simp add: gs_execute_def gs_require_conn_def sbind_def)

lemmas walk = reads_ops[THEN after_read] reads_active_admin[THEN after_read] reads_get_policy[THEN after_read]
  reads_basic(3)[THEN after_read] changes_if changes_case changes_fail

lemma insert_admin_execute:
  "gs_conn s = Some db \<Longrightarrow> dict_get (gd_admins db) (g, d) = None \<Longrightarrow> sbind (insert_admin g d a) k s =
     sbind (gs_execute (\<lambda>db. db\<lparr> gd_admins := dict_set (g, d) a (gd_admins db) \<rparr>)) k s"
  by (simp add: insert_admin_def sbind_def)

lemma add_admin_changes: "changes ed s (snd (add_admin ed e g d pk b s))"
  unfolding add_admin_def Let_def
proof (intro walk)
  fix x y z
  assume h: "get_group g s = (Inr x, s)" "get_admin_status g b s = (Inr y, s)" "get_admin g d s = (Inr z, s)"
    "x \<noteq> None" "\<not> y \<noteq> Some A_ACTIVE" "\<not> z \<noteq> None"
  then obtain db where db: "gs_conn s = Some db" "dict_get (gd_admins db) (g, d) = None"
    by (auto simp: query_defs query_result)
  show "changes ed s (snd (sbind (insert_admin g d (new_admin (b64encode pk) (time_of (ge_clock e 0)) (Some b)))
     (\<lambda>_. sbind (audit ed e g ''admin_added'' (''Admin '' @ take 8 d @ '' added to group '' @ g) INFO (Some d) (Some b) [])
      (\<lambda>_. sret (new_admin (b64encode pk) (time_of (ge_clock e 0)) (Some b)))) s))"
    unfolding insert_admin_execute[OF db]
    using h by (intro write_and_audit) (auto simp: query_defs query_result intro: db_changes)
qed

lemma other_active_admin:
  assumes "distinct (map fst as)" and "1 < length [(k, a) \<leftarrow> as. fst k = g \<and> A_ACTIVE = ar_status a]"
  shows "\<exists>d' a'. d' \<noteq> d \<and> dict_get as (g, d') = Some a' \<and> ar_status a' = A_ACTIVE"
proof -
  define xs where "xs = [(k, a) \<leftarrow> as. fst k = g \<and> A_ACTIVE = ar_status a]"
  obtain p q zs where xs: "xs = p # q # zs"
    using assms(2) unfolding xs_def[symmetric] by (cases xs; cases "tl xs") auto
  have "distinct (map fst xs)"
    using assms(1) by (simp add: xs_def distinct_map_filter)
  then have "fst p \<noteq> fst q"
    using xs by simp
  then have "fst p \<noteq> (g, d) \<or> fst q \<noteq> (g, d)"
    by auto
  moreover have "p \<in> set xs" "q \<in> set xs"
    using xs by simp_all
  ultimately obtain r where r: "r \<in> set xs" "fst r \<noteq> (g, d)"
    by blast
  then have "r \<in> set as" "fst (fst r) = g" "ar_status (snd r) = A_ACTIVE"
    by (auto simp: xs_def)
  then have "dict_get as (g, snd (fst r)) = Some (snd r)"
    using assms(1) by (intro map_of_is_SomeI) (auto simp: prod_eq_iff)
  then show ?thesis
    using r(2) \<open>fst (fst r) = g\<close> \<open>ar_status (snd r) = A_ACTIVE\<close>
    by (intro exI[of _ "snd (fst r)"] exI[of _ "snd r"]) (auto simp: prod_eq_iff)
qed

lemma remove_admin_changes: "changes ed s (snd (remove_admin ed e g d b why s))"
  unfolding remove_admin_def
proof (intro walk write_and_audit)
  fix st active db
  assume h: "get_admin_status g d s = (Inr st, s)" "\<not> st \<noteq> Some A_ACTIVE"
      "list_admins g (Some A_ACTIVE) s = (Inr active, s)" "\<not> length active \<le> 1"
    and db: "gs_conn s = Some db" "roster_ok (roster_of db)"
  have "1 < length [(k, a) \<leftarrow> gd_admins db. fst k = g \<and> A_ACTIVE = ar_status a]"
    using h(3,4) db(1) unfolding list_admins_def by (auto dest!: arg_cong[of _ active length])
  moreover have "distinct (map fst (gd_admins db))"
    using db(2) by (simp add: roster_ok_def)
  ultimately obtain d' a' where other: "dict_get (gd_admins db) (g, d') = Some a'" "ar_status a' = A_ACTIVE" "d' \<noteq> d"
    using other_active_admin[of "gd_admins db" g d] by blast
  obtain a where "dict_get (gd_admins db) (g, d) = Some a" "ar_status a = A_ACTIVE"
    using h(1,2) db(1) by (auto simp: query_defs)
  then show "change ed (roster_of db) (roster_of (case dict_get (gd_admins db) (g, d) of
        None \<Rightarrow> db
      | Some a \<Rightarrow> db\<lparr> gd_admins := dict_set (g, d)
          (a\<lparr> ar_status := A_REMOVED, ar_removed_by := Some b, ar_removed_at := Some (ge_clock e 0) \<rparr>) (gd_admins db) \<rparr>))"
    using db_changes(3)[OF _ _ other] by simp
qed

lemma record_membership_changes: "changes ed s (snd (record_membership ed e c s))"
  unfolding record_membership_def
  by (intro walk write_and_audit) (auto simp: query_defs query_result active_admin_result intro: db_changes)

lemma mark_revoked_changes:
  assumes "\<And>db r. gs_conn s = Some db \<Longrightarrow> dict_get (gd_memberships db) (g, d) = Some r \<Longrightarrow>
      may_end ed (roster_of db) g d r who"
  shows "changes ed s (snd (mark_membership_revoked ed e g d who why t s))"
  unfolding mark_membership_revoked_def
  by (intro walk write_and_audit) (auto simp: query_defs query_result intro!: db_changes(5) assms)

lemma may_end_admin:
  "dict_get (gd_admins db) (g, b) = Some a \<Longrightarrow> ar_status a = A_ACTIVE \<Longrightarrow> may_end ed (roster_of db) g d r b"
  by (simp add: may_end_def)

lemma revoke_membership_changes: "changes ed s (snd (revoke_membership ed e g d b why s))"
  unfolding revoke_membership_def
  by (intro walk mark_revoked_changes) (auto simp: query_defs query_result intro: may_end_admin)

lemma record_revocation_changes: "changes ed s (snd (record_revocation ed e r s))"
  unfolding record_revocation_def
  by (intro walk mark_revoked_changes) (auto simp: active_admin_result intro: may_end_admin)

lemma join_response_changes: "changes ed s (snd (process_join_response ed e r s))"
  unfolding process_join_response_def by (intro walk record_membership_changes)

lemma leave_response_changes: "changes ed s (snd (process_leave_response ed e r s))"
  unfolding process_leave_response_def by (intro walk record_revocation_changes)

lemma leave_request_changes: "changes ed s (snd (process_leave_request ed e q s))"
  unfolding process_leave_request_def
proof (intro walk mark_revoked_changes)
  fix found cert st pk policy db r
  assume "get_membership (lq_group_id q) (lq_device_id q) s = (Inr found, s)" "found = Some cert"
    "slift (decode_key (mc_device_public_key cert)) s = (Inr pk, s)" "\<not> \<not> verify_leave_request ed q pk"
    "gs_conn s = Some db" "dict_get (gd_memberships db) (lq_group_id q, lq_device_id q) = Some r"
  then show "may_end ed (roster_of db) (lq_group_id q) (lq_device_id q) r (lq_device_id q)"
    by (auto simp: may_end_def query_defs query_result row_to_cert_def)
qed

lemma create_group_changes: "changes ed s (snd (store_create_group ed e g s))"
proof (cases "gs_conn s")
  case (Some db)
  define i where "i = gi_group_id g"
  define a where "a = new_admin (gi_admin_public_key g) (gi_created_at g) None"
  define db1 where "db1 = db\<lparr> gd_groups := dict_set i g (gd_groups db) \<rparr>"
  show ?thesis
  proof (cases "dict_get (gd_groups db) i = None \<and> roster_ok (roster_of db)")
    case True
    then have free: "dict_get (gd_admins db1) (i, gi_admin_device_id g) = None"
      by (fastforce simp: roster_ok_def db1_def)
    show ?thesis
    proof (rule changesI[OF Some])
      show "roster (snd (store_create_group ed e g s)) =
          Some (roster_of (db1\<lparr> gd_admins := dict_set (i, gi_admin_device_id g) a (gd_admins db1) \<rparr>))"
        using Some True free
        by (simp add: store_create_group_def get_group_def insert_admin_execute i_def[symmetric] a_def[symmetric] db1_def)
      show "change ed (roster_of db) (roster_of (db1\<lparr> gd_admins := dict_set (i, gi_admin_device_id g) a (gd_admins db1) \<rparr>))"
        using change.found[of "roster_of db" g ed "gi_admin_public_key g" "gi_created_at g"] True
        by (simp add: roster_of_def db1_def i_def a_def)
    qed
  qed (use Some in \<open>auto simp: changes_def store_create_group_def get_group_def i_def intro: change.same\<close>)
qed (simp add: store_create_group_def get_group_def gs_query_def gs_require_conn_def sbind_def)

section \<open>Every operation\<close>

inductive group_step :: "ed25519 \<Rightarrow> group_store \<Rightarrow> group_store \<Rightarrow> bool" for ed where
  "group_step ed s (snd (store_create_group ed e g s))"
| "group_step ed s (snd (add_admin ed e gid d pk b s))"
| "group_step ed s (snd (remove_admin ed e gid d b why s))"
| "group_step ed s (snd (record_membership ed e cert s))"
| "group_step ed s (snd (revoke_membership ed e gid d b why s))"
| "group_step ed s (snd (record_revocation ed e rv s))"
| "group_step ed s (snd (process_join_response ed e jr s))"
| "group_step ed s (snd (process_leave_request ed e lq s))"
| "group_step ed s (snd (process_leave_response ed e lr s))"
| "group_step ed s (snd (set_policy ed e p s))"
| "group_step ed s (snd (record_audit_event ed e gid ev verify s))"
| "group_step ed s (snd (store_capability ed e cap s))"
| "group_step ed s (snd (mark_capability_used now cid s))"
| "group_step ed s (snd (purge_expired_capabilities t s))"

lemma keeps_roster_changes: "keeps_view roster_of m \<Longrightarrow> changes ed s (snd (m s))"
  by (simp add: keeps_view_def roster_def)

lemma other_tables_keep_roster:
  "keeps_view roster_of (set_policy ed e p)" "keeps_view roster_of (store_capability ed e c)"
  "keeps_view roster_of (mark_capability_used now i)" "keeps_view roster_of (purge_expired_capabilities t)"
  unfolding set_policy_def store_capability_def mark_capability_used_def purge_expired_capabilities_def
  by (auto intro!: keeps_view_sbind execute_keeps_view audit_keeps split: option.split)

lemma group_step_changes: "group_step ed s t \<Longrightarrow> changes ed s t"
  by (induction rule: group_step.induct)
    (simp_all add: create_group_changes add_admin_changes remove_admin_changes record_membership_changes
      revoke_membership_changes record_revocation_changes join_response_changes leave_request_changes
      leave_response_changes keeps_roster_changes[OF other_tables_keep_roster(1)]
      keeps_roster_changes[OF other_tables_keep_roster(2)] keeps_roster_changes[OF other_tables_keep_roster(3)]
      keeps_roster_changes[OF other_tables_keep_roster(4)] keeps_roster_changes[OF record_audit_event_keeps[of roster_of]])

section \<open>What a change keeps\<close>

definition cert_part :: "membership_row \<Rightarrow> membership_row" where
  "cert_part r = r\<lparr> mw_status := M_ACTIVE, mw_revoked_by := None, mw_revoked_at := None, mw_revoke_reason := None \<rparr>"

lemma cert_part_simps [simp]:
  "cert_part (cert_row c) = cert_row c"
  "cert_part (r\<lparr> mw_status := st, mw_revoked_by := b, mw_revoked_at := t, mw_revoke_reason := w \<rparr>) = cert_part r"
  by (simp_all add: cert_part_def cert_row_def)

text \<open>Rows are never lost: a group stays as it was founded, an administrator keeps its key and
  appointment and a removed one stays removed, a membership keeps its certificate and a revoked one
  its row.\<close>

definition extends :: "roster \<Rightarrow> roster \<Rightarrow> bool" where
  "extends R R' \<longleftrightarrow>
    (\<forall>g x. dict_get (ro_groups R) g = Some x \<longrightarrow> dict_get (ro_groups R') g = Some x) \<and>
    (\<forall>k a. dict_get (ro_admins R) k = Some a \<longrightarrow> (\<exists>a'. dict_get (ro_admins R') k = Some a' \<and>
       ar_public_key a' = ar_public_key a \<and> ar_added_by a' = ar_added_by a \<and>
       (ar_status a = A_REMOVED \<longrightarrow> a' = a))) \<and>
    (\<forall>k r. dict_get (ro_members R) k = Some r \<longrightarrow> (\<exists>r'. dict_get (ro_members R') k = Some r' \<and>
       cert_part r' = cert_part r \<and> (mw_status r = M_REVOKED \<longrightarrow> r' = r)))"

lemma extendsD:
  "extends R R' \<Longrightarrow> dict_get (ro_groups R) g = Some x \<Longrightarrow> dict_get (ro_groups R') g = Some x"
  "extends R R' \<Longrightarrow> dict_get (ro_admins R) k = Some a \<Longrightarrow> \<exists>a'. dict_get (ro_admins R') k = Some a' \<and>
     ar_public_key a' = ar_public_key a \<and> ar_added_by a' = ar_added_by a \<and> (ar_status a = A_REMOVED \<longrightarrow> a' = a)"
  "extends R R' \<Longrightarrow> dict_get (ro_members R) m = Some r \<Longrightarrow> \<exists>r'. dict_get (ro_members R') m = Some r' \<and>
     cert_part r' = cert_part r \<and> (mw_status r = M_REVOKED \<longrightarrow> r' = r)"
  unfolding extends_def by blast+

lemma extends_refl [simp]: "extends R R"
  by (simp add: extends_def)

lemma extends_trans:
  assumes "extends R S" "extends S T"
  shows "extends R T"
  unfolding extends_def[of R T]
proof (intro conjI allI impI)
  fix k a
  assume "dict_get (ro_admins R) k = Some a"
  from extendsD(2)[OF assms(1) this] obtain b where b: "dict_get (ro_admins S) k = Some b"
      "ar_public_key b = ar_public_key a" "ar_added_by b = ar_added_by a" "ar_status a = A_REMOVED \<longrightarrow> b = a"
    by blast
  from extendsD(2)[OF assms(2) b(1)] b show "\<exists>a'. dict_get (ro_admins T) k = Some a' \<and>
      ar_public_key a' = ar_public_key a \<and> ar_added_by a' = ar_added_by a \<and> (ar_status a = A_REMOVED \<longrightarrow> a' = a)"
    by auto
next
  fix k r
  assume "dict_get (ro_members R) k = Some r"
  from extendsD(3)[OF assms(1) this] obtain u where u: "dict_get (ro_members S) k = Some u"
      "cert_part u = cert_part r" "mw_status r = M_REVOKED \<longrightarrow> u = r"
    by blast
  from extendsD(3)[OF assms(2) u(1)] u show "\<exists>r'. dict_get (ro_members T) k = Some r' \<and>
      cert_part r' = cert_part r \<and> (mw_status r = M_REVOKED \<longrightarrow> r' = r)"
    by auto
qed (blast intro: extendsD(1)[OF assms(1)] extendsD(1)[OF assms(2)])

lemma change_extends: "change ed R R' \<Longrightarrow> roster_ok R \<Longrightarrow> extends R R'"
proof (induction rule: change.induct)
  case (found R g pk t)
  then have "dict_get (ro_admins R) (gi_group_id g, gi_admin_device_id g) = None"
    by (fastforce simp: roster_ok_def)
  with found show ?case
    by (auto simp: extends_def)
qed (auto simp: extends_def)

lemma change_roster_ok:
  assumes "change ed R R'" "roster_ok R"
  shows "roster_ok R'"
proof -
  define known where "known R \<longleftrightarrow> (\<forall>g d a. dict_get (ro_admins R) (g, d) = Some a \<longrightarrow> dict_get (ro_groups R) g \<noteq> None)" for R :: roster
  have ok: "distinct (map fst (ro_admins R))" "known R"
    using assms(2) by (simp_all add: roster_ok_def known_def)
  from assms(1) ok have "distinct (map fst (ro_admins R')) \<and> known R'"
    by (induction rule: change.induct) (auto simp: known_def distinct_update simp del: map_of_eq_Some_iff)
  then show ?thesis
    by (simp add: roster_ok_def known_def)
qed


text \<open>Appointment: the founder, and whoever an appointed administrator added.\<close>

inductive appointed :: "roster \<Rightarrow> string \<Rightarrow> string \<Rightarrow> bool" for R where
  founder: "dict_get (ro_groups R) g = Some x \<Longrightarrow> appointed R g (gi_admin_device_id x)"
| added: "dict_get (ro_admins R) (g, d) = Some a \<Longrightarrow> ar_added_by a = Some b \<Longrightarrow> appointed R g b \<Longrightarrow> appointed R g d"

lemma appointed_mono: "appointed R g d \<Longrightarrow> extends R R' \<Longrightarrow> appointed R' g d"
proof (induction rule: appointed.induct)
  case (added g d a b)
  from extendsD(2)[OF added.prems added.hyps(1)] obtain a' where "dict_get (ro_admins R') (g, d) = Some a'"
      "ar_added_by a' = ar_added_by a"
    by blast
  with added show ?case
    by (auto intro: appointed.added)
qed (auto intro: appointed.founder extendsD)

text \<open>A membership row carries a certificate for its group and device that verifies under the key of
  an administrator of record.\<close>

definition signed_row :: "ed25519 \<Rightarrow> roster \<Rightarrow> string \<Rightarrow> string \<Rightarrow> membership_row \<Rightarrow> bool" where
  "signed_row ed R g d r \<longleftrightarrow> (\<exists>c a pk. mc_group_id c = g \<and> mc_device_id c = d \<and> cert_part r = cert_row c \<and>
     dict_get (ro_admins R) (g, mc_admin_device_id c) = Some a \<and> b64decode (ar_public_key a) = Some pk \<and>
     verify_membership_certificate ed c pk)"

lemma signed_row_mono: "signed_row ed R g d r \<Longrightarrow> extends R R' \<Longrightarrow> cert_part r' = cert_part r \<Longrightarrow> signed_row ed R' g d r'"
  unfolding signed_row_def by (metis extendsD(2))

definition good :: "ed25519 \<Rightarrow> roster \<Rightarrow> bool" where
  "good ed R \<longleftrightarrow> roster_ok R \<and>
    (\<forall>g x. dict_get (ro_groups R) g = Some x \<longrightarrow>
       (\<exists>d a. dict_get (ro_admins R) (g, d) = Some a \<and> ar_status a = A_ACTIVE)) \<and>
    (\<forall>g d a. dict_get (ro_admins R) (g, d) = Some a \<longrightarrow> appointed R g d) \<and>
    (\<forall>g d r. dict_get (ro_members R) (g, d) = Some r \<longrightarrow> signed_row ed R g d r) \<and>
    (\<forall>g x. dict_get (ro_groups R) g = Some x \<longrightarrow> gi_group_id x = g)"

lemma good_roster_ok: "good ed R \<Longrightarrow> roster_ok R"
  by (simp add: good_def)

lemma change_keeps_an_active_admin:
  assumes "change ed R R'"
    and "\<And>g x. dict_get (ro_groups R) g = Some x \<Longrightarrow> \<exists>d a. dict_get (ro_admins R) (g, d) = Some a \<and> ar_status a = A_ACTIVE"
    and "dict_get (ro_groups R') g = Some x"
  shows "\<exists>d a. dict_get (ro_admins R') (g, d) = Some a \<and> ar_status a = A_ACTIVE"
  using assms
proof (induction rule: change.induct)
  case (found R i pk t)
  then show ?case
    by (cases "g = gi_group_id i") (force simp: new_admin_def)+
next
  case (appoint R i b a d pk t)
  then show ?case
    by (fastforce simp: new_admin_def)
next
  case (dismiss R i d a d' a' at_time who)
  show ?case
  proof (cases "g = i")
    case True
    with dismiss show ?thesis
      by (intro exI[of _ d'] exI[of _ a']) simp
  next
    case False
    then show ?thesis
      using dismiss.prems by fastforce
  qed
qed auto

lemma change_new_admin:
  assumes "change ed R R'" "dict_get (ro_admins R') (g, d) = Some a"
  shows "(\<exists>a. dict_get (ro_admins R) (g, d) = Some a) \<or>
    (\<exists>x. dict_get (ro_groups R') g = Some x \<and> d = gi_admin_device_id x) \<or>
    (\<exists>b a'. ar_added_by a = Some b \<and> dict_get (ro_admins R) (g, b) = Some a')"
  using assms by (induction rule: change.induct) (auto simp: new_admin_def split: if_splits)

lemma change_new_member:
  assumes "change ed R R'" "dict_get (ro_members R') (g, d) = Some r"
  shows "(\<exists>r'. dict_get (ro_members R) (g, d) = Some r' \<and> cert_part r' = cert_part r) \<or> signed_row ed R g d r"
  using assms by (induction rule: change.induct) (auto simp: signed_row_def split: if_splits)

lemma change_good:
  assumes "change ed R R'" "good ed R"
  shows "good ed R'"
proof -
  have ok: "roster_ok R"
    using assms(2) by (simp add: good_def)
  have ext: "extends R R'"
    by (rule change_extends[OF assms(1) ok])
  have "appointed R' g d" if "dict_get (ro_admins R') (g, d) = Some a" for g d a
    using change_new_admin[OF assms(1) that]
  proof (elim disjE exE conjE)
    fix b a'
    assume b: "ar_added_by a = Some b" "dict_get (ro_admins R) (g, b) = Some a'"
    then have "appointed R' g b"
      using assms(2) appointed_mono[OF _ ext] unfolding good_def by blast
    then show ?thesis
      by (rule appointed.added[OF that b(1)])
  qed (use assms(2) appointed_mono[OF _ ext] in \<open>auto simp: good_def intro: appointed.founder\<close>)
  moreover have "signed_row ed R' g d r" if "dict_get (ro_members R') (g, d) = Some r" for g d r
    using change_new_member[OF assms(1) that]
  proof (elim disjE exE conjE)
    fix r'
    assume r': "dict_get (ro_members R) (g, d) = Some r'" "cert_part r' = cert_part r"
    then have "signed_row ed R g d r'"
      using assms(2) by (simp add: good_def)
    then show ?thesis
      by (rule signed_row_mono[OF _ ext]) (simp add: r')
  qed (simp add: signed_row_mono[OF _ ext])
  moreover have "gi_group_id x = g" if "dict_get (ro_groups R') g = Some x" for g x
    using assms(1) that assms(2)[unfolded good_def] by (induction rule: change.induct) (auto split: if_splits)
  moreover have "\<exists>d a. dict_get (ro_admins R') (g, d) = Some a \<and> ar_status a = A_ACTIVE"
    if "dict_get (ro_groups R') g = Some x" for g x
    by (rule change_keeps_an_active_admin[OF assms(1) _ that]) (use assms(2) in \<open>simp add: good_def\<close>)
  ultimately show ?thesis
    unfolding good_def using change_roster_ok[OF assms(1) ok] by simp
qed

interpretation authority_tables: step_invariant "change ed" "good ed" for ed
  by unfold_locales (rule change_good)

interpretation tombstones: step_invariant "change ed" "\<lambda>R'. good ed R' \<and> extends R R'" for ed R
proof
  fix S T
  assume "change ed S T" "good ed S \<and> extends R S"
  then show "good ed T \<and> extends R T"
    using change_good change_extends extends_trans good_roster_ok by blast
qed

text \<open>A run of the store is a run of changes.\<close>

lemma group_steps_change:
  assumes "(group_step ed)\<^sup>*\<^sup>* s t" "roster s = Some R" "good ed R"
  shows "\<exists>R'. roster t = Some R' \<and> (change ed)\<^sup>*\<^sup>* R R'"
  using assms
proof (induction rule: rtranclp_induct)
  case (step t u)
  then obtain S where S: "roster t = Some S" "(change ed)\<^sup>*\<^sup>* R S"
    by blast
  then have "good ed S"
    using authority_tables.after_steps step.prems by blast
  then have "roster_ok S"
    by (simp add: good_def)
  then obtain U where "roster u = Some U" "change ed S U"
    using group_step_changes[OF step.hyps(2)] S(1) unfolding changes_def by blast
  with S show ?case
    by (meson rtranclp.rtrancl_into_rtrancl)
qed auto

lemma good_empty [simp]: "good ed (roster_of empty_group_db)"
  by (simp add: good_def roster_ok_def roster_of_def empty_group_db_def)

text \<open>The tables of a store reached from a new database.\<close>

lemma reached_roster:
  assumes "gs_conn s = Some empty_group_db" "(group_step ed)\<^sup>*\<^sup>* s t"
  obtains R where "roster t = Some R" "good ed R"
proof -
  from group_steps_change[OF assms(2) roster_attached[OF assms(1)] good_empty] obtain R
    where "roster t = Some R" "(change ed)\<^sup>*\<^sup>* (roster_of empty_group_db) R"
    by blast
  then show thesis
    using that authority_tables.after_steps good_empty by blast
qed

section \<open>Policies and capabilities\<close>

lemma policy_row_roundtrip: "row_to_policy (gp_group_id p) (policy_to_row p) = Inr p"
proof -
  define text_of where "text_of = dumps (matrix_json (communication_matrix p))"
  have "loads text_of = Some (JList (map rule_to_dict (communication_matrix p)))" "text_of \<noteq> []"
    unfolding text_of_def by (subst loads_dumps) (simp_all add: matrix_json_def[symmetric])
  then show ?thesis
    unfolding row_to_policy_def policy_to_row_def text_of_def[symmetric] by (simp add: matrix_roundtrip)
qed

text \<open>Every stored policy is one that was set, and capability ids are a primary key.\<close>

definition side_tables :: "group_db \<Rightarrow> (string, policy_row) dict \<times> (string, capability_row) dict" where
  "side_tables db = (gd_policies db, gd_capabilities db)"

definition side_ok :: "(string, policy_row) dict \<times> (string, capability_row) dict \<Rightarrow> bool" where
  "side_ok v \<longleftrightarrow> (\<forall>g r. dict_get (fst v) g = Some r \<longrightarrow> (\<exists>p. r = policy_to_row p \<and> gp_group_id p = g)) \<and>
     distinct (map fst (fst v)) \<and> distinct (map fst (snd v))"

definition tables_ok :: "group_store \<Rightarrow> bool" where
  "tables_ok s \<longleftrightarrow> (\<forall>db. gs_conn s = Some db \<longrightarrow> side_ok (side_tables db))"

lemma side_tables_simps [simp]:
  "side_tables (db\<lparr> gd_audit_log := a \<rparr>) = side_tables db" "side_tables (db\<lparr> gd_groups := b \<rparr>) = side_tables db"
  "side_tables (db\<lparr> gd_admins := c \<rparr>) = side_tables db" "side_tables (db\<lparr> gd_memberships := d \<rparr>) = side_tables db"
  by (simp_all add: side_tables_def)

lemma keeps_view_if: "keeps_view v m \<Longrightarrow> keeps_view v n \<Longrightarrow> keeps_view v (if c then m else n)"
  by simp

lemma keeps_view_case: "keeps_view v m \<Longrightarrow> (\<And>y. keeps_view v (n y)) \<Longrightarrow> keeps_view v (case x of None \<Rightarrow> m | Some y \<Rightarrow> n y)"
  by (cases x) simp_all

lemmas view_walk = keeps_view_sbind keeps_view_basic keeps_view_if keeps_view_case audit_keeps execute_keeps_view

lemma membership_ops_keep_side [simp]:
  "keeps_view side_tables (record_membership ed e c)"
  "keeps_view side_tables (mark_membership_revoked ed e g d b why t)"
  unfolding record_membership_def mark_membership_revoked_def by (intro view_walk; simp split: option.split)+

lemma authority_ops_keep_side:
  "keeps_view side_tables (store_create_group ed e gi)" "keeps_view side_tables (add_admin ed e g d pk b)"
  "keeps_view side_tables (remove_admin ed e g d b why)" "keeps_view side_tables (revoke_membership ed e g d b why)"
  "keeps_view side_tables (record_revocation ed e rv)" "keeps_view side_tables (process_join_response ed e jr)"
  "keeps_view side_tables (process_leave_request ed e q)" "keeps_view side_tables (process_leave_response ed e lr)"
  unfolding store_create_group_def add_admin_def remove_admin_def revoke_membership_def record_revocation_def
    process_join_response_def process_leave_request_def process_leave_response_def insert_admin_def Let_def
  by (intro view_walk membership_ops_keep_side; simp split: option.split)+

lemma keeps_side_ok: "keeps_view side_tables m \<Longrightarrow> tables_ok s \<Longrightarrow> tables_ok (snd (m s))"
  unfolding tables_ok_def
proof (intro allI impI)
  fix db
  assume h: "keeps_view side_tables m" "\<forall>db. gs_conn s = Some db \<longrightarrow> side_ok (side_tables db)" "gs_conn (snd (m s)) = Some db"
  then have "map_option side_tables (gs_conn s) = Some (side_tables db)"
    unfolding keeps_view_def by (metis option.simps(9))
  with h(2) show "side_ok (side_tables db)"
    by auto
qed

text \<open>An operation of the other kind: it reads, then writes once.\<close>

definition keeps_tables :: "(group_store, 'a) op \<Rightarrow> bool" where
  "keeps_tables m \<longleftrightarrow> (\<forall>s. tables_ok s \<longrightarrow> tables_ok (snd (m s)))"

lemma keeps_tables_sbind [intro]: "keeps_tables m \<Longrightarrow> (\<And>x. keeps_tables (f x)) \<Longrightarrow> keeps_tables (sbind m f)"
  using keeps_sbind[of tables_ok m f] by (simp add: keeps_tables_def keeps_def)

lemma keeps_tables_execute:
  "(\<And>db. side_ok (side_tables db) \<Longrightarrow> side_ok (side_tables (f db))) \<Longrightarrow> keeps_tables (gs_execute f)"
  by (auto simp: keeps_tables_def tables_ok_def gs_execute_def gs_require_conn_def sbind_def split: option.split)

lemma keeps_tables_view: "keeps_view side_tables m \<Longrightarrow> keeps_tables m"
  by (simp add: keeps_tables_def keeps_side_ok)

lemma keeps_tables_basic [simp, intro]:
  "keeps_tables (sret x)" "keeps_tables (sfail err)" "keeps_tables (slift r)" "keeps_tables (gs_query f)"
  "keeps_tables (get_group g)" "keeps_tables (get_admin_status g d)" "keeps_tables (list_admins g st)"
  "keeps_tables (audit ed e g typ desc sev dev act det)"
  by (simp_all add: keeps_tables_view audit_keeps)

lemma side_ok_set_policy: "side_ok (ps, cs) \<Longrightarrow> side_ok (dict_set (gp_group_id p) (policy_to_row p) ps, cs)"
  unfolding side_ok_def by (auto simp: distinct_update simp del: map_of_eq_Some_iff)

lemma side_ops_keep_tables:
  "keeps_tables (set_policy ed e p)" "keeps_tables (store_capability ed e c)" "keeps_tables (mark_capability_used now i)"
  "keeps_tables (purge_expired_capabilities t)"
proof -
  show "keeps_tables (set_policy ed e p)"
    unfolding set_policy_def
    by (auto intro!: keeps_tables_sbind keeps_tables_execute simp: side_tables_def side_ok_set_policy)
  show "keeps_tables (store_capability ed e c)"
    unfolding store_capability_def
    by (auto intro!: keeps_tables_sbind keeps_tables_execute simp: side_ok_def side_tables_def distinct_delete delete_keys distinct_removeAll
        simp del: map_of_eq_Some_iff)
  show "keeps_tables (mark_capability_used now i)"
    unfolding mark_capability_used_def
    by (intro keeps_tables_execute) (auto simp: side_ok_def side_tables_def distinct_update split: option.split
        simp del: map_of_eq_Some_iff)
  show "keeps_tables (purge_expired_capabilities t)"
    unfolding purge_expired_capabilities_def
    by (auto intro!: keeps_tables_sbind keeps_tables_execute simp: side_ok_def side_tables_def distinct_map_filter
        simp del: map_of_eq_Some_iff)
qed

interpretation side: step_invariant "group_step ed" tables_ok for ed
proof
  fix s t
  assume "group_step ed s t" "tables_ok s"
  then show "tables_ok t"
    by (induction rule: group_step.induct)
      (simp_all add: keeps_side_ok authority_ops_keep_side record_audit_event_keeps
        side_ops_keep_tables[unfolded keeps_tables_def, rule_format])
qed

lemma tables_ok_empty: "gs_conn s = Some empty_group_db \<Longrightarrow> tables_ok s"
  by (simp add: tables_ok_def side_ok_def side_tables_def empty_group_db_def)

section \<open>The abstract authority\<close>

text \<open>The contract of the store as sets: who administers, who used to, who is a member, who left.\<close>

record authority =
  au_groups :: "string set"
  au_admins :: "(string \<times> string) set"
  au_former :: "(string \<times> string) set"
  au_members :: "(string \<times> string) set"
  au_left :: "(string \<times> string) set"

definition no_authority :: authority where
  "no_authority = \<lparr> au_groups = {}, au_admins = {}, au_former = {}, au_members = {}, au_left = {} \<rparr>"

inductive authority_step :: "authority \<Rightarrow> authority \<Rightarrow> bool" where
  idle: "authority_step A A"
| founded: "g \<notin> au_groups A \<Longrightarrow> (g, d) \<notin> au_admins A \<union> au_former A \<Longrightarrow>
    authority_step A (A\<lparr> au_groups := insert g (au_groups A), au_admins := insert (g, d) (au_admins A) \<rparr>)"
| appointed: "g \<in> au_groups A \<Longrightarrow> (g, b) \<in> au_admins A \<Longrightarrow> (g, d) \<notin> au_admins A \<union> au_former A \<Longrightarrow>
    authority_step A (A\<lparr> au_admins := insert (g, d) (au_admins A) \<rparr>)"
| dismissed: "(g, d) \<in> au_admins A \<Longrightarrow> (g, d') \<in> au_admins A \<Longrightarrow> d' \<noteq> d \<Longrightarrow>
    authority_step A (A\<lparr> au_admins := au_admins A - {(g, d)}, au_former := insert (g, d) (au_former A) \<rparr>)"
| admitted: "g \<in> au_groups A \<Longrightarrow> (g, b) \<in> au_admins A \<Longrightarrow> (g, d) \<notin> au_members A \<union> au_left A \<Longrightarrow>
    authority_step A (A\<lparr> au_members := insert (g, d) (au_members A) \<rparr>)"
| ended: "(g, d) \<in> au_members A \<Longrightarrow> b = d \<or> (g, b) \<in> au_admins A \<Longrightarrow>
    authority_step A (A\<lparr> au_members := au_members A - {(g, d)}, au_left := insert (g, d) (au_left A) \<rparr>)"

definition with_status :: "('r \<Rightarrow> 'st) \<Rightarrow> 'st \<Rightarrow> ('k, 'r) dict \<Rightarrow> 'k set" where
  "with_status status st d = {k. \<exists>r. dict_get d k = Some r \<and> status r = st}"

definition authority :: "roster \<Rightarrow> authority" where
  "authority R = \<lparr> au_groups = with_status (\<lambda>_. True) True (ro_groups R),
     au_admins = with_status ar_status A_ACTIVE (ro_admins R), au_former = with_status ar_status A_REMOVED (ro_admins R),
     au_members = with_status mw_status M_ACTIVE (ro_members R), au_left = with_status mw_status M_REVOKED (ro_members R) \<rparr>"

lemma with_status_set:
  "with_status status st (dict_set k r d) =
    (if status r = st then insert k (with_status status st d) else with_status status st d - {k})"
  by (auto simp: with_status_def split: if_splits)

lemma with_status_iff: "k \<in> with_status status st d \<longleftrightarrow> (\<exists>r. dict_get d k = Some r \<and> status r = st)"
  by (simp add: with_status_def)

lemma without_status: "dict_get d k = None \<Longrightarrow> k \<notin> with_status status st d"
  "dict_get d k = Some r \<Longrightarrow> status r \<noteq> st \<Longrightarrow> k \<notin> with_status status st d"
  by (simp_all add: with_status_def)

lemma change_refines:
  assumes "change ed R R'" "roster_ok R"
  shows "authority_step (authority R) (authority R')"
  using assms
proof (induction rule: change.induct)
  case (found R g pk t)
  define i where "i = (gi_group_id g, gi_admin_device_id g)"
  have free: "dict_get (ro_admins R) i = None"
    using found by (fastforce simp: roster_ok_def i_def)
  then have "authority (R\<lparr> ro_groups := dict_set (gi_group_id g) g (ro_groups R),
      ro_admins := dict_set i (new_admin pk t None) (ro_admins R) \<rparr>) =
    (authority R)\<lparr> au_groups := insert (gi_group_id g) (au_groups (authority R)),
      au_admins := insert i (au_admins (authority R)) \<rparr>"
    by (simp add: authority_def with_status_set new_admin_def without_status)
  moreover have "authority_step (authority R) ((authority R)\<lparr> au_groups := insert (gi_group_id g) (au_groups (authority R)),
      au_admins := insert i (au_admins (authority R)) \<rparr>)"
    unfolding i_def using found.hyps free by (intro authority_step.founded) (auto simp: authority_def with_status_iff i_def)
  ultimately show ?case
    by (simp add: i_def)
next
  case (appoint R g b a d pk t)
  then have "authority (R\<lparr> ro_admins := dict_set (g, d) (new_admin pk t (Some b)) (ro_admins R) \<rparr>) =
      (authority R)\<lparr> au_admins := insert (g, d) (au_admins (authority R)) \<rparr>"
    by (simp add: authority_def with_status_set new_admin_def without_status)
  then show ?case
    using appoint.hyps authority_step.appointed[of g "authority R" b d] by (auto simp: authority_def with_status_iff)
next
  case (dismiss R g d a d' a' at_time who)
  then have "authority (R\<lparr> ro_admins := dict_set (g, d)
        (a\<lparr> ar_status := A_REMOVED, ar_removed_by := who, ar_removed_at := at_time \<rparr>) (ro_admins R) \<rparr>) =
      (authority R)\<lparr> au_admins := au_admins (authority R) - {(g, d)}, au_former := insert (g, d) (au_former (authority R)) \<rparr>"
    by (simp add: authority_def with_status_set)
  then show ?case
    using dismiss.hyps authority_step.dismissed[of g d "authority R" d'] by (auto simp: authority_def with_status_iff)
next
  case (admit R c a pk)
  then have "authority (R\<lparr> ro_members := dict_set (mc_group_id c, mc_device_id c) (cert_row c) (ro_members R) \<rparr>) =
      (authority R)\<lparr> au_members := insert (mc_group_id c, mc_device_id c) (au_members (authority R)) \<rparr>"
    by (simp add: authority_def with_status_set cert_row_def without_status)
  then show ?case
    using admit.hyps authority_step.admitted[of "mc_group_id c" "authority R" "mc_admin_device_id c" "mc_device_id c"]
    by (auto simp: authority_def with_status_iff)
next
  case (expel R g d r who why at_time)
  then have "authority (R\<lparr> ro_members := dict_set (g, d) (r\<lparr> mw_status := M_REVOKED, mw_revoked_by := Some who,
        mw_revoked_at := at_time, mw_revoke_reason := why \<rparr>) (ro_members R) \<rparr>) =
      (authority R)\<lparr> au_members := au_members (authority R) - {(g, d)}, au_left := insert (g, d) (au_left (authority R)) \<rparr>"
    by (simp add: authority_def with_status_set)
  then show ?case
    using expel.hyps authority_step.ended[of g d "authority R" who] by (auto simp: authority_def with_status_iff may_end_def)
qed (simp add: authority_step.idle)

section \<open>Properties\<close>


text \<open>
  (C8) A group is never orphaned and never captured. In every state the operations reach from a new
  database, each group has an active administrator, and every administrator on record, active or
  removed, is the founder or was added by an administrator who was appointed in the same way.
\<close>

theorem groups_keep_an_administrator:
  assumes "gs_conn s = Some empty_group_db" "(group_step ed)\<^sup>*\<^sup>* s t"
  shows "\<exists>R. roster t = Some R \<and>
    (\<forall>g x. dict_get (ro_groups R) g = Some x \<longrightarrow>
       (\<exists>d a. dict_get (ro_admins R) (g, d) = Some a \<and> ar_status a = A_ACTIVE)) \<and>
    (\<forall>g d a. dict_get (ro_admins R) (g, d) = Some a \<longrightarrow> appointed R g d)"
  by (rule reached_roster[OF assms]) (auto simp: good_def simp del: map_of_eq_Some_iff)

text \<open>
  (C9) Memberships are signed, and ending one is final. In every state the operations reach from a new
  database, each membership row carries a certificate for exactly its group and device that verifies
  under the recorded key of an administrator of that group; and once a membership is revoked, its row
  is unchanged by whatever operations follow.
\<close>

theorem memberships_are_signed_and_revocation_stays:
  assumes "gs_conn s = Some empty_group_db" "(group_step ed)\<^sup>*\<^sup>* s t" "(group_step ed)\<^sup>*\<^sup>* t u"
  shows "\<exists>R R'. roster t = Some R \<and> roster u = Some R' \<and>
    (\<forall>g d r. dict_get (ro_members R) (g, d) = Some r \<longrightarrow> signed_row ed R g d r) \<and>
    (\<forall>k r. dict_get (ro_members R) k = Some r \<longrightarrow> mw_status r = M_REVOKED \<longrightarrow> dict_get (ro_members R') k = Some r)"
proof -
  obtain R where R: "roster t = Some R" "good ed R"
    by (rule reached_roster[OF assms(1,2)])
  from group_steps_change[OF assms(3) R] obtain R' where R': "roster u = Some R'" "(change ed)\<^sup>*\<^sup>* R R'"
    by blast
  then have "extends R R'"
    using tombstones.after_steps[of ed R R' R] R(2) by simp
  then have "dict_get (ro_members R') k = Some r" if "dict_get (ro_members R) k = Some r" "mw_status r = M_REVOKED" for k r
    using extendsD(3) that by fastforce
  with R R'(1) show ?thesis
    unfolding good_def by blast
qed

section \<open>The audit log reads back\<close>

text \<open>A recorded event is read back with its details in key order, and its signature still verifies.\<close>

lemma audit_event_reads_back:
  assumes "wf_json (se_details ev)" "clean (se_details ev)"
  shows "\<exists>ev'. row_to_audit_event (event_row g ev) = Inr ev' \<and> se_details ev' = sort_json (se_details ev) \<and>
    verify_audit_event ed ev' pk = verify_audit_event ed ev pk"
proof -
  define stored where "stored = dumps (sort_json (se_details ev))"
  have "stored \<noteq> []" "loads stored = Some (sort_json (se_details ev))"
    unfolding stored_def using loads_dumps[OF wf_sort(1)[OF assms(1)]] by simp_all
  moreover have "sanitize_value (sort_json (se_details ev)) = sort_json (se_details ev)"
    by (rule sanitize_fixed(1)[OF clean_sort(1)[OF assms(2)]])
  ultimately show ?thesis
    unfolding row_to_audit_event_def event_row_def stored_def[symmetric]
    by (simp add: make_event_def verify_audit_event_def event_payload_def canonical_json_bytes_def canonical_json_def)
qed

section \<open>What the refusals' own advice does not allow\<close>

text \<open>A revoked membership still blocks a new one, whichever certificate is presented.\<close>

lemma revoked_member_cannot_rejoin:
  assumes "gs_conn s = Some db" "dict_get (gd_memberships db) (mc_group_id c, mc_device_id c) = Some r"
  shows "\<exists>err. record_membership ed e c s = (Inl err, s)"
proof -
  have "reads (active_admin (mc_group_id c) (mc_admin_device_id c))"
    by simp
  then show ?thesis
    using assms unfolding reads_def record_membership_def get_group_def get_membership_def
    by (cases "active_admin (mc_group_id c) (mc_admin_device_id c) s")
      (auto simp: sbind_def decode_key_def split: sum.splits option.splits dest!: spec[of _ s])
qed

text \<open>A removed administrator cannot be added again.\<close>

lemma removed_admin_cannot_return:
  assumes "gs_conn s = Some db" "dict_get (gd_admins db) (g, d) = Some a"
  shows "add_admin ed e g d pk b s = (Inl (Grp GroupStoreError), s)"
  using assms by (simp add: add_admin_def query_defs)

text \<open>Storing a capability again makes it usable again, also after it was burned.\<close>

lemma stored_capability_is_unused:
  assumes "gs_conn s = Some db" "store_capability ed e c s = (Inr (), t)"
  shows "\<exists>db' r. gs_conn t = Some db' \<and> dict_get (gd_capabilities db') (xc_capability_id c) = Some r \<and> \<not> cw_used r"
  using assms
  by (auto simp: store_capability_def list_admins_def sbind_eq_Inr query_result capability_to_row_def map_add_def
      split: if_splits option.splits simp del: map_of_eq_Some_iff)

section \<open>A concrete group\<close>

lemma add_admin_run:
  assumes "gs_conn s = Some db" "dict_get (gd_groups db) g = Some x" "dict_get (gd_admins db) (g, b) = Some a"
    "ar_status a = A_ACTIVE" "dict_get (gd_admins db) (g, d) = None"
  shows "roster (snd (add_admin ed e g d pk b s)) = Some ((roster_of db)\<lparr> ro_admins :=
    dict_set (g, d) (new_admin (b64encode pk) (time_of (ge_clock e 0)) (Some b)) (gd_admins db) \<rparr>)"
  using assms by (simp add: add_admin_def query_defs insert_admin_execute Let_def roster_of_updates)

lemma record_membership_run:
  assumes "gs_conn s = Some db" "dict_get (gd_groups db) (mc_group_id c) = Some x"
    "dict_get (gd_admins db) (mc_group_id c, mc_admin_device_id c) = Some a" "ar_status a = A_ACTIVE"
    "b64decode (ar_public_key a) = Some pk" "verify_membership_certificate ed c pk"
    "dict_get (gd_memberships db) (mc_group_id c, mc_device_id c) = None"
  shows "roster (snd (record_membership ed e c s)) = Some ((roster_of db)\<lparr> ro_members :=
    dict_set (mc_group_id c, mc_device_id c) (cert_row c) (gd_memberships db) \<rparr>)"
proof -
  have "active_admin (mc_group_id c) (mc_admin_device_id c) s = (Inr a, s)"
    using assms by (simp add: active_admin_result)
  then show ?thesis
    using assms by (simp add: record_membership_def query_defs sbind_Inr decode_key_def roster_of_updates)
qed

lemma revoke_membership_run:
  assumes "gs_conn s = Some db" "dict_get (gd_admins db) (g, b) = Some a" "ar_status a = A_ACTIVE"
    "dict_get (gd_memberships db) (g, d) = Some r" "mw_status r = M_ACTIVE"
  shows "roster (snd (revoke_membership ed e g d b why s)) = Some ((roster_of db)\<lparr> ro_members :=
    dict_set (g, d) (r\<lparr> mw_status := M_REVOKED, mw_revoked_by := Some b, mw_revoked_at := Some (ge_clock e 0),
      mw_revoke_reason := why \<rparr>) (gd_memberships db) \<rparr>)"
  using assms by (simp add: revoke_membership_def mark_membership_revoked_def query_defs roster_of_updates)

definition demo_env :: gs_env where
  "demo_env = \<lparr> ge_clock = (\<lambda>n. (10 * int n + 50, 1)), ge_uuid = ''u1'' \<rparr>"

definition new_store :: group_store where
  "new_store = \<lparr> gs_conn = Some empty_group_db, gs_owns_conn = False \<rparr>"

definition demo_group :: group_info where
  "demo_group = create_group 3 ''id'' (sample_admin 1 ''a'') ''Team'' (Some ''g'')"

definition demo_cert :: membership_certificate where
  "demo_cert = projr (issue_membership_certificate demo_ed (40, 1) (sample_admin 1 ''a'') ''m'' [7] ''g'' DEFAULT_ROLE [] None)"

text \<open>A group founded by a, to which a adds b; and one in which a admits m and revokes m.\<close>

definition founded_store :: group_store where
  "founded_store = snd (store_create_group demo_ed demo_env demo_group new_store)"

definition joined_store :: group_store where
  "joined_store = snd (record_membership demo_ed demo_env demo_cert founded_store)"

definition left_store :: group_store where
  "left_store = snd (revoke_membership demo_ed demo_env ''g'' ''m'' ''a'' None joined_store)"

definition appointed_store :: "group_store \<Rightarrow> group_store" where
  "appointed_store s = snd (add_admin demo_ed demo_env ''g'' ''b'' [9] ''a'' s)"

definition founder_row :: admin_record where
  "founder_row = new_admin (b64encode (ed_public demo_ed [1])) 3 None"

lemma demo_group_simps [simp]:
  "gi_group_id demo_group = ''g''" "gi_admin_device_id demo_group = ''a''"
  "gi_admin_public_key demo_group = b64encode (ed_public demo_ed [1])" "gi_created_at demo_group = 3"
  by (simp_all add: demo_group_def create_group_def sample_admin_def)

lemma demo_cert_simps [simp]: "mc_group_id demo_cert = ''g''" "mc_device_id demo_cert = ''m''" "mc_admin_device_id demo_cert = ''a''"
  by (simp_all add: demo_cert_def issue_membership_certificate_def sample_admin_def Let_def)

lemma founder_row_simps [simp]: "ar_status founder_row = A_ACTIVE" "b64decode (ar_public_key founder_row) = Some (ed_public demo_ed [1])"
  "ar_added_by founder_row = None"
  by (simp_all add: founder_row_def new_admin_def)

lemma demo_cert_verifies: "verify_membership_certificate demo_ed demo_cert (ed_public demo_ed [1])"
proof -
  have "issue_membership_certificate demo_ed (40, 1) (sample_admin 1 ''a'') ''m'' [7] ''g'' DEFAULT_ROLE [] None = Inr demo_cert"
    by (simp add: demo_cert_def issue_membership_certificate_def Let_def)
  from issued_certificate_verifies[OF demo_ed_laws _ this] show ?thesis
    by (simp add: sample_admin_def genuine_keypair_def)
qed

lemma founded_roster: "roster founded_store = Some \<lparr> ro_groups = [(''g'', demo_group)], ro_admins = [((''g'', ''a''), founder_row)], ro_members = [] \<rparr>"
  by (simp add: founded_store_def store_create_group_def new_store_def empty_group_db_def get_group_def insert_admin_execute
      roster_of_def founder_row_def)

lemma founded_db: obtains db where "gs_conn founded_store = Some db" "gd_groups db = [(''g'', demo_group)]"
    "gd_admins db = [((''g'', ''a''), founder_row)]" "gd_memberships db = []"
  using roster_SomeD[OF founded_roster] by (auto simp: roster_of_def)

lemma founded_steps: "(group_step demo_ed)\<^sup>*\<^sup>* new_store founded_store"
  unfolding founded_store_def by (intro r_into_rtranclp group_step.intros)

lemma left_roster:
  "\<exists>R r. roster left_store = Some R \<and> dict_get (ro_members R) (''g'', ''m'') = Some r \<and> mw_status r = M_REVOKED"
proof -
  obtain db where db: "gs_conn founded_store = Some db" "gd_groups db = [(''g'', demo_group)]"
      "gd_admins db = [((''g'', ''a''), founder_row)]" "gd_memberships db = []"
    by (rule founded_db)
  then have "roster joined_store = Some ((roster_of db)\<lparr> ro_members := [((''g'', ''m''), cert_row demo_cert)] \<rparr>)"
    unfolding joined_store_def
    using record_membership_run[OF db(1), of demo_cert demo_group founder_row "ed_public demo_ed [1]" demo_ed] demo_cert_verifies by simp
  then obtain db' where db': "gs_conn joined_store = Some db'" "gd_admins db' = [((''g'', ''a''), founder_row)]"
      "gd_memberships db' = [((''g'', ''m''), cert_row demo_cert)]"
    using db by (auto dest!: roster_SomeD simp: roster_of_def)
  then show ?thesis
    unfolding left_store_def
    using revoke_membership_run[OF db'(1), of "''g''" "''a''" founder_row "''m''" "cert_row demo_cert"]
    by (simp add: cert_row_def)
qed


theorem groups_keep_an_administrator_witness:
  "\<exists>R d a. roster founded_store = Some R \<and> dict_get (ro_admins R) (''g'', d) = Some a \<and> ar_status a = A_ACTIVE \<and>
     appointed R ''g'' d"
proof -
  obtain R where R: "roster founded_store = Some R"
    "\<forall>g x. dict_get (ro_groups R) g = Some x \<longrightarrow> (\<exists>d a. dict_get (ro_admins R) (g, d) = Some a \<and> ar_status a = A_ACTIVE)"
    "\<forall>g d a. dict_get (ro_admins R) (g, d) = Some a \<longrightarrow> appointed R g d"
    using groups_keep_an_administrator[OF _ founded_steps] by (auto simp: new_store_def)
  moreover have "dict_get (ro_groups R) ''g'' = Some demo_group"
    using R(1) founded_roster by auto
  ultimately show ?thesis
    by blast
qed

theorem memberships_are_signed_and_revocation_stays_witness:
  "\<exists>R R' r. roster left_store = Some R \<and> roster (appointed_store left_store) = Some R' \<and>
     dict_get (ro_members R') (''g'', ''m'') = Some r \<and> mw_status r = M_REVOKED \<and> signed_row demo_ed R ''g'' ''m'' r"
proof -
  have "group_step demo_ed founded_store joined_store" "group_step demo_ed joined_store left_store"
    unfolding joined_store_def left_store_def by (intro group_step.intros)+
  then have steps: "(group_step demo_ed)\<^sup>*\<^sup>* new_store left_store"
    using founded_steps by (meson rtranclp.rtrancl_into_rtrancl)
  have "(group_step demo_ed)\<^sup>*\<^sup>* left_store (appointed_store left_store)"
    unfolding appointed_store_def by (intro r_into_rtranclp group_step.intros)
  from memberships_are_signed_and_revocation_stays[OF _ steps this] left_roster show ?thesis
    by (auto simp: new_store_def)
qed

end
