(* ===== verification/Trust.thy ===== *)
theory Trust
  imports Identity Steps
begin

text \<open>
  Model of src/core/trust/ (device.py, store.py, revocation.py): the table of known devices, the
  table of recorded key rotations and every operation on them. A store is detached (no connection)
  or has a database of the two tables; the database rows are keyed by their primary keys. The clock
  and the outcome of the policy check a first contact needs are arguments. The lemmas show that
  revocation is final, where trust can come from, and what a rotation chain is.
\<close>

section \<open>State\<close>

datatype trust_status = PENDING | TRUSTED | REVOKED

datatype trust_decision = D_UNKNOWN | D_PENDING | D_TRUSTED | D_KEY_CHANGED | D_REVOKED

record trusted_device =
  td_public_key :: string
  td_name :: string
  first_seen :: time
  last_seen :: time
  td_status :: trust_status
  revoked_by :: "string option"
  revoked_at :: "time option"
  revoke_reason :: "string option"

record transition_row =
  tr_cert :: transition_certificate
  recorded_at :: time

record trust_db =
  trusted_devices :: "(string, trusted_device) dict"
  identity_transitions :: "transition_row list"

record trust_store =
  ts_conn :: "trust_db option"
  ts_owns_conn :: bool

definition empty_trust_db :: trust_db where
  "empty_trust_db = \<lparr> trusted_devices = [], identity_transitions = [] \<rparr>"

definition ts_close :: "trust_store \<Rightarrow> trust_store" where
  "ts_close s = (if ts_owns_conn s \<and> ts_conn s \<noteq> None then s\<lparr> ts_conn := None \<rparr> else s)"

definition ts_adopt_conn :: "trust_db option \<Rightarrow> trust_store \<Rightarrow> trust_store" where
  "ts_adopt_conn conn s = s\<lparr> ts_conn := conn, ts_owns_conn := False \<rparr>"

definition ts_require_conn :: "(trust_store, trust_db) op" where
  "ts_require_conn s = (case ts_conn s of None \<Rightarrow> (Inl (Py RuntimeError), s) | Some db \<Rightarrow> (Inr db, s))"

definition ts_execute :: "(trust_db \<Rightarrow> trust_db) \<Rightarrow> (trust_store, unit) op" where
  "ts_execute f = sbind ts_require_conn (\<lambda>db. smodify (\<lambda>s. s\<lparr> ts_conn := Some (f db) \<rparr>))"

section \<open>Reading\<close>

definition ts_get :: "string \<Rightarrow> (trust_store, trusted_device option) op" where
  "ts_get device_id = sbind ts_require_conn (\<lambda>db. sret (dict_get (trusted_devices db) device_id))"

definition decide :: "trusted_device option \<Rightarrow> string \<Rightarrow> trust_decision" where
  "decide device public_key =
    (case device of
       None \<Rightarrow> D_UNKNOWN
     | Some d \<Rightarrow>
         if td_public_key d \<noteq> public_key then D_KEY_CHANGED
         else if td_status d = REVOKED then D_REVOKED
         else if td_status d = TRUSTED then D_TRUSTED
         else D_PENDING)"

definition ts_check :: "string \<Rightarrow> string \<Rightarrow> (trust_store, trust_decision) op" where
  "ts_check device_id public_key = sbind (ts_get device_id) (\<lambda>d. sret (decide d public_key))"

definition ts_list_all :: "trust_status option \<Rightarrow> (trust_store, (string \<times> trusted_device) list) op" where
  "ts_list_all status = sbind ts_require_conn (\<lambda>db. sret
     (sort_key (\<lambda>(_, d). - last_seen d)
       [(i, d) \<leftarrow> trusted_devices db. status = None \<or> status = Some (td_status d)]))"

section \<open>Writing\<close>

definition insert_device :: "string \<Rightarrow> trusted_device \<Rightarrow> trust_db \<Rightarrow> trust_db" where
  "insert_device device_id d db = db\<lparr> trusted_devices := dict_set device_id d (trusted_devices db) \<rparr>"

definition update_device :: "string \<Rightarrow> (trusted_device \<Rightarrow> trusted_device) \<Rightarrow> trust_db \<Rightarrow> trust_db" where
  "update_device device_id f db =
    (case dict_get (trusted_devices db) device_id of
       None \<Rightarrow> db
     | Some d \<Rightarrow> db\<lparr> trusted_devices := dict_set device_id (f d) (trusted_devices db) \<rparr>)"

definition new_device :: "string \<Rightarrow> string \<Rightarrow> time \<Rightarrow> trust_status \<Rightarrow> trusted_device" where
  "new_device public_key name now status =
    \<lparr> td_public_key = public_key, td_name = name, first_seen = now, last_seen = now,
      td_status = status, revoked_by = None, revoked_at = None, revoke_reason = None \<rparr>"

text \<open>\<open>enforcer\<close> is the policy check of \<open>_get_policy_enforcer\<close>, when there is one.\<close>

definition record_first_seen ::
  "(string \<Rightarrow> unit result) option \<Rightarrow> time \<Rightarrow> string \<Rightarrow> string \<Rightarrow> string \<Rightarrow> (trust_store, trusted_device option) op" where
  "record_first_seen enforcer now device_id public_key name =
    sbind (ts_get device_id) (\<lambda>known.
      if known \<noteq> None then sfail (Py ValueError)
      else sbind (slift (case enforcer of None \<Rightarrow> Inr () | Some check \<Rightarrow> check device_id)) (\<lambda>_.
           sbind (ts_execute (insert_device device_id (new_device public_key name now PENDING))) (\<lambda>_.
           ts_get device_id)))"

definition touch_last_seen :: "time \<Rightarrow> string \<Rightarrow> (trust_store, unit) op" where
  "touch_last_seen now device_id = ts_execute (update_device device_id (\<lambda>d. d\<lparr> last_seen := now \<rparr>))"

definition approve :: "string \<Rightarrow> (trust_store, trusted_device option) op" where
  "approve device_id =
    sbind (ts_get device_id) (\<lambda>known.
      case known of
        None \<Rightarrow> sfail (Py ValueError)
      | Some d \<Rightarrow>
          if td_status d = REVOKED then sfail (Py ValueError)
          else sbind (ts_execute (update_device device_id (\<lambda>d. d\<lparr> td_status := TRUSTED \<rparr>))) (\<lambda>_.
               ts_get device_id))"

definition set_revoked :: "time \<Rightarrow> string \<Rightarrow> string \<Rightarrow> string option \<Rightarrow> (trust_store, trusted_device option) op" where
  "set_revoked now device_id by reason =
    sbind (ts_get device_id) (\<lambda>known.
      if known = None then sfail (Py ValueError)
      else sbind (ts_execute (update_device device_id (\<lambda>d. d\<lparr> td_status := REVOKED,
             revoked_by := Some by, revoked_at := Some now, revoke_reason := reason \<rparr>))) (\<lambda>_.
           ts_get device_id))"

definition revoke_device :: "time \<Rightarrow> string \<Rightarrow> string \<Rightarrow> string option \<Rightarrow> (trust_store, trusted_device option) op" where
  "revoke_device now device_id by reason =
    sbind (ts_get device_id) (\<lambda>known.
      case known of
        None \<Rightarrow> sfail (Trust RevocationError)
      | Some d \<Rightarrow> if td_status d = REVOKED then sfail (Trust RevocationError)
                 else set_revoked now device_id by reason)"

definition is_revoked :: "string \<Rightarrow> (trust_store, bool) op" where
  "is_revoked device_id = sbind (ts_get device_id) (\<lambda>known.
     sret (case known of None \<Rightarrow> False | Some d \<Rightarrow> td_status d = REVOKED))"

section \<open>Rotation\<close>

definition insert_transition :: "time \<Rightarrow> transition_certificate \<Rightarrow> trust_db \<Rightarrow> trust_db" where
  "insert_transition now cert db = db\<lparr> identity_transitions :=
     [r \<leftarrow> identity_transitions db. (old_device_id (tr_cert r), new_device_id (tr_cert r)) \<noteq>
                                    (old_device_id cert, new_device_id cert)] @
     [\<lparr> tr_cert = cert, recorded_at = now \<rparr>] \<rparr>"

definition carry_trust :: "time \<Rightarrow> transition_certificate \<Rightarrow> trusted_device option \<Rightarrow> trust_db \<Rightarrow> trust_db" where
  "carry_trust now cert old db =
    (case old of
       Some o_dev \<Rightarrow>
         if td_status o_dev = TRUSTED then
           (case dict_get (trusted_devices db) (new_device_id cert) of
              None \<Rightarrow> insert_device (new_device_id cert)
                       (new_device (new_public_key cert) (td_name o_dev) now TRUSTED) db
            | Some n_dev \<Rightarrow>
                if td_status n_dev \<notin> {TRUSTED, REVOKED} then
                  update_device (new_device_id cert) (\<lambda>d. d\<lparr> td_status := TRUSTED, last_seen := now \<rparr>) db
                else db)
         else db
     | None \<Rightarrow> db)"

definition record_rotation :: "ed25519 \<Rightarrow> time \<Rightarrow> transition_certificate \<Rightarrow> (trust_store, unit) op" where
  "record_rotation ed now cert =
    (if \<not> verify_transition_certificate ed cert then sfail (Trust RotationError)
     else sbind (ts_get (old_device_id cert)) (\<lambda>old.
       if (case old of None \<Rightarrow> False | Some d \<Rightarrow> td_status d = REVOKED) then sfail (Trust RotationError)
       else sbind (ts_execute (insert_transition now cert)) (\<lambda>_.
            ts_execute (carry_trust now cert old))))"

definition chain_nodes :: "transition_row list \<Rightarrow> string set" where
  "chain_nodes rows = (\<lambda>r. old_device_id (tr_cert r)) ` set rows \<union> (\<lambda>r. new_device_id (tr_cert r)) ` set rows"

definition neighbours :: "transition_row list \<Rightarrow> string \<Rightarrow> string list" where
  "neighbours rows current =
     [new_device_id (tr_cert r). r \<leftarrow> rows, old_device_id (tr_cert r) = current] @
     [old_device_id (tr_cert r). r \<leftarrow> rows, new_device_id (tr_cert r) = current]"

function chain_walk :: "transition_row list \<Rightarrow> string list \<Rightarrow> string list \<Rightarrow> string list" where
  "chain_walk rows queue visited =
    (if queue = [] then visited
     else (let current = last queue; rest = butlast queue
           in if current \<in> set visited then chain_walk rows rest visited
              else chain_walk rows (rest @ neighbours rows current) (visited @ [current])))"
  by pat_completeness auto

lemma neighbours_nodes: "set (neighbours rows x) \<subseteq> chain_nodes rows"
  by (auto simp: neighbours_def chain_nodes_def)

lemma finite_chain_nodes [simp]: "finite (chain_nodes rows)"
  by (simp add: chain_nodes_def)

termination chain_walk
proof (relation "measures [\<lambda>(rows, q, v). card ((chain_nodes rows \<union> set q) - set v), \<lambda>(rows, q, v). length q]",
    goal_cases)
  case (2 rows q v current rest)
  then have "set rest \<subseteq> set q"
    by (auto dest: in_set_butlastD)
  then have "card (chain_nodes rows \<union> set rest - set v) \<le> card (chain_nodes rows \<union> set q - set v)"
    by (intro card_mono) auto
  moreover have "length rest < length q"
    using 2 by simp
  ultimately show ?case
    by auto
next
  case (3 rows q v current rest)
  have cur: "current \<in> set q"
    using 3 by simp
  have "set rest \<subseteq> set q"
    using 3 by (auto dest: in_set_butlastD)
  then have "chain_nodes rows \<union> set (rest @ neighbours rows current) - set (v @ [current])
      \<subset> chain_nodes rows \<union> set q - set v"
    using neighbours_nodes[of rows current] cur 3 by auto
  then have "card (chain_nodes rows \<union> set (rest @ neighbours rows current) - set (v @ [current]))
      < card (chain_nodes rows \<union> set q - set v)"
    by (intro psubset_card_mono) auto
  then show ?case
    by simp
qed simp

declare chain_walk.simps [simp del]

definition order_key :: "transition_row list \<Rightarrow> string \<Rightarrow> time" where
  "order_key rows did =
    (case List.find (\<lambda>r. new_device_id (tr_cert r) = did) rows of
       None \<Rightarrow> 0 | Some r \<Rightarrow> tc_timestamp (tr_cert r))"

definition get_rotation_chain :: "string \<Rightarrow> (trust_store, string list) op" where
  "get_rotation_chain device_id = sbind ts_require_conn (\<lambda>db.
     let rows = identity_transitions db
     in sret (sort_key (order_key rows) (chain_walk rows [device_id] [])))"

fun scan_chain :: "trust_db \<Rightarrow> string list \<Rightarrow> bool \<Rightarrow> trust_decision \<Rightarrow> trust_decision" where
  "scan_chain db [] has_trusted direct = (if has_trusted then D_TRUSTED else direct)"
| "scan_chain db (i # ids) has_trusted direct =
    (case dict_get (trusted_devices db) i of
       None \<Rightarrow> scan_chain db ids has_trusted direct
     | Some node \<Rightarrow>
         if td_status node = REVOKED then D_REVOKED
         else scan_chain db ids (has_trusted \<or> td_status node = TRUSTED) direct)"

definition check_with_rotation :: "string \<Rightarrow> string \<Rightarrow> (trust_store, trust_decision) op" where
  "check_with_rotation device_id public_key =
    sbind (ts_check device_id public_key) (\<lambda>direct.
      if direct = D_KEY_CHANGED then sret direct
      else sbind (get_rotation_chain device_id) (\<lambda>chain.
           sbind ts_require_conn (\<lambda>db. sret (scan_chain db chain False direct))))"

section \<open>What each operation does to the tables\<close>

lemma ts_require_conn_run [simp]:
  "ts_conn s = None \<Longrightarrow> ts_require_conn s = (Inl (Py RuntimeError), s)"
  "ts_conn s = Some db \<Longrightarrow> ts_require_conn s = (Inr db, s)"
  by (simp_all add: ts_require_conn_def)

lemma ts_execute_run [simp]:
  "ts_conn s = None \<Longrightarrow> ts_execute f s = (Inl (Py RuntimeError), s)"
  "ts_conn s = Some db \<Longrightarrow> ts_execute f s = (Inr (), s\<lparr> ts_conn := Some (f db) \<rparr>)"
  by (simp_all add: ts_execute_def sbind_def)

lemma ts_get_run [simp]:
  "ts_conn s = None \<Longrightarrow> ts_get i s = (Inl (Py RuntimeError), s)"
  "ts_conn s = Some db \<Longrightarrow> ts_get i s = (Inr (dict_get (trusted_devices db) i), s)"
  by (simp_all add: ts_get_def sbind_def)

lemma update_device_get [simp]:
  "dict_get (trusted_devices (update_device i f db)) j =
    (if j = i then map_option f (dict_get (trusted_devices db) i) else dict_get (trusted_devices db) j)"
  by (simp add: update_device_def split: option.split)

lemma insert_device_get [simp]:
  "dict_get (trusted_devices (insert_device i d db)) j = (if j = i then Some d else dict_get (trusted_devices db) j)"
  by (simp add: insert_device_def)

lemma insert_transition_devices [simp]: "trusted_devices (insert_transition now cert db) = trusted_devices db"
  by (simp add: insert_transition_def)

lemma transitions_kept [simp]:
  "identity_transitions (insert_device i d db) = identity_transitions db"
  "identity_transitions (update_device i f db) = identity_transitions db"
  "identity_transitions (carry_trust now cert old db) = identity_transitions db"
  by (simp_all add: insert_device_def update_device_def carry_trust_def split: option.split)

text \<open>Every operation is a step; the arguments, the clock and the policy outcome are arbitrary.\<close>

inductive trust_step :: "ed25519 \<Rightarrow> trust_store \<Rightarrow> trust_store \<Rightarrow> bool" for ed where
  first_seen: "trust_step ed s (snd (record_first_seen enforcer now i pk name s))"
| touch: "trust_step ed s (snd (touch_last_seen now i s))"
| approval: "trust_step ed s (snd (approve i s))"
| revocation: "trust_step ed s (snd (revoke_device now i who reason s))"
| rotation: "trust_step ed s (snd (record_rotation ed now cert s))"
| closing: "trust_step ed s (ts_close s)"

definition same_key_and_revoked :: "string \<Rightarrow> string \<Rightarrow> trust_store \<Rightarrow> bool" where
  "same_key_and_revoked i k s \<longleftrightarrow> (\<forall>db. ts_conn s = Some db \<longrightarrow>
     (\<exists>d. dict_get (trusted_devices db) i = Some d \<and> td_status d = REVOKED \<and> td_public_key d = k))"

lemma carry_trust_keeps_revoked:
  "dict_get (trusted_devices db) i = Some d \<Longrightarrow> td_status d = REVOKED \<Longrightarrow>
   dict_get (trusted_devices (carry_trust now cert old db)) i = Some d"
  by (auto simp: carry_trust_def split: option.split)

interpretation revocation: step_invariant "trust_step ed" "same_key_and_revoked i k" for ed i k
proof
  fix s t
  assume "trust_step ed s t" "same_key_and_revoked i k s"
  then show "same_key_and_revoked i k t"
  proof (cases rule: trust_step.cases)
    case (rotation now cert)
    then show ?thesis
      using \<open>same_key_and_revoked i k s\<close> carry_trust_keeps_revoked
      by (cases "ts_conn s")
        (auto simp: same_key_and_revoked_def record_rotation_def sbind_def split: option.split)
  qed (cases "ts_conn s"; auto simp: same_key_and_revoked_def record_first_seen_def touch_last_seen_def
      approve_def revoke_device_def set_revoked_def ts_close_def sbind_def
      split: option.split sum.split prod.split)+
qed

section \<open>Rotation chains\<close>

definition links :: "transition_row list \<Rightarrow> (string \<times> string) set" where
  "links rows = {(a, b). b \<in> set (neighbours rows a)}"

lemma chain_walk_sound:
  "set (chain_walk rows q v) \<subseteq> set v \<union> (links rows)\<^sup>* `` set q"
proof (induction rows q v rule: chain_walk.induct)
  case (1 rows q v)
  define c r where "c = last q" and "r = butlast q"
  have q: "q \<noteq> [] \<Longrightarrow> set q = insert c (set r)"
    unfolding c_def r_def by (metis append_butlast_last_id list.set(2) rotate1.simps(2) set_rotate1)
  have nb: "(links rows)\<^sup>* `` set (neighbours rows c) \<subseteq> (links rows)\<^sup>* `` {c}"
    by (auto simp: links_def intro: converse_rtrancl_into_rtrancl)
  show ?case
  proof (cases "q = []")
    case False
    show ?thesis
    proof (cases "c \<in> set v")
      case True
      then show ?thesis
        using 1(1)[OF False c_def r_def] False q
        by (subst chain_walk.simps) (auto simp: Let_def c_def r_def)
    next
      case nin: False
      have eq: "chain_walk rows q v = chain_walk rows (r @ neighbours rows c) (v @ [c])"
        using False nin by (subst chain_walk.simps) (simp add: Let_def c_def r_def)
      have "(links rows)\<^sup>* `` (set r \<union> set (neighbours rows c)) \<subseteq> (links rows)\<^sup>* `` set q"
        using nb q[OF False] by auto
      moreover have "c \<in> (links rows)\<^sup>* `` set q"
        using q[OF False] by auto
      ultimately show ?thesis
        using 1(2)[OF False c_def r_def nin] unfolding eq set_append by fastforce
    qed
  qed (simp add: chain_walk.simps)
qed

lemma chain_walk_closed:
  assumes "\<forall>x\<in>set v. set (neighbours rows x) \<subseteq> set v \<union> set q"
  shows "set v \<union> set q \<subseteq> set (chain_walk rows q v) \<and>
    (\<forall>x\<in>set (chain_walk rows q v). set (neighbours rows x) \<subseteq> set (chain_walk rows q v))"
  using assms
proof (induction rows q v rule: chain_walk.induct)
  case (1 rows q v)
  define c r where "c = last q" and "r = butlast q"
  have q: "q \<noteq> [] \<Longrightarrow> set q = insert c (set r)"
    unfolding c_def r_def by (metis append_butlast_last_id list.set(2) rotate1.simps(2) set_rotate1)
  show ?case
  proof (cases "q = []")
    case False
    show ?thesis
    proof (cases "c \<in> set v")
      case True
      have eq: "chain_walk rows q v = chain_walk rows r v"
        using False True by (subst chain_walk.simps) (simp add: Let_def c_def r_def)
      have "\<forall>x\<in>set v. set (neighbours rows x) \<subseteq> set v \<union> set r"
        using 1(3) q False True by auto
      then show ?thesis
        using 1(1)[OF False c_def r_def True] q False True by (auto simp: eq)
    next
      case nin: False
      have eq: "chain_walk rows q v = chain_walk rows (r @ neighbours rows c) (v @ [c])"
        using False nin by (subst chain_walk.simps) (simp add: Let_def c_def r_def)
      have "\<forall>x\<in>set (v @ [c]). set (neighbours rows x) \<subseteq> set (v @ [c]) \<union> set (r @ neighbours rows c)"
        using 1(3) q False by auto
      then show ?thesis
        using 1(2)[OF False c_def r_def nin] q False by (auto simp: eq)
    qed
  qed (use 1(3) in \<open>simp add: chain_walk.simps\<close>)
qed

lemma chain_walk_links: "set (chain_walk rows [i] []) = (links rows)\<^sup>* `` {i}"
proof
  show "set (chain_walk rows [i] []) \<subseteq> (links rows)\<^sup>* `` {i}"
    using chain_walk_sound[of rows "[i]" "[]"] by simp
  have start: "i \<in> set (chain_walk rows [i] [])"
    and closed: "\<forall>x\<in>set (chain_walk rows [i] []). set (neighbours rows x) \<subseteq> set (chain_walk rows [i] [])"
    using chain_walk_closed[of "[]" rows "[i]"] by auto
  have "(i, y) \<in> (links rows)\<^sup>* \<Longrightarrow> y \<in> set (chain_walk rows [i] [])" for y
    by (induction rule: rtrancl_induct) (use start closed in \<open>auto simp: links_def\<close>)
  then show "(links rows)\<^sup>* `` {i} \<subseteq> set (chain_walk rows [i] [])"
    by auto
qed

lemma scan_chain_result:
  "scan_chain db ids b direct =
    (if \<exists>i\<in>set ids. \<exists>d. dict_get (trusted_devices db) i = Some d \<and> td_status d = REVOKED then D_REVOKED
     else if b \<or> (\<exists>i\<in>set ids. \<exists>d. dict_get (trusted_devices db) i = Some d \<and> td_status d = TRUSTED)
       then D_TRUSTED else direct)"
  by (induction ids arbitrary: b) (auto split: option.split)

definition status_of :: "trust_db \<Rightarrow> string \<Rightarrow> trust_status option" where
  "status_of db i = map_option td_status (dict_get (trusted_devices db) i)"

definition chain_of :: "trust_db \<Rightarrow> string \<Rightarrow> string set" where
  "chain_of db i = (links (identity_transitions db))\<^sup>* `` {i}"

lemma get_rotation_chain_run:
  assumes "ts_conn s = Some db"
  obtains chain where "get_rotation_chain i s = (Inr chain, s)" "set chain = chain_of db i"
proof
  show "get_rotation_chain i s = (Inr (sort_key (order_key (identity_transitions db))
      (chain_walk (identity_transitions db) [i] [])), s)"
    using assms by (simp add: get_rotation_chain_def sbind_def Let_def)
  show "set (sort_key (order_key (identity_transitions db)) (chain_walk (identity_transitions db) [i] [])) = chain_of db i"
    by (simp add: chain_walk_links chain_of_def)
qed

lemma check_with_rotation_run:
  assumes "ts_conn s = Some db"
  shows "check_with_rotation i pk s =
    (Inr (if decide (dict_get (trusted_devices db) i) pk = D_KEY_CHANGED then D_KEY_CHANGED
          else if \<exists>j\<in>chain_of db i. status_of db j = Some REVOKED then D_REVOKED
          else if \<exists>j\<in>chain_of db i. status_of db j = Some TRUSTED then D_TRUSTED
          else decide (dict_get (trusted_devices db) i) pk), s)"
proof -
  obtain chain where chain: "get_rotation_chain i s = (Inr chain, s)" "set chain = chain_of db i"
    using assms by (rule get_rotation_chain_run)
  show ?thesis
    using assms chain
    by (auto simp: check_with_rotation_def ts_check_def sbind_def scan_chain_result status_of_def)
qed

lemma links_sym: "(a, b) \<in> links rows \<Longrightarrow> (b, a) \<in> links rows"
  by (auto simp: links_def neighbours_def)

lemma chain_of_sym: "j \<in> chain_of db i \<Longrightarrow> i \<in> chain_of db j"
proof -
  have "(links rows)\<inverse> = links rows" for rows
    using links_sym by auto
  then show "j \<in> chain_of db i \<Longrightarrow> i \<in> chain_of db j"
    by (metis Image_singleton_iff chain_of_def rtrancl_converseI)
qed

section \<open>Properties\<close>

text \<open>
  (C14) Revocation is final. Once a device is REVOKED, whatever sequence of first contacts, touches,
  approvals, revocations and recorded rotations follows, a check of it answers REVOKED or KEY_CHANGED,
  it cannot be approved, and every device linked to it by rotations, in either direction, is refused
  as well.
\<close>

theorem revocation_is_final:
  assumes "ts_conn s = Some db" "status_of db i = Some REVOKED"
    and "(trust_step ed)\<^sup>*\<^sup>* s t" "ts_conn t = Some db'"
  shows "fst (ts_check i pk t) \<in> {Inr D_REVOKED, Inr D_KEY_CHANGED} \<and>
    fst (approve i t) = Inl (Py ValueError) \<and>
    (j \<in> chain_of db' i \<longrightarrow> fst (check_with_rotation j pk' t) \<in> {Inr D_REVOKED, Inr D_KEY_CHANGED})"
proof (intro conjI impI)
  obtain d where d: "dict_get (trusted_devices db) i = Some d" "td_status d = REVOKED"
    using assms(2) by (auto simp: status_of_def)
  have "same_key_and_revoked i (td_public_key d) s"
    using assms(1) d by (simp add: same_key_and_revoked_def)
  from revocation.after_steps[OF assms(3) this] obtain e
    where e: "dict_get (trusted_devices db') i = Some e" "td_status e = REVOKED"
    using assms(4) by (auto simp: same_key_and_revoked_def)
  show "fst (ts_check i pk t) \<in> {Inr D_REVOKED, Inr D_KEY_CHANGED}"
    using assms(4) e by (simp add: ts_check_def sbind_def decide_def)
  show "fst (approve i t) = Inl (Py ValueError)"
    using assms(4) e by (simp add: approve_def sbind_def)
  assume "j \<in> chain_of db' i"
  then have "i \<in> chain_of db' j"
    by (rule chain_of_sym)
  then show "fst (check_with_rotation j pk' t) \<in> {Inr D_REVOKED, Inr D_KEY_CHANGED}"
    using assms(4) e by (auto simp: check_with_rotation_run status_of_def)
qed

definition sample_revoked :: trust_store where
  "sample_revoked = \<lparr> ts_conn = Some (empty_trust_db\<lparr> trusted_devices :=
     [(''a'', (new_device ''k'' ''Ann'' 1 PENDING)\<lparr> td_status := REVOKED \<rparr>)] \<rparr>), ts_owns_conn = True \<rparr>"

theorem revocation_is_final_witness:
  "\<exists>db'. ts_conn (snd (touch_last_seen 2 ''a'' sample_revoked)) = Some db' \<and>
     fst (approve ''a'' (snd (touch_last_seen 2 ''a'' sample_revoked))) = Inl (Py ValueError)"
proof -
  define t where "t = snd (touch_last_seen 2 ''a'' sample_revoked)"
  obtain db where db: "ts_conn sample_revoked = Some db" "status_of db ''a'' = Some REVOKED"
    by (simp add: sample_revoked_def status_of_def)
  obtain db' where t: "ts_conn t = Some db'"
    using db(1) by (simp add: t_def touch_last_seen_def)
  have steps: "(trust_step ed)\<^sup>*\<^sup>* sample_revoked t" for ed
    unfolding t_def by (intro r_into_rtranclp trust_step.touch)
  from revocation_is_final[OF db steps t] t show ?thesis
    unfolding t_def by blast
qed



text \<open>Runs from an empty store that keep track of which devices were approved.\<close>

inductive trust_run :: "ed25519 \<Rightarrow> string set \<Rightarrow> trust_store \<Rightarrow> bool" for ed where
  start: "trust_run ed {} \<lparr> ts_conn = Some empty_trust_db, ts_owns_conn = own \<rparr>"
| approved: "trust_run ed A s \<Longrightarrow> trust_run ed (insert i A) (snd (approve i s))"
| seen: "trust_run ed A s \<Longrightarrow> trust_run ed A (snd (record_first_seen enforcer now i pk name s))"
| touched: "trust_run ed A s \<Longrightarrow> trust_run ed A (snd (touch_last_seen now i s))"
| revoked: "trust_run ed A s \<Longrightarrow> trust_run ed A (snd (revoke_device now i who reason s))"
| rotated: "trust_run ed A s \<Longrightarrow> trust_run ed A (snd (record_rotation ed now cert s))"
| closed: "trust_run ed A s \<Longrightarrow> trust_run ed A (ts_close s)"

definition rotations :: "trust_db \<Rightarrow> (string \<times> string) set" where
  "rotations db = (\<lambda>r. (old_device_id (tr_cert r), new_device_id (tr_cert r))) ` set (identity_transitions db)"

definition grounded :: "ed25519 \<Rightarrow> string set \<Rightarrow> trust_store \<Rightarrow> bool" where
  "grounded ed A s \<longleftrightarrow> (\<forall>db. ts_conn s = Some db \<longrightarrow>
     (\<forall>r\<in>set (identity_transitions db). verify_transition_certificate ed (tr_cert r)) \<and>
     (\<forall>i. status_of db i = Some TRUSTED \<longrightarrow> (\<exists>a\<in>A. (a, i) \<in> (rotations db)\<^sup>*)))"

lemma rotations_simps [simp]:
  "rotations (insert_device i d db) = rotations db" "rotations (update_device i f db) = rotations db"
  "rotations (carry_trust now cert old db) = rotations db"
  "rotations (insert_transition now cert db) =
     insert (old_device_id cert, new_device_id cert) (rotations db)"
  by (auto simp: rotations_def insert_transition_def)

lemma status_of_simps [simp]:
  "status_of (insert_device i d db) j = (if j = i then Some (td_status d) else status_of db j)"
  "status_of (insert_transition now cert db) j = status_of db j"
  by (simp_all add: status_of_def)

lemma carry_trust_origin:
  assumes "status_of (carry_trust now cert old db) i = Some TRUSTED" "old = dict_get (trusted_devices db) (old_device_id cert)"
  shows "status_of db i = Some TRUSTED \<or>
    i = new_device_id cert \<and> status_of db (old_device_id cert) = Some TRUSTED"
  using assms by (auto simp: carry_trust_def status_of_def split: option.splits if_splits)

lemma grounded_rotation:
  assumes "grounded ed A s"
  shows "grounded ed A (snd (record_rotation ed now cert s))"
proof (cases "ts_conn s")
  case (Some db)
  define old where "old = dict_get (trusted_devices db) (old_device_id cert)"
  define db' where "db' = carry_trust now cert old (insert_transition now cert db)"
  show ?thesis
  proof (cases "verify_transition_certificate ed cert \<and> (case old of None \<Rightarrow> True | Some d \<Rightarrow> td_status d \<noteq> REVOKED)")
    case True
    have run: "snd (record_rotation ed now cert s) = s\<lparr> ts_conn := Some db' \<rparr>"
      using True Some by (auto simp: record_rotation_def sbind_def old_def db'_def split: option.splits)
    have mono: "(rotations db)\<^sup>* \<subseteq> (rotations db')\<^sup>*"
      by (intro rtrancl_mono) (auto simp: db'_def)
    have rows: "\<forall>r\<in>set (identity_transitions db'). verify_transition_certificate ed (tr_cert r)"
      using assms Some True by (auto simp: db'_def insert_transition_def grounded_def)
    have "\<exists>a\<in>A. (a, i) \<in> (rotations db')\<^sup>*" if "status_of db' i = Some TRUSTED" for i
    proof -
      have "status_of db i = Some TRUSTED \<or> i = new_device_id cert \<and> status_of db (old_device_id cert) = Some TRUSTED"
        using carry_trust_origin[of now cert old "insert_transition now cert db" i] that
        by (simp add: db'_def old_def)
      moreover have "(old_device_id cert, new_device_id cert) \<in> rotations db'"
        by (simp add: db'_def)
      ultimately show ?thesis
        using assms Some mono by (meson grounded_def rtrancl.rtrancl_into_rtrancl subsetD)
    qed
    with rows show ?thesis
      unfolding run by (simp add: grounded_def)
  qed (use assms Some in \<open>auto simp: record_rotation_def sbind_def old_def split: option.splits\<close>)
qed (use assms in \<open>simp add: record_rotation_def sbind_def\<close>)

lemma grounded_devices:
  assumes "grounded ed A s" "A \<subseteq> B" "\<And>db. ts_conn s = Some db \<Longrightarrow> \<exists>db'. ts_conn t = Some db' \<and>
      identity_transitions db' = identity_transitions db \<and>
      (\<forall>i. status_of db' i = Some TRUSTED \<longrightarrow> status_of db i = Some TRUSTED \<or> i \<in> B)"
    "ts_conn s = None \<Longrightarrow> ts_conn t = None"
  shows "grounded ed B t"
proof (cases "ts_conn s")
  case (Some db)
  then obtain db' where db': "ts_conn t = Some db'" "identity_transitions db' = identity_transitions db"
      "\<And>i. status_of db' i = Some TRUSTED \<Longrightarrow> status_of db i = Some TRUSTED \<or> i \<in> B"
    using assms(3) by blast
  then have "rotations db' = rotations db"
    by (simp add: rotations_def)
  then show ?thesis
    using db' assms(1,2) Some unfolding grounded_def
    by (metis option.inject rtrancl.rtrancl_refl subsetD)
qed (use assms(4) in \<open>simp add: grounded_def\<close>)

lemma trust_run_grounded: "trust_run ed A s \<Longrightarrow> grounded ed A s"
proof (induction rule: trust_run.induct)
  case (start own)
  then show ?case
    by (simp add: grounded_def empty_trust_db_def status_of_def)
next
  case (approved A s i)
  show ?case
    by (rule grounded_devices[OF approved.IH])
      (auto simp: approve_def sbind_def status_of_def update_device_def split: option.split if_splits)
next
  case (seen A s enforcer now i pk name)
  show ?case
    by (rule grounded_devices[OF seen.IH])
      (auto simp: record_first_seen_def sbind_def status_of_def new_device_def
        split: option.split if_splits sum.split prod.split)
next
  case (touched A s now i)
  show ?case
    by (rule grounded_devices[OF touched.IH])
      (auto simp: touch_last_seen_def status_of_def split: option.split if_splits)
next
  case (revoked A s now i who reason)
  show ?case
    by (rule grounded_devices[OF revoked.IH])
      (auto simp: revoke_device_def set_revoked_def sbind_def status_of_def split: option.split if_splits)
next
  case (rotated A s now cert)
  then show ?case
    by (simp add: grounded_rotation)
next
  case (closed A s)
  then show ?case
    by (auto simp: ts_close_def grounded_def)
qed

text \<open>
  (C16) Where trust comes from. In every state the operations can reach from an empty store, a device
  that is TRUSTED was approved by the user or is connected to an approved device by a chain of
  recorded rotations, each in the forward direction and each carrying a certificate whose signature
  verifies. First contacts, touches and revocations never create trust.
\<close>

theorem trust_has_an_approved_origin:
  assumes "trust_run ed A s" "ts_conn s = Some db" "status_of db i = Some TRUSTED"
  shows "(\<exists>a\<in>A. (a, i) \<in> (rotations db)\<^sup>*) \<and>
    (\<forall>r\<in>set (identity_transitions db). verify_transition_certificate ed (tr_cert r))"
  using trust_run_grounded[OF assms(1)] assms(2,3) by (auto simp: grounded_def)

definition sample_trusted :: trust_store where
  "sample_trusted = snd (approve ''a'' (snd (record_first_seen None 1 ''a'' ''k'' ''Ann''
     \<lparr> ts_conn = Some empty_trust_db, ts_owns_conn = True \<rparr>)))"

lemma sample_trusted_run: "trust_run ed {''a''} sample_trusted"
  unfolding sample_trusted_def by (intro trust_run.intros)

lemma sample_trusted_conn:
  "ts_conn sample_trusted = Some (empty_trust_db\<lparr> trusted_devices := [(''a'', new_device ''k'' ''Ann'' 1 TRUSTED)] \<rparr>)"
  by (simp add: sample_trusted_def approve_def record_first_seen_def sbind_def insert_device_def
      update_device_def empty_trust_db_def new_device_def)

theorem trust_has_an_approved_origin_witness:
  "\<exists>db. ts_conn sample_trusted = Some db \<and> (\<exists>a. a \<in> {''a''} \<and> (a, ''a'') \<in> (rotations db)\<^sup>*)"
proof -
  define db where "db = empty_trust_db\<lparr> trusted_devices := [(''a'', new_device ''k'' ''Ann'' 1 TRUSTED)] \<rparr>"
  have db: "ts_conn sample_trusted = Some db" "status_of db ''a'' = Some TRUSTED"
    by (simp_all add: sample_trusted_conn db_def status_of_def new_device_def)
  from trust_has_an_approved_origin[OF sample_trusted_run db] db(1) show ?thesis
    by blast
qed

definition forged_cert :: "ed25519 \<Rightarrow> bytes \<Rightarrow> string \<Rightarrow> string \<Rightarrow> string \<Rightarrow> time \<Rightarrow> transition_certificate" where
  "forged_cert ed sk victim new_id new_pk ts =
    \<lparr> old_device_id = victim, old_public_key = b64encode (ed_public ed sk), new_device_id = new_id,
      new_public_key = new_pk, tc_timestamp = ts,
      tc_signature = b64encode (ed_sign ed sk
        (rotation_payload victim new_id (b64encode (ed_public ed sk)) new_pk ts)) \<rparr>"

text \<open>
  (C36) A rotation certificate is not tied to the device it speaks for: neither the signature check nor
  record_rotation compares the certificate's old public key with the old device id or with the key the
  store has on file. So, for any TRUSTED device id, anyone can sign a certificate with a key of their
  own, and recording it makes a new device id of their choice TRUSTED.
\<close>

theorem rotation_certificate_forgeable:
  assumes "ed_laws ed" "ts_conn s = Some db" "status_of db victim = Some TRUSTED"
    and "dict_get (trusted_devices db) new_id = None"
  shows "fst (ts_check new_id new_pk (snd (record_rotation ed now (forged_cert ed sk victim new_id new_pk ts) s))) =
    Inr D_TRUSTED"
proof -
  define cert where "cert = forged_cert ed sk victim new_id new_pk ts"
  have ok: "verify_transition_certificate ed cert"
    using assms(1) by (simp add: cert_def forged_cert_def verify_transition_certificate_iff ed_laws_def)
  obtain d where d: "dict_get (trusted_devices db) victim = Some d" "td_status d = TRUSTED"
    using assms(3) by (auto simp: status_of_def)
  have ids: "old_device_id cert = victim" "new_device_id cert = new_id" "new_public_key cert = new_pk"
    by (simp_all add: cert_def forged_cert_def)
  show ?thesis
    unfolding cert_def[symmetric] using ok d ids assms(2,4)
    by (simp add: record_rotation_def sbind_def ts_check_def carry_trust_def decide_def new_device_def)
qed

theorem rotation_certificate_forgeable_witness:
  "ed_laws demo_ed \<and>
   fst (ts_check ''mallory'' ''mk'' (snd (record_rotation demo_ed 5
     (forged_cert demo_ed [7] ''a'' ''mallory'' ''mk'' 5) sample_trusted))) = Inr D_TRUSTED"
  using rotation_certificate_forgeable[OF demo_ed_laws sample_trusted_conn, of "''a''" "''mallory''" "''mk''" 5 "[7]" 5]
  by (simp add: demo_ed_laws status_of_def new_device_def)

lemma length_b64encode: "length (b64encode bs) = 4 * ((length bs + 2) div 3)"
proof (induction bs rule: b64encode.induct)
  case (1 a b c bs)
  have "Suc (Suc (Suc (length bs))) + 2 = (length bs + 2) + 3" by simp
  then have "(Suc (Suc (Suc (length bs))) + 2) div 3 = Suc ((length bs + 2) div 3)"
    by (metis Suc_eq_plus1 div_add_self2 zero_neq_numeral)
  then show ?case using 1 by (simp only: b64encode.simps list.size) simp
qed simp_all

lemma b64_not_hex:
  assumes "length pk = 32"
  shows "b64encode pk \<noteq> to_hex pk"
proof -
  have "length (b64encode pk) \<noteq> length (to_hex pk)"
    using assms by (simp add: length_b64encode)
  then show ?thesis
    by metis
qed

text \<open>
  (C37) The store keeps keys in two spellings: a rotation records the new key in base64, the handshake
  checks the hexadecimal one. So after an honest rotation of a trusted device the successor's own
  handshake is refused as KEY_CHANGED.
\<close>

theorem rotated_key_reads_as_changed:
  assumes "ed_laws ed" "ts_conn s = Some db" "public_key_bytes old = ed_public ed (private_key old)"
    and "public_key_bytes new = ed_public ed (private_key new)"
    and "status_of db (kp_device_id old) = Some TRUSTED" "dict_get (trusted_devices db) (kp_device_id new) = None"
    and "create_transition_certificate ed now old new = Inr cert"
  shows "fst (record_rotation ed now cert s) = Inr () \<and>
    fst (ts_check (kp_device_id new) (to_hex (public_key_bytes new)) (snd (record_rotation ed now cert s))) =
      Inr D_KEY_CHANGED"
proof -
  have ok: "verify_transition_certificate ed cert"
    using created_certificate_verifies[OF assms(1,3,7)] .
  obtain d where d: "dict_get (trusted_devices db) (kp_device_id old) = Some d" "td_status d = TRUSTED"
    using assms(5) by (auto simp: status_of_def)
  have ids: "old_device_id cert = kp_device_id old" "new_device_id cert = kp_device_id new"
      "new_public_key cert = b64encode (public_key_bytes new)"
    using assms(7) by (auto simp: create_transition_certificate_def Let_def split: if_splits)
  have "length (public_key_bytes new) = 32"
    using assms(1,4) by (simp add: ed_laws_def)
  then show ?thesis
    using ok d ids assms(2,6) b64_not_hex
    by (simp add: record_rotation_def sbind_def ts_check_def carry_trust_def decide_def new_device_def)
qed

definition sample_keypair :: "string \<Rightarrow> byte \<Rightarrow> device_keypair" where
  "sample_keypair i b = \<lparr> private_key = [b], public_key_bytes = ed_public demo_ed [b], kp_device_id = i \<rparr>"

theorem rotated_key_reads_as_changed_witness:
  "\<exists>cert. create_transition_certificate demo_ed 5 (sample_keypair ''a'' 1) (sample_keypair ''b'' 2) = Inr cert \<and>
     fst (ts_check ''b'' (to_hex (public_key_bytes (sample_keypair ''b'' 2)))
       (snd (record_rotation demo_ed 5 cert sample_trusted))) = Inr D_KEY_CHANGED"
proof -
  obtain cert where cert:
    "create_transition_certificate demo_ed 5 (sample_keypair ''a'' 1) (sample_keypair ''b'' 2) = Inr cert"
    by (simp add: create_transition_certificate_def sample_keypair_def Let_def)
  have "fst (ts_check (kp_device_id (sample_keypair ''b'' 2)) (to_hex (public_key_bytes (sample_keypair ''b'' 2)))
      (snd (record_rotation demo_ed 5 cert sample_trusted))) = Inr D_KEY_CHANGED"
    using rotated_key_reads_as_changed[OF demo_ed_laws sample_trusted_conn _ _ _ _ cert]
    by (simp add: sample_keypair_def status_of_def new_device_def)
  with cert show ?thesis
    by (auto simp: sample_keypair_def)
qed

end
