(* ===== verification/Enforcer.thy ===== *)
theory Enforcer
  imports GroupAuthority Trust
begin

text \<open>
  Model of \<open>PolicyEnforcer\<close> in src/core/group/policy.py and of its wiring into the trust store
  (src/core/trust/store.py). An enforcer has a group store or none; its checks run on that store, read
  the clock through an argument and emit events that are not part of the state. The properties: a
  first contact is recorded only for members of every group that forbids external trust, an export
  passes only by burning a verified capability for each group that restricts it, and the
  communication check is the first-match rule over the policies concerned.
\<close>

section \<open>Running on a store that may be missing\<close>

definition on_store :: "(group_store, 'a) op \<Rightarrow> 'a \<Rightarrow> (group_store option, 'a) op" where
  "on_store m x gs = (case gs of None \<Rightarrow> (Inr x, None) | Some s \<Rightarrow> (case m s of (r, s') \<Rightarrow> (r, Some s')))"

text \<open>\<open>try: check() ; return True / except E: return False\<close>; other exceptions pass.\<close>

definition allowed :: "group_error list \<Rightarrow> (group_store option, unit) op \<Rightarrow> (group_store option, bool) op" where
  "allowed denials m gs = (case m gs of
     (Inr _, gs') \<Rightarrow> (Inr True, gs')
   | (Inl err, gs') \<Rightarrow> (if err \<in> Grp ` set denials then Inr False else Inl err, gs'))"

section \<open>External trust\<close>

definition counts_as_member :: "time \<Rightarrow> string \<Rightarrow> group_info \<Rightarrow> (group_store, bool) op" where
  "counts_as_member now device_id g =
    (if device_id = gi_admin_device_id g then sret True
     else sbind (get_membership (gi_group_id g) device_id) (\<lambda>cert.
       case cert of
         None \<Rightarrow> sret False
       | Some c \<Rightarrow> sbind (get_membership_status (gi_group_id g) device_id) (\<lambda>st.
           sret (st = Some M_ACTIVE \<and> \<not> is_membership_expired now c))))"

primrec trust_loop :: "time \<Rightarrow> string \<Rightarrow> group_info list \<Rightarrow> (group_store, unit) op" where
  "trust_loop now device_id [] = sret ()"
| "trust_loop now device_id (g # gs) =
    sbind (get_policy (gi_group_id g)) (\<lambda>policy.
      if policy = None \<or> allow_external_trust (the policy) then trust_loop now device_id gs
      else sbind (counts_as_member now device_id g) (\<lambda>is_member.
        if is_member then trust_loop now device_id gs else sfail (Grp ExternalTrustDeniedError)))"

definition external_trust :: "time \<Rightarrow> string \<Rightarrow> (group_store, unit) op" where
  "external_trust now device_id s =
    (case list_groups s of (Inl _, s') \<Rightarrow> (Inr (), s') | (Inr gs, s') \<Rightarrow> trust_loop now device_id gs s')"

definition check_external_trust :: "time \<Rightarrow> string \<Rightarrow> (group_store option, unit) op" where
  "check_external_trust now device_id = on_store (external_trust now device_id) ()"

definition is_external_trust_allowed :: "time \<Rightarrow> string \<Rightarrow> (group_store option, bool) op" where
  "is_external_trust_allowed now device_id = allowed [ExternalTrustDeniedError] (check_external_trust now device_id)"

section \<open>Export\<close>

text \<open>The keys the capability is checked against: those given, otherwise those of this group, which are
  then kept for the groups that follow.\<close>

definition export_keys :: "string \<Rightarrow> string list option \<Rightarrow> (group_store, string list) op" where
  "export_keys group_id keys = (case keys of
     Some ks \<Rightarrow> sret ks
   | None \<Rightarrow> sbind (get_active_admin_public_keys group_id) (\<lambda>d. sret (map (b64encode \<circ> snd) d)))"

text \<open>One restricting group: the capability that opens it is burned. The result is the keys in use.\<close>

definition export_gate ::
  "ed25519 \<Rightarrow> (nat \<Rightarrow> pyfloat) \<Rightarrow> string \<Rightarrow> string option \<Rightarrow> string option \<Rightarrow> string list option \<Rightarrow>
     (group_store, string list) op" where
  "export_gate ed clock group_id device_id file_id keys =
    (case (device_id, file_id) of
       (Some d, Some f) \<Rightarrow>
         sbind (get_valid_capability (time_of (clock 0)) group_id d f) (\<lambda>cap.
           case cap of
             None \<Rightarrow> sfail (Grp ExportDeniedError)
           | Some c \<Rightarrow>
               sbind (export_keys group_id keys) (\<lambda>ks.
               sbind (slift (verify_export_capability ed (time_of (clock 1)) c ks)) (\<lambda>ok.
               if ok then sbind (mark_capability_used (clock 2) (xc_capability_id c)) (\<lambda>_. sret ks)
               else sfail (Grp ExportDeniedError))))
     | _ \<Rightarrow> sfail (Grp ExportDeniedError))"

primrec export_loop ::
  "ed25519 \<Rightarrow> (nat \<Rightarrow> nat \<Rightarrow> pyfloat) \<Rightarrow> string option \<Rightarrow> string option \<Rightarrow> string list option \<Rightarrow> group_info option list \<Rightarrow>
     (group_store, unit) op" where
  "export_loop ed clock device_id file_id keys [] = sret ()"
| "export_loop ed clock device_id file_id keys (x # groups) =
    (case x of
       None \<Rightarrow> export_loop ed clock device_id file_id keys groups
     | Some g \<Rightarrow>
         sbind (get_policy (gi_group_id g)) (\<lambda>policy.
           if policy = None \<or> allow_export (the policy) then export_loop ed clock device_id file_id keys groups
           else sbind (export_gate ed (clock (length groups)) (gi_group_id g) device_id file_id keys) (\<lambda>ks.
             export_loop ed clock device_id file_id (Some ks) groups)))"

definition check_export ::
  "ed25519 \<Rightarrow> (nat \<Rightarrow> nat \<Rightarrow> pyfloat) \<Rightarrow> string option \<Rightarrow> string option \<Rightarrow> string option \<Rightarrow> string list option \<Rightarrow>
     (group_store option, unit) op" where
  "check_export ed clock group_id device_id file_id keys = on_store
    (sbind (if or_empty group_id \<noteq> [] then sbind (get_group (or_empty group_id)) (\<lambda>g. sret [g])
            else sbind list_groups (\<lambda>gs. sret (map Some gs)))
      (export_loop ed clock device_id file_id keys)) ()"

definition is_export_allowed ::
  "ed25519 \<Rightarrow> (nat \<Rightarrow> nat \<Rightarrow> pyfloat) \<Rightarrow> string option \<Rightarrow> string option \<Rightarrow> string option \<Rightarrow> string list option \<Rightarrow>
     (group_store option, bool) op" where
  "is_export_allowed ed clock group_id device_id file_id keys =
    allowed [ExportDeniedError] (check_export ed clock group_id device_id file_id keys)"

section \<open>Leaving and communication\<close>

definition check_leave :: "string \<Rightarrow> string \<Rightarrow> bool \<Rightarrow> (group_store option, unit) op" where
  "check_leave group_id device_id admin =
    (if admin then sret ()
     else on_store (sbind (get_policy group_id) (\<lambda>policy.
       if policy \<noteq> None \<and> leave_requires_admin (the policy) then sfail (Grp LeaveRequiresAdminError) else sret ())) ())"

definition is_leave_allowed :: "string \<Rightarrow> string \<Rightarrow> bool \<Rightarrow> (group_store option, bool) op" where
  "is_leave_allowed group_id device_id admin = allowed [LeaveRequiresAdminError] (check_leave group_id device_id admin)"

primrec inter_group_loop :: "string list \<Rightarrow> (group_store, unit) op" where
  "inter_group_loop [] = sret ()"
| "inter_group_loop (g # gs) = sbind (get_policy g) (\<lambda>policy.
     if policy \<noteq> None \<and> \<not> allow_inter_group (the policy) then sfail (Grp InterGroupDeniedError) else inter_group_loop gs)"

definition check_inter_group :: "string \<Rightarrow> string \<Rightarrow> (group_store option, unit) op" where
  "check_inter_group source target =
    (if source = target then sret () else on_store (inter_group_loop [source, target]) ())"

definition is_inter_group_allowed :: "string \<Rightarrow> string \<Rightarrow> (group_store option, bool) op" where
  "is_inter_group_allowed source target = allowed [InterGroupDeniedError] (check_inter_group source target)"

text \<open>The set of the named groups, iterated in either order (\<open>swapped\<close>).\<close>

definition target_group_ids :: "bool \<Rightarrow> comm_attempt \<Rightarrow> string list" where
  "target_group_ids swapped c =
    (let ids = remdups (filter (\<lambda>g. g \<noteq> []) [or_empty (ca_source_group_id c), or_empty (ca_dest_group_id c)])
     in if swapped then rev ids else ids)"

primrec present_policies :: "string list \<Rightarrow> (group_store, group_policy list) op" where
  "present_policies [] = sret []"
| "present_policies (g # gs) = sbind (get_policy g) (\<lambda>p. sbind (present_policies gs) (\<lambda>ps.
     sret (case p of None \<Rightarrow> ps | Some q \<Rightarrow> q # ps)))"

primrec policy_loop :: "comm_attempt \<Rightarrow> group_policy list \<Rightarrow> unit result" where
  "policy_loop c [] = Inr ()"
| "policy_loop c (p # ps) = rbind (check_policy c p) (\<lambda>_. policy_loop c ps)"

definition check_communication :: "bool \<Rightarrow> comm_attempt \<Rightarrow> (group_store option, unit) op" where
  "check_communication swapped c =
    (let src = or_empty (ca_source_group_id c); dst = or_empty (ca_dest_group_id c)
     in sbind (if src \<noteq> [] \<and> dst \<noteq> [] \<and> src \<noteq> dst then check_inter_group src dst else sret ()) (\<lambda>_.
        on_store (sbind (if target_group_ids swapped c \<noteq> [] then present_policies (target_group_ids swapped c)
                         else list_policies) (\<lambda>ps. slift (policy_loop c ps))) ()))"

definition is_communication_allowed :: "bool \<Rightarrow> comm_attempt \<Rightarrow> (group_store option, bool) op" where
  "is_communication_allowed swapped c =
    allowed [CommunicationDeniedError, InterGroupDeniedError] (check_communication swapped c)"

section \<open>Wiring into the trust store\<close>

text \<open>What the trust store holds of the group layer: a group store or none, and an enforcer or none,
  which itself has a group store or none.\<close>

record 'g trust_wiring =
  tw_group_store :: "'g option"
  tw_policy_enforcer :: "'g option option"

definition set_group_store :: "'g option \<Rightarrow> 'g trust_wiring \<Rightarrow> 'g trust_wiring" where
  "set_group_store g w = w\<lparr> tw_group_store := g, tw_policy_enforcer := map_option (\<lambda>_. g) (tw_policy_enforcer w) \<rparr>"

definition set_policy_enforcer :: "'g option option \<Rightarrow> 'g trust_wiring \<Rightarrow> 'g trust_wiring" where
  "set_policy_enforcer enforcer w = w\<lparr> tw_policy_enforcer := enforcer \<rparr>"

definition get_policy_enforcer :: "'g trust_wiring \<Rightarrow> 'g option option \<times> 'g trust_wiring" where
  "get_policy_enforcer w =
    (case tw_policy_enforcer w of
       Some enforcer \<Rightarrow> (Some enforcer, w)
     | None \<Rightarrow> (case tw_group_store w of
         Some g \<Rightarrow> (Some (Some g), w\<lparr> tw_policy_enforcer := Some (Some g) \<rparr>)
       | None \<Rightarrow> (None, w)))"

text \<open>The policy check a first contact runs, in the form \<^term>\<open>record_first_seen\<close> takes it.\<close>

definition first_contact_check :: "time \<Rightarrow> group_store trust_wiring \<Rightarrow> (string \<Rightarrow> unit result) option" where
  "first_contact_check now w =
    map_option (\<lambda>gs device_id. fst (check_external_trust now device_id gs)) (fst (get_policy_enforcer w))"

section \<open>Reading policies\<close>

definition policy_of :: "group_db \<Rightarrow> string \<Rightarrow> group_policy option" where
  "policy_of db g = map_option (\<lambda>r. projr (row_to_policy g r)) (dict_get (gd_policies db) g)"

lemma tables_ok_row:
  "tables_ok s \<Longrightarrow> gs_conn s = Some db \<Longrightarrow> dict_get (gd_policies db) g = Some r \<Longrightarrow> row_to_policy g r = Inr (projr (row_to_policy g r))"
  unfolding tables_ok_def side_ok_def side_tables_def
  by (metis fst_conv policy_row_roundtrip sum.sel(2))

lemma get_policy_run [simp]:
  "tables_ok s \<Longrightarrow> gs_conn s = Some db \<Longrightarrow> get_policy g s = (Inr (policy_of db g), s)"
proof (cases "dict_get (gd_policies db) g")
  case (Some r)
  assume "tables_ok s" "gs_conn s = Some db"
  with tables_ok_row[OF this Some] obtain p where "row_to_policy g r = Inr p"
    by blast
  with \<open>gs_conn s = Some db\<close> Some show ?thesis
    by (simp add: get_policy_def policy_of_def sbind_def)
qed (simp add: get_policy_def policy_of_def sbind_def)

lemma sbind_policy [simp]: "tables_ok s \<Longrightarrow> gs_conn s = Some db \<Longrightarrow> sbind (get_policy g) k s = k (policy_of db g) s"
  by (rule sbind_Inr) simp

lemma all_ok_map: "(\<And>x. x \<in> set xs \<Longrightarrow> f x = Inr (h x)) \<Longrightarrow> all_ok (map f xs) = Inr (map h xs)"
  by (induction xs) simp_all

text \<open>A set policy is the one that is read.\<close>

lemma set_policy_read:
  assumes "gs_conn s = Some db" "dict_get (gd_groups db) (gp_group_id p) = Some x" "or_empty (gp_admin_device_id p) = []"
  shows "\<exists>db'. gs_conn (snd (set_policy ed e p s)) = Some db' \<and> policy_of db' (gp_group_id p) = Some p"
proof -
  have "map_option gd_policies (gs_conn (snd (sbind (audit ed e g ty de sev dev act det) (\<lambda>_. sret y) t))) =
      map_option gd_policies (gs_conn t)" for g ty de sev dev act det and y :: group_policy and t
  proof -
    have "keeps_view gd_policies (sbind (audit ed e g ty de sev dev act det) (\<lambda>_. sret y))"
      by (intro view_walk) simp
    then show ?thesis
      by (simp add: keeps_view_def)
  qed
  then have "map_option gd_policies (gs_conn (snd (set_policy ed e p s))) =
      Some (dict_set (gp_group_id p) (policy_to_row p) (gd_policies db))"
    using assms by (simp add: set_policy_def get_group_def)
  then show ?thesis
    by (auto simp: policy_of_def policy_row_roundtrip)
qed

section \<open>First contacts\<close>

definition trusted_member :: "group_db \<Rightarrow> time \<Rightarrow> string \<Rightarrow> group_info \<Rightarrow> bool" where
  "trusted_member db now d g \<longleftrightarrow> d = gi_admin_device_id g \<or>
    (\<exists>r. dict_get (gd_memberships db) (gi_group_id g, d) = Some r \<and> mw_status r = M_ACTIVE \<and>
       \<not> is_membership_expired now (row_to_cert (gi_group_id g, d) r))"

lemma counts_as_member_run:
  "gs_conn s = Some db \<Longrightarrow> counts_as_member now d g s = (Inr (trusted_member db now d g), s)"
  by (auto simp: counts_as_member_def trusted_member_def get_membership_def get_membership_status_def split: option.split)

lemma sbind_counts [simp]:
  "gs_conn s = Some db \<Longrightarrow> sbind (counts_as_member now d g) k s = k (trusted_member db now d g) s"
  by (rule sbind_Inr) (rule counts_as_member_run)

lemma trust_loop_run:
  assumes "tables_ok s" "gs_conn s = Some db"
  shows "trust_loop now d gs s = (if (\<forall>g\<in>set gs. \<forall>p. policy_of db (gi_group_id g) = Some p \<longrightarrow>
      \<not> allow_external_trust p \<longrightarrow> trusted_member db now d g) then Inr () else Inl (Grp ExternalTrustDeniedError), s)"
proof (induction gs)
  case (Cons g gs)
  then show ?case
    using assms by (cases "policy_of db (gi_group_id g)") auto
qed simp

lemma external_trust_run:
  assumes "tables_ok s" "gs_conn s = Some db"
  shows "external_trust now d s = (if (\<forall>g\<in>snd ` set (gd_groups db). \<forall>p. policy_of db (gi_group_id g) = Some p \<longrightarrow>
      \<not> allow_external_trust p \<longrightarrow> trusted_member db now d g) then Inr () else Inl (Grp ExternalTrustDeniedError), s)"
  using trust_loop_run[OF assms, of now d "sort_key (\<lambda>g. - gi_created_at g) (map snd (gd_groups db))"] assms(2)
  by (simp add: external_trust_def list_groups_def)

lemma enforcer_of_wiring: "fst (get_policy_enforcer (set_group_store (Some gs) w)) = Some (Some gs)"
  by (auto simp: get_policy_enforcer_def set_group_store_def split: option.split)

text \<open>A group store without a connection lets every first contact pass.\<close>

lemma detached_store_admits: "gs_conn s = None \<Longrightarrow> check_external_trust now d (Some s) = (Inr (), Some s)"
  by (simp add: check_external_trust_def on_store_def external_trust_def list_groups_def gs_query_def gs_require_conn_def
      sbind_def)

text \<open>
  (C11) A first contact respects the groups this device belongs to. With the group store wired in and in
  any state its operations reach from a new database, the trust store records a device only if, for
  every group whose policy forbids external trust, the device is the group's founder or holds an
  active, unexpired membership certified under the key of one of the group's administrators.
\<close>

theorem first_contact_respects_groups:
  assumes "gs_conn s0 = Some empty_group_db" "(group_step ed)\<^sup>*\<^sup>* s0 s" "gs_conn s = Some db"
    and "record_first_seen (first_contact_check now (set_group_store (Some s) w)) now' i pk name ts = (Inr dev, ts')"
    and "dict_get (gd_groups db) g = Some gi" "policy_of db g = Some p" "\<not> allow_external_trust p"
  shows "i = gi_admin_device_id gi \<or>
    (\<exists>r. dict_get (gd_memberships db) (g, i) = Some r \<and> mw_status r = M_ACTIVE \<and>
       \<not> is_membership_expired now (row_to_cert (g, i) r) \<and> signed_row ed (roster_of db) g i r)"
proof -
  have ok: "tables_ok s"
    using side.after_steps[OF assms(2)] tables_ok_empty[OF assms(1)] by blast
  obtain R where "roster s = Some R" "good ed R"
    by (rule reached_roster[OF assms(1,2)])
  then have good: "good ed (roster_of db)"
    using assms(3) by simp
  then have g: "gi_group_id gi = g"
    using assms(5) by (simp add: good_def)
  have "fst (external_trust now i s) = Inr ()"
    using assms(4)
    by (auto simp: record_first_seen_def first_contact_check_def enforcer_of_wiring check_external_trust_def on_store_def
        sbind_eq_Inr split: if_splits prod.splits)
  moreover have "gi \<in> snd ` set (gd_groups db)"
    using map_of_SomeD[OF assms(5)] by force
  ultimately have "trusted_member db now i gi"
    using assms(6,7) g by (auto simp: external_trust_run[OF ok assms(3)] split: if_splits)
  then show ?thesis
    using good g unfolding trusted_member_def good_def by auto
qed

section \<open>Communication\<close>

lemma present_policies_run:
  "tables_ok s \<Longrightarrow> gs_conn s = Some db \<Longrightarrow> present_policies gs s = (Inr (List.map_filter (policy_of db) gs), s)"
proof (induction gs)
  case (Cons g gs)
  then show ?case
    by (cases "policy_of db g") (simp_all add: sbind_Inr map_filter_simps)
qed (simp add: map_filter_simps)

lemma list_policies_run:
  assumes "tables_ok s" "gs_conn s = Some db"
  shows "\<exists>ps. list_policies s = (Inr ps, s) \<and> set ps = {p. \<exists>g. policy_of db g = Some p}"
proof -
  have ok: "distinct (map fst (gd_policies db))"
    using assms by (simp add: tables_ok_def side_ok_def side_tables_def)
  define rows where "rows = sort_key (\<lambda>(_, r). - time_of (pw_updated_at r)) (gd_policies db)"
  define read where "read x = projr (row_to_policy (fst x) (snd x))" for x
  have rows: "set rows = set (gd_policies db)"
    by (simp add: rows_def)
  have "row_to_policy g r = Inr (read (g, r))" if "(g, r) \<in> set rows" for g r
    using that tables_ok_row[OF assms, of g r] ok by (simp add: rows read_def)
  then have "all_ok (map (\<lambda>(g, r). row_to_policy g r) rows) = Inr (map read rows)"
    by (intro all_ok_map) auto
  then have "list_policies s = (Inr (map read rows), s)"
    using assms(2) by (simp add: list_policies_def rows_def[symmetric])
  moreover have "set (map read rows) = {p. \<exists>g. policy_of db g = Some p}"
    using ok by (force simp: rows policy_of_def read_def)
  ultimately show ?thesis
    by blast
qed

lemma policy_loop_run:
  "policy_loop c ps = (if \<exists>p\<in>set ps. policy_verdict p c = DENY then Inl (Grp CommunicationDeniedError) else Inr ())"
  by (induction ps) (auto simp: check_policy_verdict)

lemma inter_group_loop_run:
  assumes "tables_ok s" "gs_conn s = Some db"
  shows "inter_group_loop gs s = (if \<exists>g\<in>set gs. \<exists>p. policy_of db g = Some p \<and> \<not> allow_inter_group p
    then Inl (Grp InterGroupDeniedError) else Inr (), s)"
proof (induction gs)
  case (Cons g gs)
  then show ?case
    using assms by (cases "policy_of db g") auto
qed simp

text \<open>The groups an attempt names, and the policies that concern it: those of the named groups, or all
  of them when it names none.\<close>

definition named_groups :: "comm_attempt \<Rightarrow> string set" where
  "named_groups c = {or_empty (ca_source_group_id c), or_empty (ca_dest_group_id c)} - {[]}"

definition concerned :: "group_db \<Rightarrow> comm_attempt \<Rightarrow> group_policy set" where
  "concerned db c = {p. \<exists>g. policy_of db g = Some p \<and> (named_groups c = {} \<or> g \<in> named_groups c)}"

lemma set_target_group_ids: "set (target_group_ids swapped c) = named_groups c"
  by (auto simp: target_group_ids_def named_groups_def Let_def)

lemma set_map_filter_policies: "set (List.map_filter (policy_of db) gs) = {p. \<exists>g\<in>set gs. policy_of db g = Some p}"
  by (induction gs) (auto simp: map_filter_simps split: option.splits)

lemma concerned_policies:
  assumes "tables_ok s" "gs_conn s = Some db"
  shows "\<exists>ps. (if target_group_ids swapped c \<noteq> [] then present_policies (target_group_ids swapped c) else list_policies) s =
    (Inr ps, s) \<and> set ps = concerned db c"
proof (cases "target_group_ids swapped c = []")
  case True
  then have "named_groups c = {}"
    using set_target_group_ids[of swapped c] by simp
  with True list_policies_run[OF assms] show ?thesis
    by (simp add: concerned_def)
next
  case False
  then have "named_groups c \<noteq> {}"
    using set_target_group_ids[of swapped c] by auto
  with False present_policies_run[OF assms] show ?thesis
    by (auto simp: concerned_def set_map_filter_policies set_target_group_ids)
qed

text \<open>
  (C15) What the communication check decides. In every state the store's operations reach from a new
  database, and in whichever order the set of named groups is iterated, the check raises
  InterGroupDeniedError exactly when two different named groups are involved and one of them forbids
  inter-group communication; otherwise it raises CommunicationDeniedError exactly when one of the
  concerned policies denies the attempt, that is, when the first matrix rule that applies, or the
  default if none does, is DENY. It never changes the store.
\<close>

theorem communication_check_spec:
  assumes "gs_conn s0 = Some empty_group_db" "(group_step ed)\<^sup>*\<^sup>* s0 s" "gs_conn s = Some db"
  shows "check_communication swapped c (Some s) =
    (if card (named_groups c) = 2 \<and> (\<exists>g\<in>named_groups c. \<exists>p. policy_of db g = Some p \<and> \<not> allow_inter_group p)
     then Inl (Grp InterGroupDeniedError)
     else if \<exists>p\<in>concerned db c. policy_verdict p c = DENY then Inl (Grp CommunicationDeniedError)
     else Inr (), Some s)"
proof -
  have ok: "tables_ok s"
    using side.after_steps[OF assms(2)] tables_ok_empty[OF assms(1)] by blast
  define src dst where "src = or_empty (ca_source_group_id c)" and "dst = or_empty (ca_dest_group_id c)"
  have two: "card (named_groups c) = 2 \<longleftrightarrow> src \<noteq> [] \<and> dst \<noteq> [] \<and> src \<noteq> dst"
    by (auto simp: named_groups_def src_def dst_def insert_Diff_if)
  obtain ps where ps: "(if target_group_ids swapped c \<noteq> [] then present_policies (target_group_ids swapped c)
      else list_policies) s = (Inr ps, s)" "set ps = concerned db c"
    using concerned_policies[OF ok assms(3)] by blast
  have last: "on_store (sbind (if target_group_ids swapped c \<noteq> [] then present_policies (target_group_ids swapped c)
      else list_policies) (\<lambda>ps. slift (policy_loop c ps))) () (Some s) =
    (if \<exists>p\<in>concerned db c. policy_verdict p c = DENY then Inl (Grp CommunicationDeniedError) else Inr (), Some s)"
    using ps(1) by (simp add: on_store_def sbind_def policy_loop_run ps(2))
  show ?thesis
  proof (cases "card (named_groups c) = 2")
    case True
    then have names: "named_groups c = {src, dst}" "src \<noteq> dst" "src \<noteq> []" "dst \<noteq> []"
      using two by (auto simp: named_groups_def src_def dst_def)
    have "check_inter_group src dst (Some s) = (if \<exists>g\<in>named_groups c. \<exists>p. policy_of db g = Some p \<and> \<not> allow_inter_group p
        then Inl (Grp InterGroupDeniedError) else Inr (), Some s)"
      using names by (simp add: check_inter_group_def on_store_def inter_group_loop_run[OF ok assms(3)]
          del: inter_group_loop.simps)
    then show ?thesis
      unfolding check_communication_def Let_def src_def[symmetric] dst_def[symmetric] using names True last
      by (auto simp: sbind_def)
  next
    case False
    then have one: "(src \<noteq> [] \<and> dst \<noteq> [] \<and> src \<noteq> dst) = False"
      using two by simp
    show ?thesis
      unfolding check_communication_def Let_def src_def[symmetric] dst_def[symmetric] one if_False sbind_pure last
      using False by simp
  qed
qed

section \<open>Exports\<close>

lemma capability_found:
  assumes "gs_conn s = Some db" "distinct (map fst (gd_capabilities db))" "get_valid_capability now g d f s = (Inr (Some c), s')"
  shows "s' = s \<and> (\<exists>i r. dict_get (gd_capabilities db) i = Some r \<and> usable_row now g d f r \<and> c = row_to_capability i r)"
proof -
  define xs where "xs = [(i, r) \<leftarrow> gd_capabilities db. usable_row now g d f r]"
  define ys where "ys = sort_key (\<lambda>(_, r). - time_of (cw_expires_at r)) xs"
  have "s' = s" "(case ys of [] \<Rightarrow> None | (i, r) # _ \<Rightarrow> Some (row_to_capability i r)) = Some c"
    using assms(1,3) by (simp_all add: get_valid_capability_def ys_def xs_def)
  then obtain i r zs where ys: "ys = (i, r) # zs" "c = row_to_capability i r"
    by (auto split: list.splits)
  then have "(i, r) \<in> set xs"
    by (metis list.set_intros(1) set_sort ys_def)
  then show ?thesis
    using \<open>s' = s\<close> ys(2) assms(2) by (auto simp: xs_def)
qed

text \<open>Base64 keys of active administrators of a group.\<close>

definition admin_keys :: "group_db \<Rightarrow> string \<Rightarrow> string list \<Rightarrow> bool" where
  "admin_keys db g ks \<longleftrightarrow> (\<forall>k\<in>set ks. \<exists>d a pk. dict_get (gd_admins db) (g, d) = Some a \<and> ar_status a = A_ACTIVE \<and>
     b64decode (ar_public_key a) = Some pk \<and> k = b64encode pk)"

lemma decode_keys_values:
  "decode_keys as d = Inr d' \<Longrightarrow> pk \<in> snd ` set d' \<Longrightarrow> pk \<in> snd ` set d \<or> (\<exists>a\<in>set as. b64decode (ar_public_key (snd a)) = Some pk)"
proof (induction as arbitrary: d)
  case (Cons a as)
  then obtain k where k: "b64decode (ar_public_key (snd a)) = Some k" "decode_keys as (dict_set (fst a) k d) = Inr d'"
    by (auto split: option.splits)
  have "snd ` set (dict_set (fst a) k d) \<subseteq> insert k (snd ` set d)"
    by (induction d) auto
  then show ?case
    using Cons.IH[OF k(2) Cons.prems(2)] k(1) by auto
qed simp

lemma export_keys_result:
  assumes "gs_conn s = Some db" "distinct (map fst (gd_admins db))" "export_keys g keys s = (Inr ks, s')"
  shows "s' = s \<and> (keys = Some ks \<or> keys = None \<and> admin_keys db g ks)"
proof (cases keys)
  case None
  define as where "as = map (\<lambda>(k, a). (snd k, a)) (sort_key (\<lambda>(_, a). ar_added_at a)
    [(k, a) \<leftarrow> gd_admins db. fst k = g \<and> A_ACTIVE = ar_status a])"
  have set_as: "\<exists>d. fst x = d \<and> ((g, d), snd x) \<in> set (gd_admins db) \<and> ar_status (snd x) = A_ACTIVE" if "x \<in> set as" for x
    using that by (auto simp: as_def)
  obtain d where d: "decode_keys as [] = Inr d" "ks = map (b64encode \<circ> snd) d" "s' = s"
    using assms(1,3) None
    by (auto simp: export_keys_def get_active_admin_public_keys_def list_admins_def as_def[symmetric] sbind_eq_Inr query_result)
  have "\<exists>i a pk. dict_get (gd_admins db) (g, i) = Some a \<and> ar_status a = A_ACTIVE \<and> b64decode (ar_public_key a) = Some pk \<and>
      k = b64encode pk" if "k \<in> set ks" for k
  proof -
    obtain pk where pk: "pk \<in> snd ` set d" "k = b64encode pk"
      using \<open>k \<in> set ks\<close> d(2) by auto
    obtain x where "x \<in> set as" "b64decode (ar_public_key (snd x)) = Some pk"
      using decode_keys_values[OF d(1) pk(1)] by (auto simp del: split_paired_Ex)
    then show ?thesis
      using set_as[of x] assms(2) \<open>k = b64encode pk\<close> by auto
  qed
  then show ?thesis
    using None d(3) by (simp add: admin_keys_def)
qed (use assms in \<open>simp add: export_keys_def\<close>)

lemma export_gate_result:
  assumes "gs_conn s = Some db" "distinct (map fst (gd_admins db))" "distinct (map fst (gd_capabilities db))"
    and "export_gate ed clk g dev file keys s = (Inr ks, t)"
  shows "\<exists>d f i r. dev = Some d \<and> file = Some f \<and> dict_get (gd_capabilities db) i = Some r \<and>
    usable_row (time_of (clk 0)) g d f r \<and> verify_export_capability ed (time_of (clk 1)) (row_to_capability i r) ks = Inr True \<and>
    (keys = Some ks \<or> keys = None \<and> admin_keys db g ks) \<and>
    t = s\<lparr> gs_conn := Some (db\<lparr> gd_capabilities :=
      dict_set i (r\<lparr> cw_used := True, cw_used_at := Some (clk 2) \<rparr>) (gd_capabilities db) \<rparr>) \<rparr>"
proof -
  obtain d f where df: "dev = Some d" "file = Some f"
    using assms(4) by (auto simp: export_gate_def split: option.splits)
  obtain c where c: "get_valid_capability (time_of (clk 0)) g d f s = (Inr (Some c), s)"
      "sbind (export_keys g keys) (\<lambda>ks. sbind (slift (verify_export_capability ed (time_of (clk 1)) c ks)) (\<lambda>ok.
         if ok then sbind (mark_capability_used (clk 2) (xc_capability_id c)) (\<lambda>_. sret ks)
         else sfail (Grp ExportDeniedError))) s = (Inr ks, t)"
    using assms(1,4) df by (auto simp: export_gate_def sbind_eq_Inr get_valid_capability_def split: option.splits)
  obtain i r where r: "dict_get (gd_capabilities db) i = Some r" "usable_row (time_of (clk 0)) g d f r" "c = row_to_capability i r"
    using capability_found[OF assms(1,3) c(1)] by blast
  obtain ks' where ks': "export_keys g keys s = (Inr ks', s)" "ks' = ks" "verify_export_capability ed (time_of (clk 1)) c ks = Inr True"
      "mark_capability_used (clk 2) i s = (Inr (), t)"
    using c(2) export_keys_result[OF assms(1,2)] r(3)
    by (auto simp: sbind_eq_Inr row_to_capability_def split: if_splits)
  have "keys = Some ks \<or> keys = None \<and> admin_keys db g ks"
    using export_keys_result[OF assms(1,2) ks'(1)] ks'(2) by simp
  moreover have "t = s\<lparr> gs_conn := Some (db\<lparr> gd_capabilities :=
      dict_set i (r\<lparr> cw_used := True, cw_used_at := Some (clk 2) \<rparr>) (gd_capabilities db) \<rparr>) \<rparr>"
    using ks'(4) assms(1) r(1) by (simp add: mark_capability_used_def)
  ultimately show ?thesis
    using df r ks'(3) by blast
qed

text \<open>What burning does to the table of capabilities: rows stay, some are now marked as used.\<close>

definition burned :: "(string, capability_row) dict \<Rightarrow> (string, capability_row) dict \<Rightarrow> bool" where
  "burned cs cs' \<longleftrightarrow>
    (\<forall>i r'. dict_get cs' i = Some r' \<longrightarrow> (\<exists>r. dict_get cs i = Some r \<and> (r' = r \<or> cw_used r'))) \<and>
    (\<forall>i r. dict_get cs i = Some r \<longrightarrow> cw_used r \<longrightarrow> (\<exists>r'. dict_get cs' i = Some r' \<and> cw_used r'))"

lemma burnedD:
  "burned cs cs' \<Longrightarrow> dict_get cs' i = Some r' \<Longrightarrow> \<not> cw_used r' \<Longrightarrow> dict_get cs i = Some r'"
  "burned cs cs' \<Longrightarrow> dict_get cs i = Some r \<Longrightarrow> cw_used r \<Longrightarrow> \<exists>r'. dict_get cs' i = Some r' \<and> cw_used r'"
  unfolding burned_def by fastforce+

lemma burned_trans:
  assumes "burned a b" "burned b c"
  shows "burned a c"
  unfolding burned_def[of a c]
proof (intro conjI allI impI)
  fix i r'
  assume "dict_get c i = Some r'"
  then obtain r1 where r1: "dict_get b i = Some r1" "r' = r1 \<or> cw_used r'"
    using assms(2) unfolding burned_def by blast
  then obtain r where "dict_get a i = Some r" "r1 = r \<or> cw_used r1"
    using assms(1) unfolding burned_def by blast
  with r1(2) show "\<exists>r. dict_get a i = Some r \<and> (r' = r \<or> cw_used r')"
    by auto
next
  fix i r
  assume "dict_get a i = Some r" "cw_used r"
  then show "\<exists>r'. dict_get c i = Some r' \<and> cw_used r'"
    using burnedD(2)[OF assms(1)] burnedD(2)[OF assms(2)] by blast
qed

lemma burned_set: "dict_get cs i = Some r \<Longrightarrow> cw_used r' \<Longrightarrow> burned cs (dict_set i r' cs)"
  by (auto simp: burned_def simp del: map_of_eq_Some_iff)

text \<open>A capability that opened the gate of a group: usable and verified before, used after.\<close>

definition opened ::
  "ed25519 \<Rightarrow> string option \<Rightarrow> string option \<Rightarrow> (string list \<Rightarrow> bool) \<Rightarrow> string \<Rightarrow> (string, capability_row) dict \<Rightarrow>
     (string, capability_row) dict \<Rightarrow> bool" where
  "opened ed dev file K g cs cs' \<longleftrightarrow> (\<exists>d f i r r' t t' ks. dev = Some d \<and> file = Some f \<and> dict_get cs i = Some r \<and>
     usable_row t g d f r \<and> verify_export_capability ed t' (row_to_capability i r) ks = Inr True \<and> K ks \<and>
     dict_get cs' i = Some r' \<and> cw_used r')"

lemma opened_before: "opened ed dev file K g cs cs' \<Longrightarrow> burned cs0 cs \<Longrightarrow> opened ed dev file K g cs0 cs'"
proof -
  assume "opened ed dev file K g cs cs'" and b: "burned cs0 cs"
  then obtain d f i r r' t t' ks where o: "dev = Some d" "file = Some f" "dict_get cs i = Some r" "usable_row t g d f r"
      "verify_export_capability ed t' (row_to_capability i r) ks = Inr True" "K ks" "dict_get cs' i = Some r'" "cw_used r'"
    unfolding opened_def by blast
  have "dict_get cs0 i = Some r"
    using burnedD(1)[OF b o(3)] o(4) by (simp add: usable_row_def)
  with o show ?thesis
    unfolding opened_def by blast
qed

lemma export_loop_result:
  assumes "tables_ok s" "gs_conn s = Some db" "distinct (map fst (gd_admins db))"
    and "export_loop ed clock dev file keys gs s = (Inr (), t)"
    and "\<And>ks. keys = Some ks \<Longrightarrow> K ks"
    and "\<And>g ks. keys = None \<Longrightarrow> Some g \<in> set gs \<Longrightarrow> admin_keys db (gi_group_id g) ks \<Longrightarrow> K ks"
  shows "\<exists>cs. gs_conn t = Some (db\<lparr> gd_capabilities := cs \<rparr>) \<and> burned (gd_capabilities db) cs \<and>
    (\<forall>g p. Some g \<in> set gs \<longrightarrow> policy_of db (gi_group_id g) = Some p \<longrightarrow> \<not> allow_export p \<longrightarrow>
       opened ed dev file K (gi_group_id g) (gd_capabilities db) cs)"
  using assms
proof (induction gs arbitrary: s db keys)
  case Nil
  then show ?case
    by (intro exI[of _ "gd_capabilities db"]) (auto simp: burned_def simp del: map_of_eq_Some_iff)
next
  case (Cons x gs)
  show ?case
  proof (cases "\<exists>g p. x = Some g \<and> policy_of db (gi_group_id g) = Some p \<and> \<not> allow_export p")
    case False
    then have "export_loop ed clock dev file keys gs s = (Inr (), t)"
      using Cons.prems(1,2,4) by (cases x) (auto split: if_splits)
    from Cons.IH[OF Cons.prems(1-3) this Cons.prems(5)] Cons.prems(6) obtain cs
      where cs: "gs_conn t = Some (db\<lparr> gd_capabilities := cs \<rparr>)" "burned (gd_capabilities db) cs"
        "\<forall>g p. Some g \<in> set gs \<longrightarrow> policy_of db (gi_group_id g) = Some p \<longrightarrow> \<not> allow_export p \<longrightarrow>
           opened ed dev file K (gi_group_id g) (gd_capabilities db) cs"
      by auto
    with False show ?thesis
      by (intro exI[of _ cs]) auto
  next
    case True
    then obtain g p where g: "x = Some g" "policy_of db (gi_group_id g) = Some p" "\<not> allow_export p"
      by blast
    obtain ks s1 where gate: "export_gate ed (clock (length gs)) (gi_group_id g) dev file keys s = (Inr ks, s1)"
      and rest: "export_loop ed clock dev file (Some ks) gs s1 = (Inr (), t)"
      using Cons.prems(1,2,4) g by (auto simp: sbind_eq_Inr)
    have caps: "distinct (map fst (gd_capabilities db))"
      using Cons.prems(1,2) by (simp add: tables_ok_def side_ok_def side_tables_def)
    obtain d f i r where r: "dev = Some d" "file = Some f" "dict_get (gd_capabilities db) i = Some r"
        "usable_row (time_of (clock (length gs) 0)) (gi_group_id g) d f r"
        "verify_export_capability ed (time_of (clock (length gs) 1)) (row_to_capability i r) ks = Inr True"
        "keys = Some ks \<or> keys = None \<and> admin_keys db (gi_group_id g) ks"
      and s1: "s1 = s\<lparr> gs_conn := Some (db\<lparr> gd_capabilities := dict_set i
        (r\<lparr> cw_used := True, cw_used_at := Some (clock (length gs) 2) \<rparr>) (gd_capabilities db) \<rparr>) \<rparr>"
      using export_gate_result[OF Cons.prems(2,3) caps gate] by blast
    define r1 where "r1 = r\<lparr> cw_used := True, cw_used_at := Some (clock (length gs) 2) \<rparr>"
    define db1 where "db1 = db\<lparr> gd_capabilities := dict_set i r1 (gd_capabilities db) \<rparr>"
    have K: "K ks"
      using r(6) Cons.prems(5)[of ks] Cons.prems(6)[of g ks] g(1) by auto
    have db1: "gs_conn s1 = Some db1" "gd_admins db1 = gd_admins db" "policy_of db1 = policy_of db" "admin_keys db1 = admin_keys db"
      by (auto simp: s1 db1_def r1_def policy_of_def admin_keys_def fun_eq_iff)
    have "mark_capability_used (clock (length gs) 2) i s = (Inr (), s1)"
      using Cons.prems(2) r(3) by (simp add: mark_capability_used_def s1)
    then have "tables_ok s1"
      using side_ops_keep_tables(3) Cons.prems(1) unfolding keeps_tables_def by (metis snd_conv)
    then obtain cs where cs: "gs_conn t = Some (db1\<lparr> gd_capabilities := cs \<rparr>)" "burned (gd_capabilities db1) cs"
      "\<forall>g p. Some g \<in> set gs \<longrightarrow> policy_of db (gi_group_id g) = Some p \<longrightarrow> \<not> allow_export p \<longrightarrow>
         opened ed dev file K (gi_group_id g) (gd_capabilities db1) cs"
      using Cons.IH[OF _ db1(1) _ rest] Cons.prems(3) K db1(2-4) by auto
    have b1: "burned (gd_capabilities db) (gd_capabilities db1)"
      unfolding db1_def using burned_set[OF r(3), of r1] by (simp add: r1_def)
    obtain r2 where "dict_get cs i = Some r2" "cw_used r2"
      using burnedD(2)[OF cs(2), of i r1] by (auto simp: db1_def r1_def)
    then have "opened ed dev file K (gi_group_id g) (gd_capabilities db) cs"
      using r(1-5) K unfolding opened_def by blast
    moreover have "burned (gd_capabilities db) cs"
      by (rule burned_trans[OF b1 cs(2)])
    ultimately show ?thesis
      using cs(1,3) opened_before[OF _ b1] g(1) by (intro exI[of _ cs]) (auto simp: db1_def)
  qed
qed

text \<open>With two restricting groups and no keys given, the capability of the second is checked against
  the administrators of the first.\<close>

lemma second_group_is_checked_by_first_admins:
  assumes "tables_ok s" "gs_conn s = Some db" "distinct (map fst (gd_admins db))"
    and "policy_of db (gi_group_id g) = Some p" "\<not> allow_export p" "policy_of db (gi_group_id h) = Some q" "\<not> allow_export q"
    and "export_loop ed clock dev file None [Some g, Some h] s = (Inr (), t)"
  shows "\<exists>cs cs'. opened ed dev file (admin_keys db (gi_group_id g)) (gi_group_id h) cs cs'"
proof -
  obtain ks s1 where gate: "export_gate ed (clock 1) (gi_group_id g) dev file None s = (Inr ks, s1)"
    and rest: "export_loop ed clock dev file (Some ks) [Some h] s1 = (Inr (), t)"
    using assms(1,2,4,5,8) by (auto simp: sbind_eq_Inr simp del: export_loop.simps(1)) 
  have "distinct (map fst (gd_capabilities db))"
    using assms(1,2) by (simp add: tables_ok_def side_ok_def side_tables_def)
  from export_gate_result[OF assms(2,3) this gate] obtain i r where r: "dict_get (gd_capabilities db) i = Some r"
      "admin_keys db (gi_group_id g) ks" "mark_capability_used (clock 1 2) i s = (Inr (), s1)"
    using assms(2) by (auto simp: mark_capability_used_def)
  then have ok: "tables_ok s1"
    using side_ops_keep_tables(3) assms(1) unfolding keeps_tables_def by (metis snd_conv)
  obtain db1 where "gs_conn s1 = Some db1" "gd_admins db1 = gd_admins db" "policy_of db1 = policy_of db"
    using r assms(2) by (auto simp: mark_capability_used_def policy_of_def fun_eq_iff)
  then show ?thesis
    using export_loop_result[OF ok _ _ rest, of db1 "admin_keys db (gi_group_id g)"] assms(3,6,7) r(2) by auto
qed


end
