(* ===== verification/EnforcerDemo.thy ===== *)
theory EnforcerDemo
  imports Enforcer
begin

text \<open>
  A concrete group with a restrictive policy and an export capability, on which the enforcer's
  properties are applied: their hypotheses hold together, and the checks return and deny as stated.
\<close>

section \<open>The database\<close>

definition core :: "group_db \<Rightarrow> group_db" where
  "core db = db\<lparr> gd_audit_log := [] \<rparr>"

lemma audit_then_core [simp]:
  "map_option core (gs_conn (snd (sbind (audit ed e g ty de sev dev act det) (\<lambda>_. sret x) s))) = map_option core (gs_conn s)"
proof -
  have "keeps_view core (sbind (audit ed e g ty de sev dev act det) (\<lambda>_. sret x))"
    by (intro view_walk) (simp add: core_def)
  then show ?thesis
    by (simp add: keeps_view_def)
qed

definition demo_policy :: group_policy where
  "demo_policy = \<lparr> gp_group_id = ''g'', allow_external_trust = False, allow_export = False, leave_requires_admin = True,
     allow_inter_group = True,
     communication_matrix = [\<lparr> ru_source = ''*'', ru_destination = ''GUEST'', ru_action = ''chat'', ru_effect = DENY \<rparr>],
     default_communication_effect = ALLOW, gp_version = 2, gp_updated_at = (70, 1), gp_admin_device_id = None,
     gp_signature = None \<rparr>"

definition demo_env2 :: gs_env where
  "demo_env2 = demo_env\<lparr> ge_uuid := ''u2'' \<rparr>"

definition policied_store :: group_store where
  "policied_store = snd (set_policy demo_ed demo_env2 demo_policy founded_store)"

definition demo_request :: export_request where
  "demo_request = \<lparr> xr_request_id = ''q'', xr_device_id = ''m'', xr_device_public_key = [], xr_group_id = ''g'',
     xr_file_id = ''f'', xr_action = ACTION_EXPORT, xr_timestamp = (70, 1), xr_reason = None, xr_signature = None \<rparr>"

definition demo_capability :: export_capability where
  "demo_capability = projr (issue_export_capability demo_ed (80, 1) ''c'' ''n'' [1] ''a'' demo_request DEFAULT_CAPABILITY_TTL)"

lemma demo_capability_issued:
  "issue_export_capability demo_ed (80, 1) ''c'' ''n'' [1] ''a'' demo_request DEFAULT_CAPABILITY_TTL = Inr demo_capability"
proof -
  have "is_ok (lp_fields (map utf8_encode [''c'', ''q'', ''m'', ''g'', ''f'', ''EXPORT'']))"
    "is_ok (lp_fields (map utf8_encode [''n'', ''a'']))"
    by code_simp+
  then have "is_ok (issue_export_capability demo_ed (80, 1) ''c'' ''n'' [1] ''a'' demo_request DEFAULT_CAPABILITY_TTL)"
    by (auto simp: is_ok_iff issue_export_capability_def capability_payload_def demo_request_def ACTION_EXPORT_def Let_def
        or_empty_def simp del: lp_fields.simps list.map)
  then show ?thesis
    unfolding demo_capability_def is_ok_iff by auto
qed

definition capable_store :: group_store where
  "capable_store = snd (store_capability demo_ed demo_env2 demo_capability policied_store)"

definition demo_db :: "(string, capability_row) dict \<Rightarrow> (string, policy_row) dict \<Rightarrow> group_db" where
  "demo_db cs ps = \<lparr> gd_groups = [(''g'', demo_group)], gd_memberships = [], gd_policies = ps,
     gd_admins = [((''g'', ''a''), founder_row)], gd_audit_log = [], gd_capabilities = cs \<rparr>"

lemma founded_core: "map_option core (gs_conn founded_store) = Some (demo_db [] [])"
  by (simp add: founded_store_def store_create_group_def new_store_def empty_group_db_def get_group_def insert_admin_execute
      core_def founder_row_def demo_db_def)

lemma core_simps [simp]:
  "gd_groups (core db) = gd_groups db" "gd_memberships (core db) = gd_memberships db" "gd_policies (core db) = gd_policies db"
  "gd_admins (core db) = gd_admins db" "gd_capabilities (core db) = gd_capabilities db"
  "core (db\<lparr> gd_policies := ps \<rparr>) = (core db)\<lparr> gd_policies := ps \<rparr>"
  "core (db\<lparr> gd_capabilities := cs \<rparr>) = (core db)\<lparr> gd_capabilities := cs \<rparr>"
  by (simp_all add: core_def)

lemma coreD:
  assumes "map_option core x = Some (demo_db cs ps)"
  shows "\<exists>db. x = Some db \<and> core db = demo_db cs ps \<and> gd_groups db = [(''g'', demo_group)] \<and>
    gd_memberships db = [] \<and> gd_policies db = ps \<and> gd_admins db = [((''g'', ''a''), founder_row)] \<and> gd_capabilities db = cs"
proof -
  obtain db where db: "x = Some db" "core db = demo_db cs ps"
    using assms by auto
  show ?thesis
    using db(1) db(2) core_simps(1-5)[of db, unfolded db(2)] by (simp add: demo_db_def)
qed

lemma policied_core: "map_option core (gs_conn policied_store) = Some (demo_db [] [(''g'', policy_to_row demo_policy)])"
proof -
  have p: "gp_group_id demo_policy = ''g''" "or_empty (gp_admin_device_id demo_policy) = []"
    by (simp_all add: demo_policy_def or_empty_def)
  obtain db where "gs_conn founded_store = Some db" "gd_groups db = [(''g'', demo_group)]" "gd_policies db = []"
      "core db = demo_db [] []"
    using coreD[OF founded_core] by blast
  then have "map_option core (gs_conn policied_store) = Some ((demo_db [] [])\<lparr> gd_policies := [(''g'', policy_to_row demo_policy)] \<rparr>)"
    by (simp add: policied_store_def set_policy_def get_group_def p)
  then show ?thesis
    by (simp add: demo_db_def)
qed

lemma policied_db: obtains db where "gs_conn policied_store = Some db" "gd_groups db = [(''g'', demo_group)]"
    "gd_memberships db = []" "gd_policies db = [(''g'', policy_to_row demo_policy)]"
    "gd_admins db = [((''g'', ''a''), founder_row)]" "gd_capabilities db = []"
  using coreD[OF policied_core] by blast

lemma policied_steps: "(group_step demo_ed)\<^sup>*\<^sup>* new_store policied_store"
  using founded_steps group_step.intros(10)[of demo_ed founded_store demo_env2 demo_policy]
  unfolding policied_store_def by (meson rtranclp.rtrancl_into_rtrancl)

lemma policy_of_demo: "gd_policies db = [(''g'', policy_to_row demo_policy)] \<Longrightarrow>
    policy_of db = (\<lambda>g. if g = ''g'' then Some demo_policy else None)"
  using policy_row_roundtrip[of demo_policy] by (auto simp: policy_of_def fun_eq_iff demo_policy_def)

section \<open>First contact\<close>

definition new_trust_store :: trust_store where
  "new_trust_store = \<lparr> ts_conn = Some empty_trust_db, ts_owns_conn = False \<rparr>"

abbreviation no_wiring :: "group_store trust_wiring" where
  "no_wiring \<equiv> \<lparr> tw_group_store = None, tw_policy_enforcer = None \<rparr>"

theorem first_contact_respects_groups_witness:
  "\<exists>db dev ts'. gs_conn policied_store = Some db \<and>
     record_first_seen (first_contact_check 9 (set_group_store (Some policied_store) no_wiring)) 9 ''a'' ''k'' ''n'' new_trust_store =
       (Inr dev, ts') \<and>
     (''a'' = gi_admin_device_id demo_group \<or>
      (\<exists>r. dict_get (gd_memberships db) (''g'', ''a'') = Some r \<and> mw_status r = M_ACTIVE \<and>
         \<not> is_membership_expired 9 (row_to_cert (''g'', ''a'') r) \<and> signed_row demo_ed (roster_of db) ''g'' ''a'' r))"
proof -
  obtain db where db: "gs_conn policied_store = Some db" "gd_groups db = [(''g'', demo_group)]"
      "gd_policies db = [(''g'', policy_to_row demo_policy)]"
    by (rule policied_db)
  have ok: "tables_ok policied_store"
    using side.after_steps[OF policied_steps] tables_ok_empty[of new_store] by (simp add: new_store_def)
  have "external_trust 9 ''a'' policied_store = (Inr (), policied_store)"
    using external_trust_run[OF ok db(1)] db(2) by (simp add: trusted_member_def)
  then have "fst (check_external_trust 9 ''a'' (Some policied_store)) = Inr ()"
    by (simp add: check_external_trust_def on_store_def)
  then obtain dev ts' where r: "record_first_seen (first_contact_check 9 (set_group_store (Some policied_store) no_wiring)) 9
      ''a'' ''k'' ''n'' new_trust_store = (Inr dev, ts')"
    by (auto simp: record_first_seen_def first_contact_check_def enforcer_of_wiring ts_get_def ts_execute_def ts_require_conn_def
        new_trust_store_def empty_trust_db_def insert_device_def sbind_def)
  have "policy_of db ''g'' = Some demo_policy" "\<not> allow_external_trust demo_policy"
    using policy_of_demo[OF db(3)] by (simp_all add: demo_policy_def)
  from first_contact_respects_groups[OF _ policied_steps db(1) r _ this] db(2) r db(1) show ?thesis
    by (auto simp: new_store_def)
qed

section \<open>Communication\<close>

definition guest_chat :: comm_attempt where
  "guest_chat = \<lparr> ca_action = action_value CHAT, ca_source_device_id = ''m'', ca_dest_device_id = ''x'', ca_source_role = None,
     ca_dest_role = Some ''guest'', ca_source_group_id = Some ''g'', ca_dest_group_id = None \<rparr>"

theorem communication_check_spec_witness:
  "check_communication True guest_chat (Some policied_store) = (Inl (Grp CommunicationDeniedError), Some policied_store)"
proof -
  obtain db where db: "gs_conn policied_store = Some db" "gd_policies db = [(''g'', policy_to_row demo_policy)]"
    by (rule policied_db)
  have names: "named_groups guest_chat = {''g''}"
    by (auto simp: named_groups_def guest_chat_def or_empty_def)
  then have "concerned db guest_chat = {demo_policy}"
    by (auto simp: concerned_def policy_of_demo[OF db(2)])
  moreover have "policy_verdict demo_policy guest_chat = DENY"
    by code_simp
  ultimately show ?thesis
    using communication_check_spec[OF _ policied_steps db(1), of True guest_chat] names by (simp add: new_store_def)
qed

section \<open>Export\<close>

lemma demo_capability_verifies:
  "t < 308 \<Longrightarrow> verify_export_capability demo_ed t demo_capability [b64encode (ed_public demo_ed [1])] = Inr True"
  using issued_capability_verifies[OF demo_ed_laws demo_capability_issued, of t "[b64encode (ed_public demo_ed [1])]"]
  by (simp add: DEFAULT_CAPABILITY_TTL_def time_of_def)

lemma issued_shape:
  "issue_export_capability ed now i n sk a q ttl = Inr c \<Longrightarrow> \<exists>p. c = \<lparr> xc_capability_id = i, xc_request_id = xr_request_id q,
     xc_device_id = xr_device_id q, xc_group_id = xr_group_id q, xc_file_id = xr_file_id q, xc_action = ACTION_EXPORT,
     xc_issued_at = now, xc_expires_at = pf_add now ttl, xc_nonce = n, xc_admin_device_id = Some a, xc_signature = Some p \<rparr>"
  by (auto simp: issue_export_capability_def Let_def rbind_eq_Inr)

lemma demo_capability_simps [simp]:
  "xc_capability_id demo_capability = ''c''" "xc_group_id demo_capability = ''g''" "xc_device_id demo_capability = ''m''"
  "xc_file_id demo_capability = ''f''" "time_of (xc_expires_at demo_capability) = 308"
  "row_to_capability ''c'' (capability_to_row demo_capability) = demo_capability"
proof -
  obtain p where c: "demo_capability = \<lparr> xc_capability_id = ''c'', xc_request_id = ''q'', xc_device_id = ''m'', xc_group_id = ''g'',
      xc_file_id = ''f'', xc_action = ACTION_EXPORT, xc_issued_at = (80, 1), xc_expires_at = pf_add (80, 1) (3000, 1),
      xc_nonce = ''n'', xc_admin_device_id = Some ''a'', xc_signature = Some p \<rparr>"
    using issued_shape[OF demo_capability_issued] by (auto simp: demo_request_def DEFAULT_CAPABILITY_TTL_def)
  show "xc_capability_id demo_capability = ''c''" "xc_group_id demo_capability = ''g''" "xc_device_id demo_capability = ''m''"
    "xc_file_id demo_capability = ''f''" "time_of (xc_expires_at demo_capability) = 308"
    "row_to_capability ''c'' (capability_to_row demo_capability) = demo_capability"
    unfolding c by (simp_all add: row_to_capability_def capability_to_row_def or_empty_def) (simp add: time_of_def)?
qed

lemma demo_keys: "gs_conn s = Some db \<Longrightarrow> gd_admins db = [((''g'', ''a''), founder_row)] \<Longrightarrow>
    export_keys ''g'' None s = (Inr [b64encode (ed_public demo_ed [1])], s) \<and>
    list_admins ''g'' (Some A_ACTIVE) s = (Inr [(''a'', founder_row)], s)"
  by (simp add: export_keys_def get_active_admin_public_keys_def list_admins_def sbind_assoc)

lemma demo_clock: "time_of (ge_clock demo_env2 0) = 5" "time_of (ge_clock demo_env2 (Suc 0)) = 6"
  by (simp_all add: demo_env2_def demo_env_def time_of_def)

lemma capable_core: "map_option core (gs_conn capable_store) =
    Some (demo_db [(''c'', capability_to_row demo_capability)] [(''g'', policy_to_row demo_policy)])"
proof -
  obtain db where db: "gs_conn policied_store = Some db" "gd_admins db = [((''g'', ''a''), founder_row)]"
      "gd_capabilities db = []" "core db = demo_db [] [(''g'', policy_to_row demo_policy)]"
    using coreD[OF policied_core] by blast
  have "list_admins ''g'' (Some A_ACTIVE) policied_store = (Inr [(''a'', founder_row)], policied_store)"
    using demo_keys[OF db(1,2)] by simp
  then have "map_option core (gs_conn capable_store) = Some ((demo_db [] [(''g'', policy_to_row demo_policy)])
      \<lparr> gd_capabilities := [(''c'', capability_to_row demo_capability)] \<rparr>)"
    using demo_capability_verifies[of 6] db
    by (simp add: capable_store_def store_capability_def cap_is_expired_def sbind_Inr demo_clock founder_row_def new_admin_def)
  then show ?thesis
    by (simp add: demo_db_def)
qed

lemma capable_steps: "(group_step demo_ed)\<^sup>*\<^sup>* new_store capable_store"
  using policied_steps group_step.intros(12)[of demo_ed policied_store demo_env2 demo_capability]
  unfolding capable_store_def by (meson rtranclp.rtrancl_into_rtrancl)

definition noon :: "nat \<Rightarrow> nat \<Rightarrow> pyfloat" where
  "noon i n = (100, 1)"


end
