(* ===== verification/Locator.thy ===== *)
theory Locator
  imports Codecs
begin

text \<open>
  Model of src/core/connectivity/locator.py and store.py: the endpoints at which a device was last
  reachable, their table, and the order in which they are tried. The table is a dictionary from the
  primary key (device, kind, host, port) to the time of the last confirmation; a time that is not a
  number is None (SQLite stores it as NULL, which the column refuses). The lemmas show what the table
  holds after each operation and that direct endpoints come before rendezvous hosts, freshest first.
\<close>

section \<open>Endpoints\<close>

definition KIND_DIRECT_V4 :: string where "KIND_DIRECT_V4 = ''direct-v4''"
definition KIND_DIRECT_V6 :: string where "KIND_DIRECT_V6 = ''direct-v6''"
definition KIND_RENDEZVOUS :: string where "KIND_RENDEZVOUS = ''rendezvous''"
definition VALID_KINDS :: "string list" where "VALID_KINDS = [KIND_DIRECT_V4, KIND_DIRECT_V6, KIND_RENDEZVOUS]"
definition DEFAULT_STALE_SECONDS :: time where "DEFAULT_STALE_SECONDS = 30 * 24 * 3600"

record endpoint =
  ep_device_id :: string
  ep_kind :: string
  ep_host :: string
  ep_port :: int
  ep_updated_at :: "time option"

definition mk_endpoint :: "string \<Rightarrow> string \<Rightarrow> string \<Rightarrow> int \<Rightarrow> time option \<Rightarrow> endpoint result" where
  "mk_endpoint device_id kind host port updated_at =
    rbind (require (kind \<in> set VALID_KINDS) (Conn LocatorError)) (\<lambda>_.
    rbind (require (host \<noteq> []) (Conn LocatorError)) (\<lambda>_.
    rbind (require (0 < port \<and> port \<le> 65535) (Conn LocatorError)) (\<lambda>_.
    Inr \<lparr> ep_device_id = device_id, ep_kind = kind, ep_host = host, ep_port = port, ep_updated_at = updated_at \<rparr>)))"

text \<open>A comparison with a value that is not a number is false.\<close>

definition is_stale :: "time \<Rightarrow> time \<Rightarrow> endpoint \<Rightarrow> bool" where
  "is_stale now max_age e = (case ep_updated_at e of None \<Rightarrow> False | Some t \<Rightarrow> now - t > max_age)"

record locator =
  lc_device_id :: string
  lc_endpoints :: "endpoint list"

definition newest_first :: "endpoint list \<Rightarrow> endpoint list" where
  "newest_first es = sort_key (\<lambda>e. - (case ep_updated_at e of None \<Rightarrow> 0 | Some t \<Rightarrow> t)) es"

definition sorted_endpoints :: "locator \<Rightarrow> endpoint list" where
  "sorted_endpoints l =
    newest_first [e \<leftarrow> lc_endpoints l. ep_kind e \<in> {KIND_DIRECT_V4, KIND_DIRECT_V6}] @
    newest_first [e \<leftarrow> lc_endpoints l. ep_kind e = KIND_RENDEZVOUS]"

section \<open>The table of endpoints\<close>

type_synonym endpoint_key = "string \<times> string \<times> string \<times> int"

record locator_store =
  ls_conn :: "(endpoint_key, time) dict option"
  ls_owns_conn :: bool

definition endpoint_key :: "endpoint \<Rightarrow> endpoint_key" where
  "endpoint_key e = (ep_device_id e, ep_kind e, ep_host e, ep_port e)"

text \<open>\<open>_row_to_endpoint\<close>: the checks of the constructor run again on what is read.\<close>

definition row_to_endpoint :: "endpoint_key \<times> time \<Rightarrow> endpoint result" where
  "row_to_endpoint r = (case r of ((d, k, h, p), t) \<Rightarrow> mk_endpoint d k h p (Some t))"

primrec rows_to_endpoints :: "(endpoint_key \<times> time) list \<Rightarrow> endpoint list result" where
  "rows_to_endpoints [] = Inr []"
| "rows_to_endpoints (r # rs) = rbind (row_to_endpoint r) (\<lambda>e. rbind (rows_to_endpoints rs) (\<lambda>es. Inr (e # es)))"

definition ls_close :: "locator_store \<Rightarrow> locator_store" where
  "ls_close s = (if ls_owns_conn s \<and> ls_conn s \<noteq> None then s\<lparr> ls_conn := None \<rparr> else s)"

definition ls_adopt_conn :: "(endpoint_key, time) dict option \<Rightarrow> locator_store \<Rightarrow> locator_store" where
  "ls_adopt_conn conn s = s\<lparr> ls_conn := conn, ls_owns_conn := False \<rparr>"

definition ls_require_conn :: "(locator_store, (endpoint_key, time) dict) op" where
  "ls_require_conn s = (case ls_conn s of None \<Rightarrow> (Inl (Py RuntimeError), s) | Some rows \<Rightarrow> (Inr rows, s))"

definition upsert_endpoint :: "endpoint \<Rightarrow> (locator_store, endpoint) op" where
  "upsert_endpoint e = sbind ls_require_conn (\<lambda>rows.
     case ep_updated_at e of
       None \<Rightarrow> sfail (Py IntegrityError)
     | Some t \<Rightarrow> sbind (smodify (\<lambda>s. s\<lparr> ls_conn := Some (dict_set (endpoint_key e) t rows) \<rparr>)) (\<lambda>_. sret e))"

definition remove_endpoint :: "string \<Rightarrow> string \<Rightarrow> string \<Rightarrow> int \<Rightarrow> (locator_store, unit) op" where
  "remove_endpoint device_id kind host port = sbind ls_require_conn (\<lambda>rows.
     smodify (\<lambda>s. s\<lparr> ls_conn := Some (dict_pop (device_id, kind, host, port) rows) \<rparr>))"

definition list_endpoints :: "string \<Rightarrow> string option \<Rightarrow> (locator_store, endpoint list) op" where
  "list_endpoints device_id kind = sbind ls_require_conn (\<lambda>rows.
     slift (rows_to_endpoints (sort_key (\<lambda>(_, t). - t)
       [((d, k, h, p), t) \<leftarrow> rows. d = device_id \<and> (kind = None \<or> kind = Some k)])))"

definition get_locator :: "string \<Rightarrow> (locator_store, locator) op" where
  "get_locator device_id = sbind (list_endpoints device_id None) (\<lambda>es.
     sret \<lparr> lc_device_id = device_id, lc_endpoints = es \<rparr>)"

definition prune_stale :: "time \<Rightarrow> time option \<Rightarrow> (locator_store, nat) op" where
  "prune_stale now max_age = sbind ls_require_conn (\<lambda>rows.
     let threshold = now - (case max_age of None \<Rightarrow> DEFAULT_STALE_SECONDS | Some a \<Rightarrow> a);
         live = [(k, t) \<leftarrow> rows. \<not> t < threshold]
     in sbind (smodify (\<lambda>s. s\<lparr> ls_conn := Some live \<rparr>)) (\<lambda>_. sret (length rows - length live)))"

section \<open>What the table holds\<close>

text \<open>Every row is one the constructor of Endpoint accepts, so a read never raises.\<close>

definition ls_ok :: "locator_store \<Rightarrow> bool" where
  "ls_ok s = (case ls_conn s of None \<Rightarrow> True
     | Some rows \<Rightarrow> distinct (map fst rows) \<and> list_all (\<lambda>r. is_ok (row_to_endpoint r)) rows)"

definition valid_endpoint :: "endpoint \<Rightarrow> bool" where
  "valid_endpoint e \<longleftrightarrow> ep_kind e \<in> set VALID_KINDS \<and> ep_host e \<noteq> [] \<and> 0 < ep_port e \<and> ep_port e \<le> 65535"

lemma mk_endpoint_Inr:
  "mk_endpoint d k h p t = Inr e \<longleftrightarrow>
    e = \<lparr> ep_device_id = d, ep_kind = k, ep_host = h, ep_port = p, ep_updated_at = t \<rparr> \<and> valid_endpoint e"
  by (auto simp: mk_endpoint_def rbind_eq_Inr valid_endpoint_def)

lemma row_ok_iff: "is_ok (row_to_endpoint ((d, k, h, p), t)) \<longleftrightarrow> k \<in> set VALID_KINDS \<and> h \<noteq> [] \<and> 0 < p \<and> p \<le> 65535"
  by (auto simp: row_to_endpoint_def is_ok_iff mk_endpoint_Inr valid_endpoint_def)

lemma row_to_endpoint_ok:
  "is_ok (row_to_endpoint ((d, k, h, p), t)) \<Longrightarrow>
    row_to_endpoint ((d, k, h, p), t) = Inr \<lparr> ep_device_id = d, ep_kind = k, ep_host = h, ep_port = p, ep_updated_at = Some t \<rparr>"
  unfolding row_ok_iff by (simp add: row_to_endpoint_def mk_endpoint_Inr valid_endpoint_def)

lemma rows_to_endpoints_ok:
  "list_all (\<lambda>r. is_ok (row_to_endpoint r)) rs \<Longrightarrow>
    rows_to_endpoints rs = Inr (map (\<lambda>((d, k, h, p), t). \<lparr> ep_device_id = d, ep_kind = k, ep_host = h, ep_port = p, ep_updated_at = Some t \<rparr>) rs)"
  by (induction rs) (auto simp: row_to_endpoint_ok)

lemma list_all_sort_key [simp]: "list_all P (sort_key f xs) = list_all P xs"
  by (simp add: list_all_iff)

lemma list_all_update:
  "list_all P d \<Longrightarrow> P (k, v) \<Longrightarrow> list_all P (dict_set k v d)"
  by (induction d) auto

lemma list_all_filter_weaken: "list_all P xs \<Longrightarrow> list_all P (filter Q xs)"
  by (auto simp: list_all_iff)

lemma ls_run:
  "ls_conn s = Some rows \<Longrightarrow> sbind ls_require_conn f s = f rows s"
  "ls_conn s = None \<Longrightarrow> sbind ls_require_conn f s = (Inl (Py RuntimeError), s)"
  by (simp_all add: sbind_def ls_require_conn_def)

lemma upsert_endpoint_keeps:
  assumes "valid_endpoint e" "ls_ok s"
  shows "ls_ok (snd (upsert_endpoint e s))"
proof (cases "ls_conn s")
  case (Some rows)
  obtain d k h p t where e: "e = \<lparr> ep_device_id = d, ep_kind = k, ep_host = h, ep_port = p, ep_updated_at = t \<rparr>"
    by (cases e) auto
  show ?thesis
  proof (cases t)
    case (Some v)
    have "is_ok (row_to_endpoint (endpoint_key e, v))"
      using assms(1) e by (simp add: endpoint_key_def row_ok_iff valid_endpoint_def)
    then show ?thesis
      using assms(2) \<open>ls_conn s = Some rows\<close> Some e
      by (simp add: upsert_endpoint_def ls_run ls_ok_def list_all_update distinct_update)
  qed (use assms(2) Some e in \<open>simp add: upsert_endpoint_def ls_run\<close>)
qed (use assms(2) in \<open>simp add: upsert_endpoint_def ls_run\<close>)

lemma remove_endpoint_keeps: "ls_ok s \<Longrightarrow> ls_ok (snd (remove_endpoint d k h p s))"
  by (cases "ls_conn s")
    (simp_all add: remove_endpoint_def ls_run ls_ok_def AList.delete_eq list_all_filter_weaken distinct_map_filter)

lemma prune_stale_keeps: "ls_ok s \<Longrightarrow> ls_ok (snd (prune_stale now age s))"
  by (cases "ls_conn s")
    (simp_all add: prune_stale_def ls_run Let_def ls_ok_def list_all_filter_weaken distinct_map_filter)

text \<open>An endpoint that is stored is found under its device, whatever else the table holds.\<close>

lemma stored_endpoint_is_found:
  assumes "ls_ok s" "ls_conn s \<noteq> None" "valid_endpoint e" "ep_updated_at e = Some t"
  shows "\<exists>es. list_endpoints (ep_device_id e) None (snd (upsert_endpoint e s)) = (Inr es, snd (upsert_endpoint e s)) \<and> e \<in> set es"
proof -
  obtain rows where rows: "ls_conn s = Some rows"
    using assms(2) by blast
  obtain d k h p where e: "e = \<lparr> ep_device_id = d, ep_kind = k, ep_host = h, ep_port = p, ep_updated_at = Some t \<rparr>"
    using assms(4) by (cases e) auto
  let ?rows = "dict_set (d, k, h, p) t rows"
  let ?found = "sort_key (\<lambda>(_, t). - t) [((d', k, h, p), t) \<leftarrow> ?rows. d' = d]"
  have up: "snd (upsert_endpoint e s) = s\<lparr> ls_conn := Some ?rows \<rparr>"
    using rows e by (simp add: upsert_endpoint_def ls_run endpoint_key_def)
  have ok: "list_all (\<lambda>r. is_ok (row_to_endpoint r)) ?rows"
    using upsert_endpoint_keeps[OF assms(3,1)] up by (simp add: ls_ok_def)
  have "((d, k, h, p), t) \<in> set ?rows"
    by (rule map_of_SomeD) simp
  then have "((d, k, h, p), t) \<in> set ?found"
    by simp
  moreover have "list_endpoints d None (s\<lparr> ls_conn := Some ?rows \<rparr>) = (rows_to_endpoints ?found, s\<lparr> ls_conn := Some ?rows \<rparr>)"
    by (simp add: list_endpoints_def ls_run)
  moreover have "list_all (\<lambda>r. is_ok (row_to_endpoint r)) ?found"
    using ok by (simp add: list_all_filter_weaken)
  ultimately show ?thesis
    using e up rows_to_endpoints_ok[of ?found] by (force simp: image_iff)
qed

text \<open>Pruning removes exactly the endpoints that are stale, and says how many.\<close>

lemma prune_stale_spec:
  assumes "ls_conn s = Some rows"
  shows "prune_stale now (Some age) s =
    (Inr (length [r \<leftarrow> rows. now - snd r > age]), s\<lparr> ls_conn := Some [r \<leftarrow> rows. \<not> now - snd r > age] \<rparr>)"
proof -
  have eq: "[(k, t) \<leftarrow> rows. \<not> t < now - age] = [r \<leftarrow> rows. \<not> now - snd r > age]"
    by (intro filter_cong) auto
  have "length rows = length [r \<leftarrow> rows. now - snd r > age] + length [r \<leftarrow> rows. \<not> now - snd r > age]"
    by (rule sum_length_filter_compl[symmetric])
  then show ?thesis
    using assms eq by (simp add: prune_stale_def ls_run Let_def)
qed

text \<open>The order of attempts: every direct endpoint before every rendezvous host, none lost.\<close>

lemma sorted_endpoints_spec:
  assumes "\<forall>e\<in>set (lc_endpoints l). valid_endpoint e"
  shows "set (sorted_endpoints l) = set (lc_endpoints l)"
    and "\<exists>n. (\<forall>e\<in>set (take n (sorted_endpoints l)). ep_kind e \<noteq> KIND_RENDEZVOUS) \<and>
             (\<forall>e\<in>set (drop n (sorted_endpoints l)). ep_kind e = KIND_RENDEZVOUS)"
proof -
  let ?a = "newest_first [e \<leftarrow> lc_endpoints l. ep_kind e \<in> {KIND_DIRECT_V4, KIND_DIRECT_V6}]"
  show "set (sorted_endpoints l) = set (lc_endpoints l)"
    using assms by (auto simp: sorted_endpoints_def newest_first_def valid_endpoint_def VALID_KINDS_def)
  show "\<exists>n. (\<forall>e\<in>set (take n (sorted_endpoints l)). ep_kind e \<noteq> KIND_RENDEZVOUS) \<and>
      (\<forall>e\<in>set (drop n (sorted_endpoints l)). ep_kind e = KIND_RENDEZVOUS)"
    by (rule exI[of _ "length ?a"])
      (auto simp: sorted_endpoints_def newest_first_def KIND_RENDEZVOUS_def KIND_DIRECT_V4_def KIND_DIRECT_V6_def)
qed

end
