(* ===== verification/Channel.thy ===== *)
theory Channel
  imports Wire
begin

text \<open>
  The encrypted channel: session keys (core/crypto/kdf.py), the sequence-numbered AEAD channel
  (core/crypto/encryption.py), the TCP connection (core/transport/tcp.py) and the encrypted
  transport over it (core/transport/secure.py). ChaCha20-Poly1305 and HKDF belong to the
  cryptography package: they are the parameters \<open>enc\<close>, \<open>dec\<close> and \<open>hkdf\<close>.
\<close>

section \<open>Session keys (core/crypto/kdf.py)\<close>

definition KEY_LEN :: nat where "KEY_LEN = 32"
definition SESSION_ID_LEN :: nat where "SESSION_ID_LEN = 16"

record session_keys =
  send_key :: bytes
  recv_key :: bytes
  session_id :: string

definition INFO_INIT_TO_RESP :: bytes where
  "INFO_INIT_TO_RESP = utf8_encode ''peerc-v2:initiator-to-responder''"
definition INFO_RESP_TO_INIT :: bytes where
  "INFO_RESP_TO_INIT = utf8_encode ''peerc-v2:responder-to-initiator''"
definition INFO_SESSION_ID :: bytes where
  "INFO_SESSION_ID = utf8_encode ''peerc-v2:session-id''"

text \<open>\<open>hkdf ikm salt info length\<close> is HKDF-SHA256; None is a failure inside the library.\<close>

type_synonym hkdf = "bytes \<Rightarrow> bytes \<Rightarrow> bytes \<Rightarrow> nat \<Rightarrow> bytes option"

definition derive_session_keys :: "hkdf \<Rightarrow> bytes \<Rightarrow> bytes \<Rightarrow> bool \<Rightarrow> session_keys result" where
  "derive_session_keys hkdf shared_secret salt is_initiator =
    (if length shared_secret \<noteq> 32 then Inl (Hs KDFError)
     else if length salt \<noteq> 32 then Inl (Hs KDFError)
     else (case (hkdf shared_secret salt INFO_INIT_TO_RESP KEY_LEN,
                 hkdf shared_secret salt INFO_RESP_TO_INIT KEY_LEN,
                 hkdf shared_secret salt INFO_SESSION_ID SESSION_ID_LEN) of
             (Some i2r, Some r2i, Some sid) \<Rightarrow>
               Inr (if is_initiator
                    then \<lparr> send_key = i2r, recv_key = r2i, session_id = to_hex sid \<rparr>
                    else \<lparr> send_key = r2i, recv_key = i2r, session_id = to_hex sid \<rparr>)
           | _ \<Rightarrow> Inl (Hs KDFError)))"

section \<open>The AEAD channel (core/crypto/encryption.py)\<close>

type_synonym aead_enc = "bytes \<Rightarrow> bytes \<Rightarrow> bytes \<Rightarrow> bytes option \<Rightarrow> bytes"
type_synonym aead_dec = "bytes \<Rightarrow> bytes \<Rightarrow> bytes \<Rightarrow> bytes option \<Rightarrow> bytes option"

definition NONCE_LEN :: nat where "NONCE_LEN = 12"

definition MAX_SEQUENCE :: int where
  "MAX_SEQUENCE = 2 ^ (NONCE_LEN * 8) - 1"

definition construct_nonce :: "int \<Rightarrow> bytes result" where
  "construct_nonce sequence =
    (if sequence < 0 \<or> sequence > MAX_SEQUENCE then Inl (Wire SequenceExhaustedError)
     else Inr (be_bytes NONCE_LEN (nat sequence)))"

record encrypted_frame =
  ef_sequence :: int
  ef_ciphertext :: bytes

record secure_channel =
  ch_send_key :: bytes
  ch_recv_key :: bytes
  ch_send_sequence :: int
  ch_expected_recv_sequence :: int

definition new_channel :: "session_keys \<Rightarrow> secure_channel result" where
  "new_channel keys =
    (if length (send_key keys) \<noteq> KEY_LEN \<or> length (recv_key keys) \<noteq> KEY_LEN then Inl (Wire EncryptionError)
     else Inr \<lparr> ch_send_key = send_key keys, ch_recv_key = recv_key keys,
                ch_send_sequence = 0, ch_expected_recv_sequence = 0 \<rparr>)"

definition ad_or_none :: "bytes \<Rightarrow> bytes option" where
  "ad_or_none ad = (if ad = [] then None else Some ad)"

definition channel_encrypt :: "aead_enc \<Rightarrow> bytes \<Rightarrow> bytes \<Rightarrow> (secure_channel, encrypted_frame) op" where
  "channel_encrypt enc plaintext ad ch =
    (case construct_nonce (ch_send_sequence ch) of
       Inl e \<Rightarrow> (Inl e, ch)
     | Inr nonce \<Rightarrow>
         (Inr \<lparr> ef_sequence = ch_send_sequence ch,
                ef_ciphertext = enc (ch_send_key ch) nonce plaintext (ad_or_none ad) \<rparr>,
          ch \<lparr> ch_send_sequence := ch_send_sequence ch + 1 \<rparr>))"

definition channel_decrypt :: "aead_dec \<Rightarrow> int \<Rightarrow> bytes \<Rightarrow> bytes \<Rightarrow> (secure_channel, bytes) op" where
  "channel_decrypt dec sequence ciphertext ad ch =
    (if sequence \<noteq> ch_expected_recv_sequence ch then (Inl (Wire ReplayOrReorderError), ch)
     else (case construct_nonce sequence of
       Inl e \<Rightarrow> (Inl e, ch)
     | Inr nonce \<Rightarrow>
         (case dec (ch_recv_key ch) nonce ciphertext (ad_or_none ad) of
            None \<Rightarrow> (Inl (Wire DecryptionError), ch)
          | Some plaintext \<Rightarrow>
              (Inr plaintext, ch \<lparr> ch_expected_recv_sequence := ch_expected_recv_sequence ch + 1 \<rparr>))))"

section \<open>The TCP connection (core/transport/tcp.py)\<close>

text \<open>The streams of a connection: bytes still to be read before end of file, bytes written, whether
  the writer was closed, and whether the operating system reports the connection lost on the next
  write.\<close>

record tcp =
  t_closed :: bool
  t_writer_closing :: bool
  t_in :: bytes
  t_out :: bytes
  t_lost :: bool

definition tcp_is_closing :: "tcp \<Rightarrow> bool" where
  "tcp_is_closing t \<longleftrightarrow> t_closed t \<or> t_writer_closing t"

definition tcp_read_frame :: "(tcp, frame) op" where
  "tcp_read_frame t =
    (if tcp_is_closing t then (Inl (Wire ConnectionClosedError), t)
     else (case read_any_frame (t_in t) of
       (Inr f, s) \<Rightarrow> (Inr f, t \<lparr> t_in := s \<rparr>)
     | (Inl e, s) \<Rightarrow>
         if e = Py IncompleteReadError
         then (Inl (Wire ConnectionClosedError), t \<lparr> t_in := s, t_closed := True \<rparr>)
         else (Inl (Wire TransportError), t \<lparr> t_in := s \<rparr>)))"

definition tcp_write :: "bytes result \<Rightarrow> (tcp, unit) op" where
  "tcp_write written t =
    (case written of
       Inl e \<Rightarrow> (Inl (Wire TransportError), t)
     | Inr out \<Rightarrow>
         if t_lost t then (Inl (Wire ConnectionClosedError), t \<lparr> t_closed := True \<rparr>)
         else (Inr (), t \<lparr> t_out := out \<rparr>))"

definition tcp_write_frame :: "json \<Rightarrow> (tcp, unit) op" where
  "tcp_write_frame message t =
    (if tcp_is_closing t then (Inl (Wire ConnectionClosedError), t)
     else tcp_write (write_frame (t_out t) message) t)"

definition tcp_write_binary_frame :: "bytes \<Rightarrow> (tcp, unit) op" where
  "tcp_write_binary_frame payload t =
    (if tcp_is_closing t then (Inl (Wire ConnectionClosedError), t)
     else tcp_write (write_binary_frame (t_out t) payload) t)"

definition tcp_close :: "tcp \<Rightarrow> tcp" where
  "tcp_close t = (if t_closed t then t else t \<lparr> t_closed := True, t_writer_closing := True \<rparr>)"

section \<open>The encrypted transport (core/transport/secure.py)\<close>

definition TYPE_JSON :: byte where "TYPE_JSON = 0x4A"
definition TYPE_BINARY :: byte where "TYPE_BINARY = 0x42"
definition TYPE_RELAY :: byte where "TYPE_RELAY = 0x52"

definition SEQUENCE_SIZE :: nat where "SEQUENCE_SIZE = 8"
definition MIN_ENCRYPTED_PAYLOAD_LEN :: nat where "MIN_ENCRYPTED_PAYLOAD_LEN = SEQUENCE_SIZE + 16"

record transport =
  tr_tcp :: tcp
  tr_channel :: secure_channel

definition on_tcp :: "(tcp, 'a) op \<Rightarrow> (transport, 'a) op" where
  "on_tcp m t = (case m (tr_tcp t) of (r, c) \<Rightarrow> (r, t \<lparr> tr_tcp := c \<rparr>))"

definition on_channel :: "(secure_channel, 'a) op \<Rightarrow> (transport, 'a) op" where
  "on_channel m t = (case m (tr_channel t) of (r, c) \<Rightarrow> (r, t \<lparr> tr_channel := c \<rparr>))"

definition send_encrypted :: "aead_enc \<Rightarrow> bytes \<Rightarrow> bytes \<Rightarrow> (transport, unit) op" where
  "send_encrypted enc inner_payload ad t =
    (case on_channel (channel_encrypt enc inner_payload ad) t of
       (Inl e, t') \<Rightarrow>
         (if e = Wire SequenceExhaustedError
          then (Inl (Wire TransportError), t' \<lparr> tr_tcp := tcp_close (tr_tcp t') \<rparr>)
          else (Inl (Wire TransportError), t'))
     | (Inr frame, t') \<Rightarrow>
         sbind (slift (pack_uint SEQUENCE_SIZE (ef_sequence frame))) (\<lambda>seq_header.
           on_tcp (tcp_write_binary_frame (seq_header @ ef_ciphertext frame))) t')"

definition send_message :: "aead_enc \<Rightarrow> json \<Rightarrow> bytes \<Rightarrow> (transport, unit) op" where
  "send_message enc message ad =
    (case message of
       JDict _ \<Rightarrow> send_encrypted enc (TYPE_JSON # utf8_encode (dumps message)) ad
     | _ \<Rightarrow> sfail (Wire TransportError))"

definition send_binary :: "aead_enc \<Rightarrow> bytes \<Rightarrow> bytes \<Rightarrow> (transport, unit) op" where
  "send_binary enc payload ad = send_encrypted enc (TYPE_BINARY # payload) ad"

definition send_relay :: "aead_enc \<Rightarrow> bytes \<Rightarrow> bytes \<Rightarrow> (transport, unit) op" where
  "send_relay enc payload ad = send_encrypted enc (TYPE_RELAY # payload) ad"

datatype received = RJson json | RBinary bytes | RRelay bytes | RRaw bytes

definition parse_inner :: "bytes \<Rightarrow> received result" where
  "parse_inner plaintext =
    (case plaintext of
       [] \<Rightarrow> Inl (Wire TransportError)
     | marker # body \<Rightarrow>
         if marker = TYPE_JSON then
           (case utf8_decode body of
              None \<Rightarrow> Inl (Wire TransportError)
            | Some s \<Rightarrow> (case loads s of None \<Rightarrow> Inl (Wire TransportError) | Some v \<Rightarrow> Inr (RJson v)))
         else if marker = TYPE_BINARY then Inr (RBinary body)
         else if marker = TYPE_RELAY then Inr (RRelay body)
         else Inr (RRaw plaintext))"

definition receive_frame :: "aead_dec \<Rightarrow> bytes \<Rightarrow> (transport, received) op" where
  "receive_frame dec ad =
    sbind (on_tcp tcp_read_frame) (\<lambda>f.
      case f of
        JsonFrame _ \<Rightarrow> sfail (Wire TransportError)
      | BinaryFrame wire_payload \<Rightarrow>
          if length wire_payload < MIN_ENCRYPTED_PAYLOAD_LEN then sfail (Wire TransportError)
          else sbind (on_channel (channel_decrypt dec (int (be_nat (take SEQUENCE_SIZE wire_payload)))
                                    (drop SEQUENCE_SIZE wire_payload) ad)) (\<lambda>plaintext.
            slift (parse_inner plaintext)))"

definition transport_close :: "transport \<Rightarrow> transport" where
  "transport_close t = t \<lparr> tr_tcp := tcp_close (tr_tcp t) \<rparr>"

section \<open>What the channel relies on\<close>

text \<open>Documented behaviour of the AEAD: decryption inverts encryption under the same key, nonce and
  associated data; only the ciphertext of a plaintext decrypts to it (the cipher is deterministic
  and the tag is checked); the tag adds 16 bytes.\<close>

definition aead_laws :: "aead_enc \<Rightarrow> aead_dec \<Rightarrow> bool" where
  "aead_laws enc dec \<longleftrightarrow>
    (\<forall>k n p a. dec k n (enc k n p a) a = Some p) \<and>
    (\<forall>k n c a p. dec k n c a = Some p \<longrightarrow> c = enc k n p a) \<and>
    (\<forall>k n p a. length (enc k n p a) = length p + 16)"

lemma aead_inverse: "aead_laws enc dec \<Longrightarrow> dec k n (enc k n p a) a = Some p"
  by (simp add: aead_laws_def)

lemma aead_unique: "aead_laws enc dec \<Longrightarrow> dec k n c a = Some p \<Longrightarrow> c = enc k n p a"
  by (simp add: aead_laws_def)

lemma aead_length: "aead_laws enc dec \<Longrightarrow> length (enc k n p a) = length p + 16"
  by (simp add: aead_laws_def)

text \<open>A concrete cipher with these laws (a keyed tag, no secrecy), used to evaluate examples.\<close>

definition demo_tag :: "bytes \<Rightarrow> bytes \<Rightarrow> bytes \<Rightarrow> bytes option \<Rightarrow> bytes" where
  "demo_tag k n p a = be_bytes 16 (be_nat (k @ n @ p @ (case a of None \<Rightarrow> [] | Some x \<Rightarrow> x)))"

definition demo_enc :: aead_enc where
  "demo_enc k n p a = p @ demo_tag k n p a"

definition demo_dec :: aead_dec where
  "demo_dec k n c a =
    (let p = take (length c - 16) c in if c = p @ demo_tag k n p a then Some p else None)"

lemma demo_aead: "aead_laws demo_enc demo_dec"
  by (auto simp: aead_laws_def demo_enc_def demo_dec_def Let_def demo_tag_def split: if_splits)

section \<open>Lemmas\<close>

lemmas channel_consts = NONCE_LEN_def MAX_SEQUENCE_def SEQUENCE_SIZE_def MIN_ENCRYPTED_PAYLOAD_LEN_def KEY_LEN_def

text \<open>The payload of the frame that carries a plaintext under a sequence number.\<close>

definition wire_payload :: "aead_enc \<Rightarrow> bytes \<Rightarrow> int \<Rightarrow> bytes \<Rightarrow> bytes \<Rightarrow> bytes" where
  "wire_payload enc k sq inner ad =
     be_bytes 8 (nat sq) @ enc k (be_bytes 12 (nat sq)) inner (ad_or_none ad)"

definition sealed :: "aead_enc \<Rightarrow> bytes \<Rightarrow> int \<Rightarrow> bytes \<Rightarrow> bytes \<Rightarrow> bytes" where
  "sealed enc k sq inner ad =
     header_of True (length (wire_payload enc k sq inner ad)) @ wire_payload enc k sq inner ad"

lemma construct_nonce_small:
  "0 \<le> sq \<Longrightarrow> sq < 256 ^ 8 \<Longrightarrow> construct_nonce sq = Inr (be_bytes 12 (nat sq))"
  by (simp add: construct_nonce_def channel_consts)

lemma send_encrypted_ok:
  assumes "send_encrypted enc inner ad t = (Inr u, t')"
  shows "\<not> tcp_is_closing (tr_tcp t) \<and> 0 \<le> ch_send_sequence (tr_channel t) \<and>
    ch_send_sequence (tr_channel t) < 256 ^ 8 \<and>
    length (wire_payload enc (ch_send_key (tr_channel t)) (ch_send_sequence (tr_channel t)) inner ad) \<le> MAX_MESSAGE_SIZE \<and>
    t' = t \<lparr> tr_channel := (tr_channel t) \<lparr> ch_send_sequence := ch_send_sequence (tr_channel t) + 1 \<rparr>,
             tr_tcp := (tr_tcp t) \<lparr> t_out := t_out (tr_tcp t) @
               sealed enc (ch_send_key (tr_channel t)) (ch_send_sequence (tr_channel t)) inner ad \<rparr> \<rparr>"
proof -
  let ?ch = "tr_channel t" and ?tc = "tr_tcp t"
  let ?sq = "ch_send_sequence ?ch"
  obtain nonce where nonce: "construct_nonce ?sq = Inr nonce"
    using assms by (auto simp: send_encrypted_def on_channel_def channel_encrypt_def split: sum.splits if_splits)
  then have n: "0 \<le> ?sq" "nonce = be_bytes 12 (nat ?sq)"
    by (auto simp: construct_nonce_def NONCE_LEN_def split: if_splits)
  obtain h where h: "pack_uint 8 ?sq = Inr h"
    and w: "on_tcp (tcp_write_binary_frame (h @ enc (ch_send_key ?ch) nonce inner (ad_or_none ad)))
      (t \<lparr> tr_channel := ?ch \<lparr> ch_send_sequence := ?sq + 1 \<rparr> \<rparr>) = (Inr u, t')"
    using assms nonce
    by (auto simp: send_encrypted_def on_channel_def channel_encrypt_def SEQUENCE_SIZE_def sbind_eq_Inr)
  from h have sq: "?sq < 256 ^ 8" "h = be_bytes 8 (nat ?sq)"
    by (simp_all add: pack_uint_Inr)
  with n have wp: "h @ enc (ch_send_key ?ch) nonce inner (ad_or_none ad) = wire_payload enc (ch_send_key ?ch) ?sq inner ad"
    by (simp add: wire_payload_def)
  show ?thesis
    using w n sq(1) unfolding wp
    by (auto simp: on_tcp_def tcp_write_binary_frame_def tcp_write_def write_binary_frame_def sealed_def
        encode_binary_frame_eq rbind_eq_Inr split: if_splits sum.splits)
qed

lemma wire_payload_length:
  "aead_laws enc dec \<Longrightarrow> length (wire_payload enc k sq inner ad) = length inner + 24"
  by (simp add: wire_payload_def aead_length)

lemma receive_sealed:
  assumes laws: "aead_laws enc dec" and sq: "0 \<le> sq" "sq < 256 ^ 8"
    and opened: "\<not> tcp_is_closing (tr_tcp t)"
    and stream: "t_in (tr_tcp t) = sealed enc k sq inner ad @ rest"
    and size: "length (wire_payload enc k sq inner ad) \<le> MAX_MESSAGE_SIZE"
  shows "receive_frame dec ad t =
    (let t1 = t \<lparr> tr_tcp := (tr_tcp t) \<lparr> t_in := rest \<rparr> \<rparr>
     in if sq \<noteq> ch_expected_recv_sequence (tr_channel t) then (Inl (Wire ReplayOrReorderError), t1)
        else case dec (ch_recv_key (tr_channel t)) (be_bytes 12 (nat sq))
               (enc k (be_bytes 12 (nat sq)) inner (ad_or_none ad)) (ad_or_none ad) of
            None \<Rightarrow> (Inl (Wire DecryptionError), t1)
          | Some p \<Rightarrow> (parse_inner p, t1 \<lparr> tr_channel := (tr_channel t)
                \<lparr> ch_expected_recv_sequence := ch_expected_recv_sequence (tr_channel t) + 1 \<rparr> \<rparr>))"
proof -
  let ?w = "wire_payload enc k sq inner ad"
  have ne: "?w \<noteq> []" and long: "24 \<le> length ?w"
    using wire_payload_length[OF laws, of k sq inner ad] by auto
  have read: "read_any_frame (t_in (tr_tcp t)) = (Inr (BinaryFrame ?w), rest)"
    unfolding stream sealed_def read_any_frame_def using ne size by (simp add: sbind_read_raw)
  have parts: "int (be_nat (take 8 ?w)) = sq" "drop 8 ?w = enc k (be_bytes 12 (nat sq)) inner (ad_or_none ad)"
    using sq by (simp_all add: wire_payload_def nat_less_iff)
  show ?thesis
    using opened long sq
    by (auto simp: receive_frame_def on_tcp_def tcp_read_frame_def read sbind_def on_channel_def channel_decrypt_def
        channel_consts parts construct_nonce_small Let_def split: option.splits)
qed

section \<open>Delivery\<close>

text \<open>One call of a sender, and the result the receiver must see for it.\<close>

definition send_item :: "aead_enc \<Rightarrow> bytes \<Rightarrow> received \<Rightarrow> (transport, unit) op" where
  "send_item enc ad x = (case x of
     RJson v \<Rightarrow> send_message enc v ad
   | RBinary b \<Rightarrow> send_binary enc b ad
   | RRelay b \<Rightarrow> send_relay enc b ad
   | RRaw b \<Rightarrow> sfail (Wire TransportError))"

fun send_items :: "aead_enc \<Rightarrow> bytes \<Rightarrow> received list \<Rightarrow> (transport, unit) op" where
  "send_items enc ad [] = sret ()"
| "send_items enc ad (x # xs) = sbind (send_item enc ad x) (\<lambda>_. send_items enc ad xs)"

fun receive_items :: "aead_dec \<Rightarrow> bytes \<Rightarrow> nat \<Rightarrow> (transport, received list) op" where
  "receive_items dec ad 0 = sret []"
| "receive_items dec ad (Suc n) =
     sbind (receive_frame dec ad) (\<lambda>x. sbind (receive_items dec ad n) (\<lambda>xs. sret (x # xs)))"

definition item_ok :: "received \<Rightarrow> bool" where
  "item_ok x = (case x of RJson v \<Rightarrow> wf_json v | _ \<Rightarrow> True)"

definition item_inner :: "received \<Rightarrow> bytes" where
  "item_inner x = (case x of
     RJson v \<Rightarrow> TYPE_JSON # utf8_encode (dumps v)
   | RBinary b \<Rightarrow> TYPE_BINARY # b
   | RRelay b \<Rightarrow> TYPE_RELAY # b
   | RRaw b \<Rightarrow> b)"

lemma parse_inner_item: "item_ok x \<Longrightarrow> (\<forall>b. x \<noteq> RRaw b) \<Longrightarrow> parse_inner (item_inner x) = Inr x"
  by (cases x) (simp_all add: parse_inner_def item_inner_def item_ok_def TYPE_JSON_def TYPE_BINARY_def TYPE_RELAY_def)

lemma send_item_ok:
  assumes "send_item enc ad x t = (Inr u, t')"
  shows "(\<forall>b. x \<noteq> RRaw b) \<and> send_encrypted enc (item_inner x) ad t = (Inr u, t')"
  using assms by (cases x)
    (auto simp: send_item_def item_inner_def send_message_def send_binary_def send_relay_def split: json.splits)

text \<open>Sender and receiver of one direction: same key, and the receiver expects the sender's next
  sequence number.\<close>

definition paired :: "secure_channel \<Rightarrow> secure_channel \<Rightarrow> bool" where
  "paired a b \<longleftrightarrow> ch_send_key a = ch_recv_key b \<and> ch_send_sequence a = ch_expected_recv_sequence b"

lemma delivery:
  "aead_laws enc dec \<Longrightarrow> send_items enc ad xs A = (Inr u, A') \<Longrightarrow> list_all item_ok xs \<Longrightarrow>
   paired (tr_channel A) (tr_channel B) \<Longrightarrow> \<not> tcp_is_closing (tr_tcp B) \<Longrightarrow>
   \<exists>wire. t_out (tr_tcp A') = t_out (tr_tcp A) @ wire \<and>
     (t_in (tr_tcp B) = wire @ rest \<longrightarrow>
       (\<exists>B'. receive_items dec ad (length xs) B = (Inr xs, B') \<and> t_in (tr_tcp B') = rest \<and>
          paired (tr_channel A') (tr_channel B')))"
proof (induction xs arbitrary: A B)
  case (Cons x xs)
  let ?k = "ch_send_key (tr_channel A)" and ?sq = "ch_send_sequence (tr_channel A)"
  from Cons.prems(2) obtain A1 where one: "send_item enc ad x A = (Inr (), A1)"
    and more: "send_items enc ad xs A1 = (Inr u, A')"
    by (auto simp: sbind_eq_Inr)
  from send_item_ok[OF one] have x: "\<forall>b. x \<noteq> RRaw b" and enc: "send_encrypted enc (item_inner x) ad A = (Inr (), A1)"
    by auto
  note sent = send_encrypted_ok[OF enc]
  define B1 where "B1 r = B \<lparr> tr_tcp := (tr_tcp B) \<lparr> t_in := r \<rparr>,
      tr_channel := (tr_channel B) \<lparr> ch_expected_recv_sequence := ch_expected_recv_sequence (tr_channel B) + 1 \<rparr> \<rparr>" for r
  have pair1: "paired (tr_channel A1) (tr_channel (B1 r))" for r
    using sent Cons.prems(4) by (simp add: B1_def paired_def)
  have open1: "\<not> tcp_is_closing (tr_tcp (B1 r))" for r
    using Cons.prems(5) by (simp add: B1_def tcp_is_closing_def)
  from Cons.IH[OF Cons.prems(1) more _ pair1[of "[]"] open1[of "[]"]] Cons.prems(3)
  obtain w where w: "t_out (tr_tcp A') = t_out (tr_tcp A1) @ w"
    by auto
  have "\<exists>B'. receive_items dec ad (length (x # xs)) B = (Inr (x # xs), B') \<and> t_in (tr_tcp B') = rest \<and>
      paired (tr_channel A') (tr_channel B')"
    if inp: "t_in (tr_tcp B) = (sealed enc ?k ?sq (item_inner x) ad @ w) @ rest"
  proof -
    have "receive_frame dec ad B = (Inr x, B1 (w @ rest))"
      using receive_sealed[OF Cons.prems(1) _ _ Cons.prems(5), of ?sq ?k "item_inner x" ad "w @ rest"]
        sent inp Cons.prems(1,3,4) x
      by (simp add: Let_def paired_def aead_inverse parse_inner_item B1_def)
    moreover obtain B' where "receive_items dec ad (length xs) (B1 (w @ rest)) = (Inr xs, B')"
      "t_in (tr_tcp B') = rest" "paired (tr_channel A') (tr_channel B')"
      using Cons.IH[OF Cons.prems(1) more _ pair1[of "w @ rest"] open1[of "w @ rest"]] Cons.prems(3) w
      by (auto simp: B1_def)
    ultimately show ?thesis
      by (auto simp: sbind_eq_Inr)
  qed
  then show ?case
    using sent w by (intro exI[of _ "sealed enc ?k ?sq (item_inner x) ad @ w"]) simp
qed simp

text \<open>
  (C20) Whatever sequence of JSON messages, file chunks and relay chunks one side sends successfully,
  the other side, holding the matching key and expecting the sender's next sequence number, receives
  exactly that sequence in that order from the bytes written, and the two stay in step.
\<close>

theorem channel_delivers_in_order:
  assumes "aead_laws enc dec" and "send_items enc ad xs A = (Inr u, A')" and "list_all item_ok xs"
    and "paired (tr_channel A) (tr_channel B)" and "\<not> tcp_is_closing (tr_tcp B)"
    and "t_out (tr_tcp A') = t_out (tr_tcp A) @ wire" and "t_in (tr_tcp B) = wire @ rest"
  shows "\<exists>B'. receive_items dec ad (length xs) B = (Inr xs, B') \<and> t_in (tr_tcp B') = rest \<and>
    paired (tr_channel A') (tr_channel B')"
  using delivery[OF assms(1-5), of rest] assms(6,7) by auto

lemma send_encrypted_sends:
  assumes "\<not> tcp_is_closing (tr_tcp t)" "\<not> t_lost (tr_tcp t)"
    and "0 \<le> ch_send_sequence (tr_channel t)" "ch_send_sequence (tr_channel t) < 256 ^ 8"
    and "length (wire_payload enc (ch_send_key (tr_channel t)) (ch_send_sequence (tr_channel t)) inner ad) \<le> MAX_MESSAGE_SIZE"
  shows "send_encrypted enc inner ad t =
    (Inr (), t \<lparr> tr_channel := (tr_channel t) \<lparr> ch_send_sequence := ch_send_sequence (tr_channel t) + 1 \<rparr>,
             tr_tcp := (tr_tcp t) \<lparr> t_out := t_out (tr_tcp t) @
               sealed enc (ch_send_key (tr_channel t)) (ch_send_sequence (tr_channel t)) inner ad \<rparr> \<rparr>)"
proof -
  let ?w = "wire_payload enc (ch_send_key (tr_channel t)) (ch_send_sequence (tr_channel t)) inner ad"
  have "encode_binary_frame ?w = Inr (header_of True (length ?w) @ ?w)"
    using assms(5) by (simp add: encode_binary_frame_eq)
  then show ?thesis
    using assms(1-4)
    by (simp add: send_encrypted_def on_channel_def channel_encrypt_def construct_nonce_small SEQUENCE_SIZE_def
        pack_uint_def sbind_def on_tcp_def tcp_write_binary_frame_def tcp_write_def write_binary_frame_def
        wire_payload_def sealed_def tcp_is_closing_def)
qed

definition demo_transport :: "bytes \<Rightarrow> transport" where
  "demo_transport input =
    \<lparr> tr_tcp = \<lparr> t_closed = False, t_writer_closing = False, t_in = input, t_out = [], t_lost = False \<rparr>,
      tr_channel = \<lparr> ch_send_key = replicate 32 1, ch_recv_key = replicate 32 1,
                     ch_send_sequence = 0, ch_expected_recv_sequence = 0 \<rparr> \<rparr>"

lemma demo_size: "length inner \<le> 100 \<Longrightarrow> length (wire_payload demo_enc k sq inner ad) \<le> MAX_MESSAGE_SIZE"
  by (simp add: wire_payload_length[OF demo_aead] MAX_MESSAGE_SIZE_def)

theorem channel_delivers_in_order_witness:
  "\<exists>B'. receive_items demo_dec [] 2 (demo_transport
      (sealed demo_enc (replicate 32 1) 0 (item_inner (RBinary [7])) [] @
       sealed demo_enc (replicate 32 1) 1 (item_inner (RJson (JDict []))) [] @ [9])) =
     (Inr [RBinary [7], RJson (JDict [])], B') \<and> t_in (tr_tcp B') = [9]"
proof -
  have len: "length (item_inner (RBinary [7])) \<le> 100" "length (item_inner (RJson (JDict []))) \<le> 100"
    by (simp_all add: item_inner_def utf8_encode_def utf8_char_def)
  have "\<exists>A'. send_items demo_enc [] [RBinary [7], RJson (JDict [])] (demo_transport []) = (Inr (), A') \<and>
      t_out (tr_tcp A') = t_out (tr_tcp (demo_transport [])) @
       (sealed demo_enc (replicate 32 1) 0 (item_inner (RBinary [7])) [] @
        sealed demo_enc (replicate 32 1) 1 (item_inner (RJson (JDict []))) [])"
    using demo_size[OF len(1)] demo_size[OF len(2)]
    by (simp add: sbind_def send_item_def send_binary_def send_message_def send_encrypted_sends item_inner_def
        demo_transport_def tcp_is_closing_def)
  then show ?thesis
    using channel_delivers_in_order[OF demo_aead, of "[]" "[RBinary [7], RJson (JDict [])]" "demo_transport []" "()" _
        "demo_transport (sealed demo_enc (replicate 32 1) 0 (item_inner (RBinary [7])) [] @
           sealed demo_enc (replicate 32 1) 1 (item_inner (RJson (JDict []))) [] @ [9])" _ "[9]"]
    by (fastforce simp: item_ok_def paired_def demo_transport_def tcp_is_closing_def numeral_2_eq_2)
qed

lemma channel_decrypt_ok:
  "channel_decrypt dec sq c ad ch = (Inr p, ch') \<Longrightarrow>
   sq = ch_expected_recv_sequence ch \<and> 0 \<le> sq \<and>
   dec (ch_recv_key ch) (be_bytes 12 (nat sq)) c (ad_or_none ad) = Some p \<and>
   ch' = ch \<lparr> ch_expected_recv_sequence := sq + 1 \<rparr>"
  by (auto simp: channel_decrypt_def construct_nonce_def NONCE_LEN_def split: if_splits option.splits)

lemma receive_frame_ok:
  assumes "receive_frame dec ad B = (Inr r, B')"
  shows "\<exists>w s p ch'. read_any_frame (t_in (tr_tcp B)) = (Inr (BinaryFrame w), s) \<and> 24 \<le> length w \<and>
    channel_decrypt dec (int (be_nat (take 8 w))) (drop 8 w) ad (tr_channel B) = (Inr p, ch') \<and>
    parse_inner p = Inr r \<and> B' = B \<lparr> tr_tcp := (tr_tcp B) \<lparr> t_in := s \<rparr>, tr_channel := ch' \<rparr>"
proof -
  from assms obtain w s where rd: "read_any_frame (t_in (tr_tcp B)) = (Inr (BinaryFrame w), s)"
    and w: "24 \<le> length w"
    and dc: "sbind (on_channel (channel_decrypt dec (int (be_nat (take 8 w))) (drop 8 w) ad))
      (\<lambda>p. slift (parse_inner p)) (B \<lparr> tr_tcp := (tr_tcp B) \<lparr> t_in := s \<rparr> \<rparr>) = (Inr r, B')"
    by (auto simp: receive_frame_def sbind_eq_Inr on_tcp_def tcp_read_frame_def channel_consts
        split: if_splits prod.splits sum.splits frame.splits)
  then show ?thesis
    by (auto simp: sbind_eq_Inr on_channel_def split: prod.splits)
qed

text \<open>
  (C21) A frame is accepted only if it carries the next expected sequence number and the one
  ciphertext that the AEAD produces for its plaintext under the receive key and that number as
  nonce; accepting it moves the expected number by exactly one.
\<close>

theorem accepted_frame_is_next:
  assumes "aead_laws enc dec" and "receive_frame dec ad B = (Inr r, B')"
  shows "\<exists>header p. length header = 4 \<and> parse_inner p = Inr r \<and>
    ch_expected_recv_sequence (tr_channel B) < 256 ^ 8 \<and>
    t_in (tr_tcp B) = header @ wire_payload enc (ch_recv_key (tr_channel B))
        (ch_expected_recv_sequence (tr_channel B)) p ad @ t_in (tr_tcp B') \<and>
    ch_expected_recv_sequence (tr_channel B') = ch_expected_recv_sequence (tr_channel B) + 1"
proof -
  let ?ch = "tr_channel B"
  from receive_frame_ok[OF assms(2)] obtain w s p ch' where
    rd: "read_any_frame (t_in (tr_tcp B)) = (Inr (BinaryFrame w), s)" and w: "24 \<le> length w"
    and dc: "channel_decrypt dec (int (be_nat (take 8 w))) (drop 8 w) ad ?ch = (Inr p, ch')"
    and r: "parse_inner p = Inr r" and B1: "B' = B \<lparr> tr_tcp := (tr_tcp B) \<lparr> t_in := s \<rparr>, tr_channel := ch' \<rparr>"
    by blast
  from channel_decrypt_ok[OF dc] have sq: "int (be_nat (take 8 w)) = ch_expected_recv_sequence ?ch"
    by simp
  from channel_decrypt_ok[OF dc, unfolded sq]
  have d: "dec (ch_recv_key ?ch) (be_bytes 12 (nat (ch_expected_recv_sequence ?ch))) (drop 8 w) (ad_or_none ad) = Some p"
    and B': "t_in (tr_tcp B') = s" "ch_expected_recv_sequence (tr_channel B') = ch_expected_recv_sequence ?ch + 1"
    using B1 by auto
  have nat_sq: "nat (ch_expected_recv_sequence ?ch) = be_nat (take 8 w)"
    using sq by simp
  have bound: "be_nat (take 8 w) < 256 ^ 8"
    using be_nat_less[of "take 8 w"] w by simp
  have seq8: "be_bytes 8 (be_nat (take 8 w)) = take 8 w"
    using be_bytes_be_nat[of "take 8 w"] w by simp
  have "w = take 8 w @ drop 8 w"
    by simp
  then have wp: "w = wire_payload enc (ch_recv_key ?ch) (ch_expected_recv_sequence ?ch) p ad"
    using aead_unique[OF assms(1) d] seq8 unfolding wire_payload_def nat_sq by simp
  from rd obtain b where "read_raw (t_in (tr_tcp B)) = (Inr (b, w), s)"
    by (auto simp: read_any_frame_def sbind_eq_Inr rbind_eq_Inr split: if_splits)
  from read_raw_parts[OF this] obtain header where "length header = 4" "t_in (tr_tcp B) = header @ w @ s"
    by (auto simp: LENGTH_PREFIX_SIZE_def)
  then show ?thesis
    using wp r B' sq bound by (metis of_nat_less_iff of_nat_numeral of_nat_power)
qed

theorem accepted_frame_is_next_witness:
  "\<exists>header p. length header = 4 \<and> parse_inner p = Inr (RBinary [7]) \<and> (0 :: int) < 256 ^ 8 \<and>
     sealed demo_enc (replicate 32 1) 0 (TYPE_BINARY # [7]) [] =
       header @ wire_payload demo_enc (replicate 32 1) 0 p [] @ []"
proof -
  let ?B = "demo_transport (sealed demo_enc (replicate 32 1) 0 (TYPE_BINARY # [7]) [])"
  have "receive_frame demo_dec [] ?B = (Inr (RBinary [7]), ?B \<lparr> tr_tcp := (tr_tcp ?B) \<lparr> t_in := [] \<rparr>,
      tr_channel := (tr_channel ?B) \<lparr> ch_expected_recv_sequence := 1 \<rparr> \<rparr>)"
    using receive_sealed[OF demo_aead, of 0 ?B "replicate 32 1" "TYPE_BINARY # [7]" "[]" "[]"]
      demo_size[of "TYPE_BINARY # [7]" "replicate 32 1" 0 "[]"]
    by (simp add: demo_transport_def tcp_is_closing_def aead_inverse[OF demo_aead] parse_inner_def
        TYPE_JSON_def TYPE_BINARY_def)
  from accepted_frame_is_next[OF demo_aead this] show ?thesis
    by (simp add: demo_transport_def)
qed

lemma expected_mono:
  "receive_frame dec ad B = (Inr r, B') \<Longrightarrow>
   ch_expected_recv_sequence (tr_channel B') = ch_expected_recv_sequence (tr_channel B) + 1 \<and>
   ch_recv_key (tr_channel B') = ch_recv_key (tr_channel B)"
  by (auto dest!: receive_frame_ok channel_decrypt_ok)

lemma expected_after_n:
  "receive_items dec ad n B = (Inr xs, C) \<Longrightarrow>
   ch_expected_recv_sequence (tr_channel C) = ch_expected_recv_sequence (tr_channel B) + int n"
proof (induction n arbitrary: B xs)
  case (Suc n)
  then obtain x B1 ys where "receive_frame dec ad B = (Inr x, B1)" "receive_items dec ad n B1 = (Inr ys, C)"
    by (auto simp: sbind_eq_Inr)
  then show ?case
    using Suc.IH[of B1 ys] expected_mono by fastforce
qed simp

text \<open>
  (C22) No replay: once a sealed frame was accepted, presenting the same bytes again after any number
  of further accepted frames is refused as a replay and leaves the channel state unchanged.
\<close>

theorem replayed_frame_refused:
  assumes "aead_laws enc dec" and "0 \<le> sq" and "sq < 256 ^ 8"
    and "length (wire_payload enc k sq inner ad) \<le> MAX_MESSAGE_SIZE"
    and "t_in (tr_tcp B) = sealed enc k sq inner ad @ rest" and "\<not> tcp_is_closing (tr_tcp B)"
    and "receive_frame dec ad B = (Inr r, B1)"
    and "receive_items dec ad n B1 = (Inr xs, C)"
    and "t_in (tr_tcp C) = sealed enc k sq inner ad @ rest'" and "\<not> tcp_is_closing (tr_tcp C)"
  shows "receive_frame dec ad C =
    (Inl (Wire ReplayOrReorderError), C \<lparr> tr_tcp := (tr_tcp C) \<lparr> t_in := rest' \<rparr> \<rparr>)"
proof -
  have "sq = ch_expected_recv_sequence (tr_channel B)"
    using assms(7) unfolding receive_sealed[OF assms(1-3,6,5,4)] by (auto simp: Let_def split: if_splits)
  moreover have "ch_expected_recv_sequence (tr_channel C) = ch_expected_recv_sequence (tr_channel B) + 1 + int n"
    using expected_mono[OF assms(7)] expected_after_n[OF assms(8)] by simp
  ultimately show ?thesis
    using receive_sealed[OF assms(1-3,10,9,4)] by (simp add: Let_def)
qed

theorem replayed_frame_refused_witness:
  "let f = sealed demo_enc (replicate 32 1) 0 (TYPE_BINARY # [7]) []; B = demo_transport (f @ f @ [1]) in
   \<exists>C. receive_frame demo_dec [] B = (Inr (RBinary [7]), C) \<and>
     fst (receive_frame demo_dec [] C) = Inl (Wire ReplayOrReorderError)"
proof -
  let ?f = "sealed demo_enc (replicate 32 1) 0 (TYPE_BINARY # [7]) []"
  let ?B = "demo_transport (?f @ ?f @ [1])"
  let ?C = "?B \<lparr> tr_tcp := (tr_tcp ?B) \<lparr> t_in := ?f @ [1] \<rparr>,
      tr_channel := (tr_channel ?B) \<lparr> ch_expected_recv_sequence := 1 \<rparr> \<rparr>"
  note size = demo_size[of "TYPE_BINARY # [7]" "replicate 32 1" 0 "[]"]
  have one: "receive_frame demo_dec [] ?B = (Inr (RBinary [7]), ?C)"
    using receive_sealed[OF demo_aead, of 0 ?B "replicate 32 1" "TYPE_BINARY # [7]" "[]" "?f @ [1]"] size
    by (simp add: demo_transport_def tcp_is_closing_def aead_inverse[OF demo_aead] parse_inner_def
        TYPE_JSON_def TYPE_BINARY_def)
  have "receive_frame demo_dec [] ?C =
      (Inl (Wire ReplayOrReorderError), ?C \<lparr> tr_tcp := (tr_tcp ?C) \<lparr> t_in := [1] \<rparr> \<rparr>)"
    by (rule replayed_frame_refused[OF demo_aead _ _ size _ _ one, where n = 0])
      (simp_all add: demo_transport_def tcp_is_closing_def)
  with one show ?thesis
    by (simp add: Let_def)
qed

fun encrypt_all :: "aead_enc \<Rightarrow> bytes \<Rightarrow> bytes list \<Rightarrow> (secure_channel, encrypted_frame list) op" where
  "encrypt_all enc ad [] = sret []"
| "encrypt_all enc ad (p # ps) =
     sbind (channel_encrypt enc p ad) (\<lambda>f. sbind (encrypt_all enc ad ps) (\<lambda>fs. sret (f # fs)))"

lemma encrypt_all_frames:
  "encrypt_all enc ad ps ch = (Inr fs, ch') \<Longrightarrow>
   map ef_sequence fs = map (\<lambda>i. ch_send_sequence ch + int i) [0..<length ps] \<and>
   list_all2 (\<lambda>f p. 0 \<le> ef_sequence f \<and> ef_sequence f \<le> MAX_SEQUENCE \<and>
     ef_ciphertext f = enc (ch_send_key ch) (be_bytes NONCE_LEN (nat (ef_sequence f))) p (ad_or_none ad)) fs ps"
proof (induction ps arbitrary: ch fs)
  case (Cons p ps)
  then obtain f ch1 fs1 where f: "channel_encrypt enc p ad ch = (Inr f, ch1)"
    and fs: "encrypt_all enc ad ps ch1 = (Inr fs1, ch')" "fs = f # fs1"
    by (auto simp: sbind_eq_Inr)
  then have "ch_send_sequence ch1 = ch_send_sequence ch + 1" "ch_send_key ch1 = ch_send_key ch"
    "ef_sequence f = ch_send_sequence ch" "0 \<le> ef_sequence f" "ef_sequence f \<le> MAX_SEQUENCE"
    "ef_ciphertext f = enc (ch_send_key ch) (be_bytes NONCE_LEN (nat (ef_sequence f))) p (ad_or_none ad)"
    by (auto simp: channel_encrypt_def construct_nonce_def split: sum.splits if_splits)
  moreover have "[0..<Suc (length ps)] = 0 # map Suc [0..<length ps]"
    by (simp add: upt_conv_Cons map_Suc_upt del: upt_Suc)
  ultimately show ?case
    using Cons.IH[OF fs(1)] fs(2) by (simp add: o_def add.assoc add.commute[of 1] del: upt_Suc)
qed simp

text \<open>
  (C23) A channel never reuses a nonce under its key: the frames of any number of encryptions have
  consecutive sequence numbers, each is encrypted under the nonce of its own number, and those
  nonces are pairwise different.
\<close>

theorem nonces_never_repeat:
  assumes "encrypt_all enc ad ps ch = (Inr fs, ch')"
  shows "distinct (map (\<lambda>f. be_bytes NONCE_LEN (nat (ef_sequence f))) fs) \<and>
    list_all2 (\<lambda>f p. ef_ciphertext f =
      enc (ch_send_key ch) (be_bytes NONCE_LEN (nat (ef_sequence f))) p (ad_or_none ad)) fs ps \<and>
    map ef_sequence fs = map (\<lambda>i. ch_send_sequence ch + int i) [0..<length ps]"
proof -
  note facts = encrypt_all_frames[OF assms]
  then have range: "\<forall>f\<in>set fs. 0 \<le> ef_sequence f \<and> ef_sequence f \<le> MAX_SEQUENCE"
    by (metis (no_types, lifting) in_set_conv_nth list_all2_conv_all_nth)
  have dist: "distinct (map ef_sequence fs)"
    using facts by (simp add: distinct_map inj_on_def)
  have "inj_on (\<lambda>q. be_bytes NONCE_LEN (nat q)) (set (map ef_sequence fs))"
  proof (rule inj_onI)
    fix a b
    assume ab: "a \<in> set (map ef_sequence fs)" "b \<in> set (map ef_sequence fs)"
      and eq: "be_bytes NONCE_LEN (nat a) = be_bytes NONCE_LEN (nat b)"
    then have lt: "0 \<le> a" "0 \<le> b" "a < 256 ^ 12" "b < 256 ^ 12"
      using range by (auto simp: MAX_SEQUENCE_def NONCE_LEN_def)
    then have "nat a < 256 ^ 12" "nat b < 256 ^ 12"
      by (simp_all add: nat_less_iff)
    then have "nat a = nat b"
      using eq be_bytes_inject[of "nat a" 12 "nat b"] by (simp add: NONCE_LEN_def)
    with lt show "a = b"
      by simp
  qed
  then have "distinct (map (\<lambda>q. be_bytes NONCE_LEN (nat q)) (map ef_sequence fs))"
    using dist by (simp add: distinct_map comp_inj_on)
  then have "distinct (map (\<lambda>f. be_bytes NONCE_LEN (nat (ef_sequence f))) fs)"
    by (simp only: map_map o_def)
  moreover have "list_all2 (\<lambda>f p. ef_ciphertext f =
      enc (ch_send_key ch) (be_bytes NONCE_LEN (nat (ef_sequence f))) p (ad_or_none ad)) fs ps"
    using facts by (elim conjE) (erule list_all2_mono, simp)
  ultimately show ?thesis
    using facts by blast
qed

theorem nonces_never_repeat_witness:
  "\<exists>fs ch'. encrypt_all demo_enc [] [[1], [1]] (tr_channel (demo_transport [])) = (Inr fs, ch') \<and>
     distinct (map (\<lambda>f. be_bytes NONCE_LEN (nat (ef_sequence f))) fs) \<and> map ef_sequence fs = [0, 1]"
proof -
  have "\<exists>fs ch'. encrypt_all demo_enc [] [[1], [1]] (tr_channel (demo_transport [])) = (Inr fs, ch')"
    by (simp add: sbind_def channel_encrypt_def construct_nonce_def channel_consts demo_transport_def)
  then obtain fs ch' where run: "encrypt_all demo_enc [] [[1], [1]] (tr_channel (demo_transport [])) = (Inr fs, ch')"
    by blast
  have "map (\<lambda>i. ch_send_sequence (tr_channel (demo_transport [])) + int i) [0..<length [[1], [1 :: byte]]] = [0, 1]"
    by (simp add: demo_transport_def)
  with nonces_never_repeat[OF run] run show ?thesis
    by metis
qed

text \<open>
  (C24) Both ends of a handshake derive matching keys from the same secret and transcript: whatever
  the initiator sends under is what the responder receives under and conversely, the session
  identifiers agree, and fresh channels on these keys are paired in both directions.
\<close>

theorem derived_channels_are_paired:
  assumes "derive_session_keys hkdf secret salt True = Inr ki"
    and "derive_session_keys hkdf secret salt False = Inr kr"
    and "new_channel ki = Inr ci" and "new_channel kr = Inr cr"
  shows "paired ci cr \<and> paired cr ci \<and> session_id ki = session_id kr \<and>
    length (ch_send_key ci) = KEY_LEN \<and> length (ch_recv_key ci) = KEY_LEN"
  using assms by (auto simp: derive_session_keys_def new_channel_def paired_def split: if_splits option.splits)

definition demo_hkdf :: hkdf where
  "demo_hkdf ikm salt info n = Some (be_bytes n (be_nat info))"

theorem derived_channels_are_paired_witness:
  "\<exists>ki kr ci cr. derive_session_keys demo_hkdf (replicate 32 1) (replicate 32 2) True = Inr ki \<and>
     derive_session_keys demo_hkdf (replicate 32 1) (replicate 32 2) False = Inr kr \<and>
     new_channel ki = Inr ci \<and> new_channel kr = Inr cr \<and> paired ci cr \<and> paired cr ci"
proof -
  have "\<exists>ki kr ci cr. derive_session_keys demo_hkdf (replicate 32 1) (replicate 32 2) True = Inr ki \<and>
     derive_session_keys demo_hkdf (replicate 32 1) (replicate 32 2) False = Inr kr \<and>
     new_channel ki = Inr ci \<and> new_channel kr = Inr cr"
    by (simp add: derive_session_keys_def demo_hkdf_def new_channel_def)
  then show ?thesis
    using derived_channels_are_paired by blast
qed

text \<open>
  (C33) The sequence header of a frame has 8 bytes while the channel counts in 12: at sequence
  number 2^64 the send raises \<open>struct.error\<close> instead of the transport error that every other failure
  of \<open>_send_encrypted\<close> is turned into, and the number is consumed although nothing was written.
\<close>

theorem sequence_header_overflow:
  assumes "ch_send_sequence (tr_channel t) = 2 ^ 64"
  shows "send_encrypted enc inner ad t =
    (Inl (Py StructError), t \<lparr> tr_channel := (tr_channel t) \<lparr> ch_send_sequence := 2 ^ 64 + 1 \<rparr> \<rparr>)"
  using assms by (simp add: send_encrypted_def on_channel_def channel_encrypt_def construct_nonce_def
      channel_consts pack_uint_def sbind_def)

theorem sequence_header_overflow_witness:
  "fst (send_encrypted demo_enc [1] [] ((demo_transport []) \<lparr> tr_channel :=
     (tr_channel (demo_transport [])) \<lparr> ch_send_sequence := 2 ^ 64 \<rparr> \<rparr>)) = Inl (Py StructError)"
  using sequence_header_overflow[of "(demo_transport []) \<lparr> tr_channel :=
     (tr_channel (demo_transport [])) \<lparr> ch_send_sequence := 2 ^ 64 \<rparr> \<rparr>" demo_enc "[1]" "[]"] by simp

text \<open>
  (C34) A message too large for one frame is refused only after its sequence number was consumed: the
  transport stays open, but the receiver then refuses every later frame of the session as out of
  order.
\<close>

theorem oversized_send_desynchronises:
  assumes "aead_laws enc dec" and "paired (tr_channel A) (tr_channel B)"
    and "0 \<le> ch_send_sequence (tr_channel A)" and "ch_send_sequence (tr_channel A) + 1 < 256 ^ 8"
    and "\<not> tcp_is_closing (tr_tcp A)" and "length inner + 24 > MAX_MESSAGE_SIZE"
    and "send_encrypted enc inner ad A = (r, A1)"
    and "send_item enc ad x A1 = (Inr u, A2)"
    and "t_out (tr_tcp A2) = t_out (tr_tcp A) @ wire" and "t_in (tr_tcp B) = wire @ rest"
    and "\<not> tcp_is_closing (tr_tcp B)"
  shows "r = Inl (Wire TransportError) \<and> \<not> tcp_is_closing (tr_tcp A1) \<and>
    receive_frame dec ad B =
      (Inl (Wire ReplayOrReorderError), B \<lparr> tr_tcp := (tr_tcp B) \<lparr> t_in := rest \<rparr> \<rparr>)"
proof -
  let ?sq = "ch_send_sequence (tr_channel A)" and ?k = "ch_send_key (tr_channel A)"
  have big: "\<not> length (wire_payload enc ?k ?sq inner ad) \<le> MAX_MESSAGE_SIZE"
    using assms(6) wire_payload_length[OF assms(1)] by simp
  then have err: "encode_binary_frame (be_bytes 8 (nat ?sq) @ enc ?k (be_bytes 12 (nat ?sq)) inner (ad_or_none ad)) =
      Inl (Wire ProtocolError)"
    by (simp add: encode_binary_frame_def wire_payload_def)
  have A1: "r = Inl (Wire TransportError)"
    "A1 = A \<lparr> tr_channel := (tr_channel A) \<lparr> ch_send_sequence := ?sq + 1 \<rparr> \<rparr>"
    using assms(3,4,5,7) err
    by (auto simp: send_encrypted_def on_channel_def channel_encrypt_def construct_nonce_small SEQUENCE_SIZE_def
        pack_uint_def sbind_def on_tcp_def tcp_write_binary_frame_def tcp_write_def write_binary_frame_def)
  from send_item_ok[OF assms(8)] have "send_encrypted enc (item_inner x) ad A1 = (Inr u, A2)"
    by simp
  note sent = send_encrypted_ok[OF this]
  then have "t_in (tr_tcp B) = sealed enc ?k (?sq + 1) (item_inner x) ad @ rest"
    using assms(9,10) A1(2) by simp
  moreover have "ch_expected_recv_sequence (tr_channel B) = ?sq"
    using assms(2) by (simp add: paired_def)
  ultimately show ?thesis
    using receive_sealed[OF assms(1) _ _ assms(11), of "?sq + 1" ?k "item_inner x" ad rest] sent assms(3,4,5) A1
    by (simp add: Let_def)
qed

theorem oversized_send_desynchronises_witness:
  "\<exists>A1 A2 wire. send_encrypted demo_enc (replicate MAX_MESSAGE_SIZE 0) [] (demo_transport []) =
      (Inl (Wire TransportError), A1) \<and>
    send_item demo_enc [] (RBinary [7]) A1 = (Inr (), A2) \<and> t_out (tr_tcp A2) = wire \<and>
    fst (receive_frame demo_dec [] (demo_transport wire)) = Inl (Wire ReplayOrReorderError)"
proof -
  let ?A = "demo_transport []" and ?big = "replicate MAX_MESSAGE_SIZE (0 :: byte)"
  have "encode_binary_frame (be_bytes 8 0 @ demo_enc (replicate 32 1) (be_bytes 12 0) ?big None) = Inl (Wire ProtocolError)"
    using aead_length[OF demo_aead, of "replicate 32 1" "be_bytes 12 0" ?big None]
    by (simp add: encode_binary_frame_def)
  then have one: "send_encrypted demo_enc ?big [] ?A = (Inl (Wire TransportError),
      ?A \<lparr> tr_channel := (tr_channel ?A) \<lparr> ch_send_sequence := 1 \<rparr> \<rparr>)"
    by (simp add: send_encrypted_def on_channel_def channel_encrypt_def construct_nonce_small SEQUENCE_SIZE_def
        pack_uint_def sbind_def on_tcp_def tcp_write_binary_frame_def tcp_write_def write_binary_frame_def
        demo_transport_def tcp_is_closing_def ad_or_none_def)
  let ?A1 = "?A \<lparr> tr_channel := (tr_channel ?A) \<lparr> ch_send_sequence := 1 \<rparr> \<rparr>"
  have "\<exists>A2. send_item demo_enc [] (RBinary [7]) ?A1 = (Inr (), A2)"
    using demo_size[of "TYPE_BINARY # [7]" "replicate 32 1" 1 "[]"]
    by (simp add: send_item_def send_binary_def send_encrypted_sends demo_transport_def tcp_is_closing_def)
  then obtain A2 where two: "send_item demo_enc [] (RBinary [7]) ?A1 = (Inr (), A2)"
    by blast
  have "receive_frame demo_dec [] (demo_transport (t_out (tr_tcp A2))) = (Inl (Wire ReplayOrReorderError),
      (demo_transport (t_out (tr_tcp A2))) \<lparr> tr_tcp := (tr_tcp (demo_transport (t_out (tr_tcp A2)))) \<lparr> t_in := [] \<rparr> \<rparr>)"
    using oversized_send_desynchronises[OF demo_aead _ _ _ _ _ one two,
        of "demo_transport (t_out (tr_tcp A2))" "t_out (tr_tcp A2)" "[]"]
    by (simp add: demo_transport_def paired_def tcp_is_closing_def)
  with one two show ?thesis
    by auto
qed

text \<open>
  (C35) After the peer closed the stream, closing the connection does not close the socket: the reader
  marks the connection closed on end of file, and \<open>close()\<close> then returns before it reaches the writer.
\<close>

theorem close_after_eof_keeps_writer_open:
  assumes "\<not> tcp_is_closing t" and "length (t_in t) < 4"
  shows "\<exists>t1. tcp_read_frame t = (Inl (Wire ConnectionClosedError), t1) \<and> \<not> t_writer_closing (tcp_close t1)"
  using assms by (simp add: tcp_read_frame_def read_any_frame_def sbind_def read_raw_short tcp_close_def tcp_is_closing_def)

theorem close_after_eof_keeps_writer_open_witness:
  "\<exists>t1. tcp_read_frame (tr_tcp (demo_transport [])) = (Inl (Wire ConnectionClosedError), t1) \<and>
     \<not> t_writer_closing (tcp_close t1)"
  by (rule close_after_eof_keeps_writer_open) (simp_all add: demo_transport_def tcp_is_closing_def)

end
