(* ===== verification/Handshake.thy ===== *)
theory Handshake
  imports Messages Trust Channel
begin

text \<open>
  Model of src/core/crypto/handshake.py and key_exchange.py: the three-message mutually
  authenticated key exchange, both roles, with its replay cache, transcripts and trust checks.
  X25519 is a parameter, as Ed25519 is. Each role is split where it waits for the peer's next
  message; the state it runs in has the stream still to be read, the bytes written, the nonce cache and
  the trust store. The clock is a function from the number of the reading to its value, and
  \<open>timely\<close> says whether the peer's message comes before the timeout.
\<close>

section \<open>Key exchange\<close>

record x25519 =
  x_public :: "bytes \<Rightarrow> bytes"
  x_exchange :: "bytes \<Rightarrow> bytes \<Rightarrow> bytes option"

definition x_laws :: "x25519 \<Rightarrow> bool" where
  "x_laws x \<longleftrightarrow> (\<forall>a. length (x_public x a) = 32) \<and>
     (\<forall>a b. x_exchange x a (x_public x b) = x_exchange x b (x_public x a) \<and> x_exchange x a (x_public x b) \<noteq> None)"

definition X25519_KEY_SIZE :: nat where "X25519_KEY_SIZE = 32"

definition ephemeral_public_from_bytes :: "bytes \<Rightarrow> bytes result" where
  "ephemeral_public_from_bytes data =
    (if length data \<noteq> X25519_KEY_SIZE then Inl (Py ValueError) else Inr data)"

definition ephemeral_public_from_hex :: "string \<Rightarrow> bytes result" where
  "ephemeral_public_from_hex hex =
    (case bytes_fromhex hex of None \<Rightarrow> Inl (Py ValueError) | Some raw \<Rightarrow> ephemeral_public_from_bytes raw)"

definition compute_shared_secret :: "x25519 \<Rightarrow> bytes \<Rightarrow> bytes \<Rightarrow> bytes result" where
  "compute_shared_secret x sk pk = (case x_exchange x sk pk of None \<Rightarrow> Inl (Py ValueError) | Some z \<Rightarrow> Inr z)"

section \<open>Replay cache\<close>

definition MAX_PEER_NAME_LENGTH :: nat where "MAX_PEER_NAME_LENGTH = 64"

record nonce_cache =
  nc_ttl :: time
  nc_seen :: "(string, time) dict"

definition check_and_add :: "time \<Rightarrow> string \<Rightarrow> nonce_cache \<Rightarrow> bool \<times> nonce_cache" where
  "check_and_add now nonce cache =
    (let live = [(k, t) \<leftarrow> nc_seen cache. \<not> (now - t > nc_ttl cache)]
     in if dict_get live nonce \<noteq> None then (False, cache\<lparr> nc_seen := live \<rparr>)
        else (True, cache\<lparr> nc_seen := dict_set nonce now live \<rparr>))"

section \<open>Transcripts\<close>

definition item :: "(string \<times> json) list \<Rightarrow> string \<Rightarrow> json result" where
  "item d f = (case dict_get d f of None \<Rightarrow> Inl (Py KeyError) | Some v \<Rightarrow> Inr v)"

definition str_item :: "(string \<times> json) list \<Rightarrow> string \<Rightarrow> string result" where
  "str_item d f = (case dict_get d f of
     None \<Rightarrow> Inl (Py KeyError) | Some (JStr s) \<Rightarrow> Inr s | Some _ \<Rightarrow> Inl (Py TypeError))"

definition ascii_encode :: "string \<Rightarrow> bytes result" where
  "ascii_encode s = (if list_all (\<lambda>c. (of_char c :: nat) < 128) s then Inr (utf8_encode s) else Inl (Py ValueError))"

definition signed_fields :: "(string \<times> json) list \<Rightarrow> bytes result" where
  "signed_fields m =
    rbind (item m ''type'') (\<lambda>t. rbind (item m ''device_id'') (\<lambda>i. rbind (item m ''public_key'') (\<lambda>k.
    rbind (item m ''ephemeral_key'') (\<lambda>e. rbind (item m ''nonce'') (\<lambda>n. rbind (item m ''sender_name'') (\<lambda>s.
      Inr (canonical_json_bytes (JDict [(''type'', t), (''device_id'', i), (''public_key'', k),
        (''ephemeral_key'', e), (''nonce'', n), (''sender_name'', s)]))))))))"

definition compute_responder_transcript :: "(string \<times> json) list \<Rightarrow> (string \<times> json) list \<Rightarrow> bytes result" where
  "compute_responder_transcript init_msg resp_msg =
    rbind (signed_fields init_msg) (\<lambda>init_bytes. rbind (signed_fields resp_msg) (\<lambda>resp_bytes.
      Inr (utf8_encode ''peerc-v2-handshake-responder'' @ [10] @ init_bytes @ [10] @ resp_bytes)))"

definition compute_initiator_transcript :: "bytes \<Rightarrow> string \<Rightarrow> bytes result" where
  "compute_initiator_transcript responder_transcript responder_signature_hex =
    rbind (ascii_encode responder_signature_hex) (\<lambda>sig.
      Inr (utf8_encode ''peerc-v2-handshake-initiator'' @ [10] @ responder_transcript @ [10] @ sig))"

definition compute_final_transcript_hash :: "bytes \<Rightarrow> string \<Rightarrow> bytes result" where
  "compute_final_transcript_hash initiator_transcript initiator_signature_hex =
    rbind (ascii_encode initiator_signature_hex) (\<lambda>sig. Inr (sha256 (initiator_transcript @ [10] @ sig)))"

section \<open>Identity and trust checks\<close>

definition verify_device_identity :: "string \<Rightarrow> string \<Rightarrow> bytes result" where
  "verify_device_identity device_id public_key_hex =
    (case bytes_fromhex public_key_hex of
       None \<Rightarrow> Inl (Hs IdentityVerificationError)
     | Some pub_bytes \<Rightarrow>
         if compute_device_id pub_bytes \<noteq> device_id then Inl (Hs IdentityVerificationError) else Inr pub_bytes)"

record hs_state =
  hs_in :: bytes
  hs_out :: bytes
  hs_cache :: nonce_cache
  hs_trust :: "trust_store option"

definition on_trust :: "trust_store \<Rightarrow> (trust_store, 'a) op \<Rightarrow> (hs_state, 'a) op" where
  "on_trust ts m s = (case m ts of (r, ts') \<Rightarrow> (r, s\<lparr> hs_trust := Some ts' \<rparr>))"

definition check_trust :: "string \<Rightarrow> string \<Rightarrow> (hs_state, trust_decision) op" where
  "check_trust device_id public_key_hex s =
    (case hs_trust s of
       None \<Rightarrow> (Inr D_UNKNOWN, s)
     | Some ts \<Rightarrow> sbind (on_trust ts (ts_check device_id public_key_hex)) (\<lambda>decision.
         if decision = D_REVOKED then sfail (Hs DeviceRevokedError)
         else if decision = D_KEY_CHANGED then sfail (Hs KeyChangedError)
         else sret decision) s)"

definition record_trust :: "(string \<Rightarrow> unit result) option \<Rightarrow> time \<Rightarrow> string \<Rightarrow> string \<Rightarrow> string \<Rightarrow> trust_decision \<Rightarrow>
    (hs_state, trust_decision) op" where
  "record_trust enforcer now device_id public_key_hex peer_name decision s =
    (case hs_trust s of
       None \<Rightarrow> (Inr decision, s)
     | Some ts \<Rightarrow>
         if decision = D_UNKNOWN then
           sbind (on_trust ts (record_first_seen enforcer now device_id public_key_hex
             (take MAX_PEER_NAME_LENGTH peer_name))) (\<lambda>_. sret D_PENDING) s
         else if decision \<in> {D_PENDING, D_TRUSTED} then
           sbind (on_trust ts (touch_last_seen now device_id)) (\<lambda>_. sret decision) s
         else (Inr decision, s))"

definition check_and_update_trust :: "(string \<Rightarrow> unit result) option \<Rightarrow> time \<Rightarrow> string \<Rightarrow> string \<Rightarrow> string \<Rightarrow>
    (hs_state, trust_decision) op" where
  "check_and_update_trust enforcer now device_id public_key_hex peer_name =
    sbind (check_trust device_id public_key_hex) (\<lambda>decision.
      record_trust enforcer now device_id public_key_hex peer_name decision)"

section \<open>The two roles\<close>

record handshake_result =
  peer_device_id :: string
  peer_public_key :: string
  peer_name :: string
  shared_secret :: bytes
  transcript_hash :: bytes
  hr_trust_decision :: trust_decision

definition result_session_keys :: "hkdf \<Rightarrow> handshake_result \<Rightarrow> bool \<Rightarrow> session_keys result" where
  "result_session_keys hkdf r is_initiator = derive_session_keys hkdf (shared_secret r) (transcript_hash r) is_initiator"

text \<open>What a run of either role is given: its identity and name, the ephemeral private key and nonce it
  generates, the policy check, the readings of the clock.\<close>

record hs_run =
  my_identity :: device_keypair
  my_name :: string
  my_ephemeral :: bytes
  my_nonce :: string
  run_policy :: "(string \<Rightarrow> unit result) option"
  clock :: "nat \<Rightarrow> pyfloat"

definition send_frame :: "json \<Rightarrow> (hs_state, unit) op" where
  "send_frame m s = (case write_frame (hs_out s) m of
     Inl e \<Rightarrow> (Inl e, s) | Inr out \<Rightarrow> (Inr (), s\<lparr> hs_out := out \<rparr>))"

definition recv_frame :: "bool \<Rightarrow> (hs_state, json) op" where
  "recv_frame timely s =
    (if \<not> timely then (Inl (Hs HandshakeTimeoutError), s)
     else (case read_frame (hs_in s) of
         (Inl e, rest) \<Rightarrow> (Inl (Hs HandshakeProtocolError), s\<lparr> hs_in := rest \<rparr>)
       | (Inr v, rest) \<Rightarrow> (Inr v, s\<lparr> hs_in := rest \<rparr>)))"

definition items_of :: "json \<Rightarrow> (string \<times> json) list" where
  "items_of v = (case v of JDict d \<Rightarrow> d | _ \<Rightarrow> [])"

definition expect_message :: "string \<Rightarrow> json \<Rightarrow> (string \<times> json) list result" where
  "expect_message expected v =
    (case validate_message v of
       Inl _ \<Rightarrow> Inl (Hs HandshakeProtocolError)
     | Inr m \<Rightarrow> if dict_get (items_of m) ''type'' \<noteq> Some (JStr expected) then Inl (Hs HandshakeProtocolError)
               else Inr (items_of m))"

definition recv_message :: "bool \<Rightarrow> string \<Rightarrow> (hs_state, (string \<times> json) list) op" where
  "recv_message timely expected = sbind (recv_frame timely) (\<lambda>v. slift (expect_message expected v))"

definition check_nonce :: "time \<Rightarrow> string \<Rightarrow> (hs_state, unit) op" where
  "check_nonce now nonce s =
    (case check_and_add now nonce (hs_cache s) of
       (fresh, cache) \<Rightarrow> (if fresh then Inr () else Inl (Hs HandshakeProtocolError), s\<lparr> hs_cache := cache \<rparr>))"

definition check_signature :: "ed25519 \<Rightarrow> bytes \<Rightarrow> string \<Rightarrow> bytes \<Rightarrow> unit result" where
  "check_signature ed pub sig_hex transcript =
    rbind (public_key_from_bytes pub) (\<lambda>pk.
      case bytes_fromhex sig_hex of
        None \<Rightarrow> Inl (Hs SignatureVerificationError)
      | Some sig \<Rightarrow> if ed_verify ed pk sig transcript then Inr () else Inl (Hs SignatureVerificationError))"

definition session_secret :: "x25519 \<Rightarrow> bytes \<Rightarrow> string \<Rightarrow> bytes result" where
  "session_secret x my_eph peer_ephemeral_hex =
    rbind (case ephemeral_public_from_hex peer_ephemeral_hex of
        Inl _ \<Rightarrow> Inl (Hs HandshakeProtocolError) | Inr pk \<Rightarrow> Inr pk) (\<lambda>pk. compute_shared_secret x my_eph pk)"

definition my_init_msg :: "x25519 \<Rightarrow> hs_run \<Rightarrow> json" where
  "my_init_msg x r = make_handshake_init (clock r 0) (kp_device_id (my_identity r))
     (to_hex (public_key_bytes (my_identity r))) (to_hex (x_public x (my_ephemeral r))) (my_nonce r) (my_name r)"

definition initiator_start :: "x25519 \<Rightarrow> hs_run \<Rightarrow> (hs_state, unit) op" where
  "initiator_start x r = send_frame (my_init_msg x r)"

definition initiator_finish :: "ed25519 \<Rightarrow> x25519 \<Rightarrow> hs_run \<Rightarrow> bool \<Rightarrow> (hs_state, handshake_result) op" where
  "initiator_finish ed x r timely =
    sbind (recv_message timely ''handshake_response'') (\<lambda>resp.
    sbind (slift (str_item resp ''nonce'')) (\<lambda>nonce.
    sbind (check_nonce (time_of (clock r 1)) nonce) (\<lambda>_.
    sbind (slift (str_item resp ''device_id'')) (\<lambda>dev.
    sbind (slift (str_item resp ''public_key'')) (\<lambda>pk_hex.
    sbind (slift (verify_device_identity dev pk_hex)) (\<lambda>pub.
    sbind (check_trust dev pk_hex) (\<lambda>pre.
    sbind (slift (compute_responder_transcript (items_of (my_init_msg x r)) resp)) (\<lambda>resp_transcript.
    sbind (slift (str_item resp ''signature'')) (\<lambda>sig_hex.
    sbind (slift (check_signature ed pub sig_hex resp_transcript)) (\<lambda>_.
    sbind (slift (str_item resp ''sender_name'')) (\<lambda>name.
    sbind (record_trust (run_policy r) (time_of (clock r 2)) dev pk_hex name pre) (\<lambda>decision.
    sbind (slift (compute_initiator_transcript resp_transcript sig_hex)) (\<lambda>init_transcript.
    let my_signature = to_hex (kp_sign ed (my_identity r) init_transcript) in
    sbind (send_frame (make_handshake_finish (clock r 3) my_signature)) (\<lambda>_.
    sbind (slift (str_item resp ''ephemeral_key'')) (\<lambda>eph.
    sbind (slift (session_secret x (my_ephemeral r) eph)) (\<lambda>secret.
    sbind (slift (compute_final_transcript_hash init_transcript my_signature)) (\<lambda>h.
    sret \<lparr> peer_device_id = dev, peer_public_key = pk_hex, peer_name = name, shared_secret = secret,
           transcript_hash = h, hr_trust_decision = decision \<rparr>)))))))))))))))))"

definition perform_handshake_initiator :: "ed25519 \<Rightarrow> x25519 \<Rightarrow> hs_run \<Rightarrow> bool \<Rightarrow> (hs_state, handshake_result) op" where
  "perform_handshake_initiator ed x r timely = sbind (initiator_start x r) (\<lambda>_. initiator_finish ed x r timely)"

text \<open>What the responder knows while it waits for the last message.\<close>

record responder_wait =
  rw_init :: "(string \<times> json) list"
  rw_pub :: bytes
  rw_decision :: trust_decision
  rw_transcript :: bytes
  rw_signature :: string

definition response_no_sig :: "x25519 \<Rightarrow> hs_run \<Rightarrow> (string \<times> json) list" where
  "response_no_sig x r =
    [(''type'', JStr ''handshake_response''), (''device_id'', JStr (kp_device_id (my_identity r))),
     (''public_key'', JStr (to_hex (public_key_bytes (my_identity r)))),
     (''ephemeral_key'', JStr (to_hex (x_public x (my_ephemeral r)))), (''nonce'', JStr (my_nonce r)),
     (''sender_name'', JStr (my_name r))]"

definition responder_answer :: "ed25519 \<Rightarrow> x25519 \<Rightarrow> hs_run \<Rightarrow> bool \<Rightarrow> (hs_state, responder_wait) op" where
  "responder_answer ed x r timely =
    sbind (recv_message timely ''handshake_init'') (\<lambda>init.
    sbind (slift (str_item init ''nonce'')) (\<lambda>nonce.
    sbind (check_nonce (time_of (clock r 0)) nonce) (\<lambda>_.
    sbind (slift (str_item init ''device_id'')) (\<lambda>dev.
    sbind (slift (str_item init ''public_key'')) (\<lambda>pk_hex.
    sbind (slift (verify_device_identity dev pk_hex)) (\<lambda>pub.
    sbind (check_trust dev pk_hex) (\<lambda>pre.
    sbind (slift (compute_responder_transcript init (response_no_sig x r))) (\<lambda>resp_transcript.
    let my_signature = to_hex (kp_sign ed (my_identity r) resp_transcript) in
    sbind (send_frame (make_handshake_response (clock r 1) (kp_device_id (my_identity r))
      (to_hex (public_key_bytes (my_identity r))) (to_hex (x_public x (my_ephemeral r))) (my_nonce r)
      (my_name r) my_signature)) (\<lambda>_.
    sret \<lparr> rw_init = init, rw_pub = pub, rw_decision = pre, rw_transcript = resp_transcript,
           rw_signature = my_signature \<rparr>)))))))))"

definition responder_finish :: "ed25519 \<Rightarrow> x25519 \<Rightarrow> hs_run \<Rightarrow> bool \<Rightarrow> responder_wait \<Rightarrow> (hs_state, handshake_result) op" where
  "responder_finish ed x r timely w =
    sbind (recv_message timely ''handshake_finish'') (\<lambda>fin.
    sbind (slift (compute_initiator_transcript (rw_transcript w) (rw_signature w))) (\<lambda>init_transcript.
    sbind (slift (str_item fin ''signature'')) (\<lambda>sig_hex.
    sbind (slift (check_signature ed (rw_pub w) sig_hex init_transcript)) (\<lambda>_.
    sbind (slift (str_item (rw_init w) ''device_id'')) (\<lambda>dev.
    sbind (slift (str_item (rw_init w) ''public_key'')) (\<lambda>pk_hex.
    sbind (slift (str_item (rw_init w) ''sender_name'')) (\<lambda>name.
    sbind (record_trust (run_policy r) (time_of (clock r 2)) dev pk_hex name (rw_decision w)) (\<lambda>decision.
    sbind (slift (str_item (rw_init w) ''ephemeral_key'')) (\<lambda>eph.
    sbind (slift (session_secret x (my_ephemeral r) eph)) (\<lambda>secret.
    sbind (slift (compute_final_transcript_hash init_transcript sig_hex)) (\<lambda>h.
    sret \<lparr> peer_device_id = dev, peer_public_key = pk_hex, peer_name = name, shared_secret = secret,
           transcript_hash = h, hr_trust_decision = decision \<rparr>)))))))))))"

definition perform_handshake_responder ::
  "ed25519 \<Rightarrow> x25519 \<Rightarrow> hs_run \<Rightarrow> bool \<Rightarrow> bool \<Rightarrow> (hs_state, handshake_result) op" where
  "perform_handshake_responder ed x r timely timely' =
    sbind (responder_answer ed x r timely) (responder_finish ed x r timely')"

section \<open>Transcripts bind what they sign\<close>

text \<open>The strings a signed message carries: type, device id, public key, ephemeral key, nonce, name.\<close>

record hs_view =
  v_type :: string
  v_device :: string
  v_public :: string
  v_ephemeral :: string
  v_nonce :: string
  v_name :: string

definition shows_view :: "(string \<times> json) list \<Rightarrow> hs_view \<Rightarrow> bool" where
  "shows_view m v \<longleftrightarrow> dict_get m ''type'' = Some (JStr (v_type v)) \<and>
     dict_get m ''device_id'' = Some (JStr (v_device v)) \<and> dict_get m ''public_key'' = Some (JStr (v_public v)) \<and>
     dict_get m ''ephemeral_key'' = Some (JStr (v_ephemeral v)) \<and> dict_get m ''nonce'' = Some (JStr (v_nonce v)) \<and>
     dict_get m ''sender_name'' = Some (JStr (v_name v))"

definition view_json :: "hs_view \<Rightarrow> json" where
  "view_json v = JDict [(''type'', JStr (v_type v)), (''device_id'', JStr (v_device v)),
     (''public_key'', JStr (v_public v)), (''ephemeral_key'', JStr (v_ephemeral v)),
     (''nonce'', JStr (v_nonce v)), (''sender_name'', JStr (v_name v))]"

lemma wf_view_json [simp]: "wf_json (view_json v)"
  by (simp add: view_json_def)

lemma view_json_sorted_inject:
  assumes "sort_json (view_json u) = sort_json (view_json v)"
  shows "u = v"
proof -
  have "sort_key fst (sort_items kvs) = sort_key fst (sort_items kvs') \<Longrightarrow> set (sort_items kvs) = set (sort_items kvs')" for kvs kvs'
    by (metis set_sort)
  from this[of "items_of (view_json u)" "items_of (view_json v)"] assms
  have "set (sort_items (items_of (view_json u))) = set (sort_items (items_of (view_json v)))"
    by (simp add: view_json_def items_of_def)
  then have same: "p \<in> set (sort_items (items_of (view_json u))) \<Longrightarrow> p \<in> set (sort_items (items_of (view_json v)))" for p
    by blast
  show ?thesis
    using same[of "(''type'', JStr (v_type u))"] same[of "(''device_id'', JStr (v_device u))"]
      same[of "(''public_key'', JStr (v_public u))"] same[of "(''ephemeral_key'', JStr (v_ephemeral u))"]
      same[of "(''nonce'', JStr (v_nonce u))"] same[of "(''sender_name'', JStr (v_name u))"]
    by (simp add: view_json_def items_of_def)
qed

lemma signed_fields_view: "shows_view m v \<Longrightarrow> signed_fields m = Inr (canonical_json_bytes (view_json v))"
  by (simp add: shows_view_def signed_fields_def item_def view_json_def)

definition responder_transcript :: "hs_view \<Rightarrow> hs_view \<Rightarrow> bytes" where
  "responder_transcript u v = utf8_encode (''peerc-v2-handshake-responder'' @ [CHR 0x0A] @
     canonical_json (view_json u) @ [CHR 0x0A] @ canonical_json (view_json v))"

lemma newline_byte: "utf8_encode [CHR 0x0A] = [10]"
  by code_simp

lemma compute_responder_transcript_view:
  assumes "shows_view a u" "shows_view b v"
  shows "compute_responder_transcript a b = Inr (responder_transcript u v)"
  unfolding compute_responder_transcript_def responder_transcript_def utf8_encode_append newline_byte
    signed_fields_view[OF assms(1)] signed_fields_view[OF assms(2)] rbind_Inr canonical_json_bytes_def ..

lemma responder_transcript_inject:
  assumes "responder_transcript u v = responder_transcript u' v'"
  shows "u = u' \<and> v = v'"
proof -
  have eq: "canonical_json (view_json u) @ CHR 0x0A # canonical_json (view_json v) =
      canonical_json (view_json u') @ CHR 0x0A # canonical_json (view_json v')"
    using assms unfolding responder_transcript_def utf8_encode_inject same_append_eq by (simp only: append_Cons append_Nil)
  have nl: "num_end (CHR 0x0A # s)" for s
    by (simp add: num_end_def is_digit_def)
  from canonical_json_inject[OF wf_view_json wf_view_json nl nl eq]
  have u: "sort_json (view_json u) = sort_json (view_json u')"
    and rest: "canonical_json (view_json v) = canonical_json (view_json v')"
    by simp_all
  from canonical_json_inject[OF wf_view_json wf_view_json, of "[]" "[]" v v'] rest
  have "sort_json (view_json v) = sort_json (view_json v')"
    by simp
  with u show ?thesis
    by (blast dest: view_json_sorted_inject)
qed

section \<open>What a finished run has checked\<close>

definition init_view :: "x25519 \<Rightarrow> hs_run \<Rightarrow> hs_view" where
  "init_view x r = \<lparr> v_type = ''handshake_init'', v_device = kp_device_id (my_identity r),
     v_public = to_hex (public_key_bytes (my_identity r)), v_ephemeral = to_hex (x_public x (my_ephemeral r)),
     v_nonce = my_nonce r, v_name = my_name r \<rparr>"

definition response_view :: "x25519 \<Rightarrow> hs_run \<Rightarrow> hs_view" where
  "response_view x r = (init_view x r)\<lparr> v_type := ''handshake_response'' \<rparr>"

lemma shows_init_view: "shows_view (items_of (my_init_msg x r)) (init_view x r)"
  by (simp add: shows_view_def my_init_msg_def make_handshake_init_def items_of_def init_view_def)

lemma shows_response_view: "shows_view (response_no_sig x r) (response_view x r)"
  by (simp add: shows_view_def response_no_sig_def response_view_def init_view_def)

lemma shows_view_fun: "shows_view m u \<Longrightarrow> shows_view m v \<Longrightarrow> u = v"
  by (simp add: shows_view_def)

lemma has_str: "has d (f, is_str) \<Longrightarrow> \<exists>s. dict_get d f = Some (JStr s)"
  by (auto simp: has_def split: option.splits elim: is_str.elims)

lemma has_nonempty_str: "has d (f, is_nonempty_str) \<Longrightarrow> \<exists>s. dict_get d f = Some (JStr s) \<and> s \<noteq> []"
  by (auto simp: has_def split: option.splits elim: is_nonempty_str.elims)

lemma schema_handshake:
  "dict_get schema ''handshake_init'' = Some
     [(''device_id'', is_nonempty_str), (''public_key'', is_nonempty_str),
      (''ephemeral_key'', is_nonempty_str), (''nonce'', is_nonempty_str), (''sender_name'', is_str)]"
  "dict_get schema ''handshake_response'' = Some
     [(''device_id'', is_nonempty_str), (''public_key'', is_nonempty_str),
      (''ephemeral_key'', is_nonempty_str), (''nonce'', is_nonempty_str), (''sender_name'', is_str),
      (''signature'', is_nonempty_str)]"
  "dict_get schema ''handshake_finish'' = Some [(''signature'', is_nonempty_str)]"
  by (simp_all add: schema_def)

lemma expect_message_Inr:
  "expect_message t v = Inr d \<longleftrightarrow> v = JDict d \<and> conforms v \<and> dict_get d ''type'' = Some (JStr t)"
  by (cases v) (auto simp: expect_message_def validate_conforms items_of_def conforms_def)

lemma recv_message_Inr:
  "recv_message timely t s = (Inr d, s') \<longleftrightarrow>
    recv_frame timely s = (Inr (JDict d), s') \<and> conforms (JDict d) \<and> dict_get d ''type'' = Some (JStr t)"
  by (auto simp: recv_message_def sbind_eq_Inr expect_message_Inr)

lemma conforms_fields:
  assumes "conforms (JDict d)" "dict_get d ''type'' = Some (JStr t)" "dict_get schema t = Some rules"
  shows "list_all (has d) rules"
  using assms by (simp add: conforms_def)

lemma recv_message_view:
  assumes "recv_message timely t s = (Inr d, s')" "t \<in> {''handshake_init'', ''handshake_response''}"
  shows "\<exists>v. shows_view d v \<and> v_type v = t"
proof -
  have c: "conforms (JDict d)" "dict_get d ''type'' = Some (JStr t)"
    using assms(1) by (simp_all add: recv_message_Inr)
  have "list_all (has d) [(''device_id'', is_nonempty_str), (''public_key'', is_nonempty_str),
      (''ephemeral_key'', is_nonempty_str), (''nonce'', is_nonempty_str), (''sender_name'', is_str)]"
    using conforms_fields[OF c] assms(2) schema_handshake by auto
  then obtain i k e n m where "dict_get d ''device_id'' = Some (JStr i)" "dict_get d ''public_key'' = Some (JStr k)"
      "dict_get d ''ephemeral_key'' = Some (JStr e)" "dict_get d ''nonce'' = Some (JStr n)"
      "dict_get d ''sender_name'' = Some (JStr m)"
    by (auto dest!: has_nonempty_str has_str)
  with c have "shows_view d \<lparr> v_type = t, v_device = i, v_public = k, v_ephemeral = e, v_nonce = n, v_name = m \<rparr>"
    by (simp add: shows_view_def)
  then show ?thesis
    by fastforce
qed

lemma str_item_view:
  "shows_view d v \<Longrightarrow> str_item d ''device_id'' = Inr (v_device v)"
  "shows_view d v \<Longrightarrow> str_item d ''public_key'' = Inr (v_public v)"
  "shows_view d v \<Longrightarrow> str_item d ''ephemeral_key'' = Inr (v_ephemeral v)"
  "shows_view d v \<Longrightarrow> str_item d ''nonce'' = Inr (v_nonce v)"
  "shows_view d v \<Longrightarrow> str_item d ''sender_name'' = Inr (v_name v)"
  by (simp_all add: shows_view_def str_item_def)

lemma check_signature_Inr:
  "check_signature ed pub sig_hex m = Inr u \<longleftrightarrow>
    length pub = 32 \<and> (\<exists>sig. bytes_fromhex sig_hex = Some sig \<and> ed_verify ed pub sig m)"
  by (auto simp: check_signature_def public_key_from_bytes_def split: option.splits)

lemma verify_device_identity_Inr:
  "verify_device_identity dev hex = Inr pub \<longleftrightarrow> bytes_fromhex hex = Some pub \<and> compute_device_id pub = dev"
  by (auto simp: verify_device_identity_def split: option.splits)

text \<open>What the initiator has established when it returns.\<close>

lemma initiator_finish_checked:
  assumes "initiator_finish ed x r timely s = (Inr res, s')"
  obtains d s1 v pub sig sig_hex where
    "recv_message timely ''handshake_response'' s = (Inr d, s1)" "str_item d ''signature'' = Inr sig_hex"
    "v_type v = ''handshake_response''"
    "peer_device_id res = v_device v" "peer_public_key res = v_public v" "peer_name res = v_name v"
    "bytes_fromhex (v_public v) = Some pub" "compute_device_id pub = v_device v" "length pub = 32"
    "bytes_fromhex sig_hex = Some sig" "ed_verify ed pub sig (responder_transcript (init_view x r) v)"
    "session_secret x (my_ephemeral r) (v_ephemeral v) = Inr (shared_secret res)"
proof -
  obtain d s1 where d: "recv_message timely ''handshake_response'' s = (Inr d, s1)"
    using assms by (auto simp: initiator_finish_def sbind_eq_Inr)
  then obtain v where v: "shows_view d v" "v_type v = ''handshake_response''"
    using recv_message_view by blast
  have tr: "compute_responder_transcript (items_of (my_init_msg x r)) d = Inr (responder_transcript (init_view x r) v)"
    by (rule compute_responder_transcript_view[OF shows_init_view v(1)])
  from assms show thesis
    by (auto simp: initiator_finish_def sbind_eq_Inr d str_item_view[OF v(1)] tr Let_def check_signature_Inr
        verify_device_identity_Inr intro: that[OF d _ v(2)])
qed

lemma ascii_encode_Inr: "ascii_encode s = Inr b \<Longrightarrow> b = utf8_encode s"
  by (simp add: ascii_encode_def split: if_splits)

lemma hex_sig_ascii: "bytes_fromhex s = Some b \<Longrightarrow> list_all (\<lambda>c. hex_val c \<noteq> None \<or> ascii_space c) s"
proof (induction s arbitrary: b rule: bytes_fromhex.induct)
  case (2 c s)
  then show ?case
    by (auto split: if_splits list.splits option.splits)
qed simp

lemma hex_char_ascii: "hex_val c \<noteq> None \<or> ascii_space c \<Longrightarrow> (of_char c :: nat) < 128 \<and> c \<noteq> CHR ''}''"
  by (auto simp: hex_val_def ascii_space_def Let_def split: if_splits)

lemma hex_sig_encode:
  assumes "bytes_fromhex s = Some b"
  shows "ascii_encode s = Inr (utf8_encode s)" "CHR ''}'' \<notin> set s"
  using hex_sig_ascii[OF assms] hex_char_ascii by (auto simp: ascii_encode_def list_all_iff)

definition RESPONDER_DOMAIN :: string where
  "RESPONDER_DOMAIN = ''peerc-v2-handshake-responder'' @ [CHR 0x0A]"

definition INITIATOR_DOMAIN :: string where
  "INITIATOR_DOMAIN = ''peerc-v2-handshake-initiator'' @ [CHR 0x0A]"

definition responder_text :: "hs_view \<Rightarrow> hs_view \<Rightarrow> string" where
  "responder_text u v = RESPONDER_DOMAIN @ canonical_json (view_json u) @ [CHR 0x0A] @ canonical_json (view_json v)"

lemma responder_transcript_text: "responder_transcript u v = utf8_encode (responder_text u v)"
  unfolding responder_transcript_def responder_text_def RESPONDER_DOMAIN_def append_assoc ..

definition initiator_transcript :: "hs_view \<Rightarrow> hs_view \<Rightarrow> string \<Rightarrow> bytes" where
  "initiator_transcript u v sig_hex = utf8_encode (INITIATOR_DOMAIN @ responder_text u v @ [CHR 0x0A] @ sig_hex)"

lemma compute_initiator_transcript_view:
  assumes "bytes_fromhex sig_hex = Some b"
  shows "compute_initiator_transcript (responder_transcript u v) sig_hex = Inr (initiator_transcript u v sig_hex)"
  unfolding compute_initiator_transcript_def initiator_transcript_def INITIATOR_DOMAIN_def
    hex_sig_encode(1)[OF assms] rbind_Inr utf8_encode_append newline_byte responder_transcript_text append_assoc ..

lemma responder_text_ends: "\<exists>t. responder_text u v = t @ ''}''"
  by (simp add: responder_text_def canonical_json_def view_json_def)

lemma split_at_last:
  assumes "a @ [c] @ s = b @ [c] @ t" "c \<notin> set s" "c \<notin> set t"
  shows "a = b \<and> s = t"
proof -
  have "takeWhile (\<lambda>x. x \<noteq> c) (rev s @ c # rev a) = takeWhile (\<lambda>x. x \<noteq> c) (rev t @ c # rev b)"
    using arg_cong[OF assms(1), of rev] by simp
  moreover have "takeWhile (\<lambda>x. x \<noteq> c) (rev s) = rev s" "takeWhile (\<lambda>x. x \<noteq> c) (rev t) = rev t"
    using assms(2,3) by (auto simp: takeWhile_eq_all_conv)
  ultimately have "rev s = rev t"
    by (simp add: takeWhile_tail)
  with assms(1) show ?thesis
    by simp
qed

lemma initiator_transcript_inject:
  assumes "initiator_transcript u v g = initiator_transcript u' v' g'"
    and "bytes_fromhex g = Some b" "bytes_fromhex g' = Some b'"
  shows "u = u' \<and> v = v' \<and> g = g'"
proof -
  obtain t t' where t: "responder_text u v = t @ ''}''" "responder_text u' v' = t' @ ''}''"
    using responder_text_ends by metis
  have "t @ [CHR ''}''] @ CHR 0x0A # g = t' @ [CHR ''}''] @ CHR 0x0A # g'"
    using assms(1) unfolding initiator_transcript_def utf8_encode_inject same_append_eq t by simp
  then have "t = t' \<and> CHR 0x0A # g = CHR 0x0A # g'"
    using hex_sig_encode(2)[OF assms(2)] hex_sig_encode(2)[OF assms(3)] by (intro split_at_last) auto
  then have "responder_text u v = responder_text u' v'" and g: "g = g'"
    using t by auto
  then have "responder_transcript u v = responder_transcript u' v'"
    by (simp only: responder_transcript_text)
  with g show ?thesis
    using responder_transcript_inject by blast
qed

text \<open>What the responder has established when it returns.\<close>

lemma responder_answer_checked:
  assumes "responder_answer ed x r timely s = (Inr w, s')"
  obtains u pub where "shows_view (rw_init w) u" "v_type u = ''handshake_init''"
    "rw_pub w = pub" "bytes_fromhex (v_public u) = Some pub" "compute_device_id pub = v_device u"
    "rw_transcript w = responder_transcript u (response_view x r)"
    "rw_signature w = to_hex (kp_sign ed (my_identity r) (responder_transcript u (response_view x r)))"
proof -
  obtain d s1 where d: "recv_message timely ''handshake_init'' s = (Inr d, s1)"
    using assms by (auto simp: responder_answer_def sbind_eq_Inr)
  then obtain u where u: "shows_view d u" "v_type u = ''handshake_init''"
    using recv_message_view by blast
  have tr: "compute_responder_transcript d (response_no_sig x r) = Inr (responder_transcript u (response_view x r))"
    by (rule compute_responder_transcript_view[OF u(1) shows_response_view])
  from assms show thesis
    by (auto simp: responder_answer_def sbind_eq_Inr d str_item_view[OF u(1)] tr Let_def
        verify_device_identity_Inr u intro!: that[of u])
qed

lemma responder_finish_checked:
  assumes "responder_answer ed x r timely s0 = (Inr w, s1)" "responder_finish ed x r timely' w s = (Inr res, s')"
  obtains d s2 u pub sig sig_hex where
    "recv_message timely' ''handshake_finish'' s = (Inr d, s2)" "str_item d ''signature'' = Inr sig_hex"
    "shows_view (rw_init w) u" "v_type u = ''handshake_init''"
    "peer_device_id res = v_device u" "peer_public_key res = v_public u" "peer_name res = v_name u"
    "bytes_fromhex (v_public u) = Some pub" "compute_device_id pub = v_device u" "length pub = 32"
    "bytes_fromhex sig_hex = Some sig"
    "ed_verify ed pub sig (initiator_transcript u (response_view x r) (rw_signature w))"
    "session_secret x (my_ephemeral r) (v_ephemeral u) = Inr (shared_secret res)"
proof -
  obtain u pub where w: "shows_view (rw_init w) u" "v_type u = ''handshake_init''"
    "rw_pub w = pub" "bytes_fromhex (v_public u) = Some pub" "compute_device_id pub = v_device u"
    "rw_transcript w = responder_transcript u (response_view x r)"
    "rw_signature w = to_hex (kp_sign ed (my_identity r) (responder_transcript u (response_view x r)))"
    by (rule responder_answer_checked[OF assms(1)])
  have tr: "compute_initiator_transcript (rw_transcript w) (rw_signature w) =
      Inr (initiator_transcript u (response_view x r) (rw_signature w))"
    unfolding w(6) by (rule compute_initiator_transcript_view) (simp only: w(7) bytes_fromhex_to_hex)
  from assms(2) show thesis
    by (auto simp: responder_finish_def sbind_eq_Inr str_item_view[OF w(1)] tr Let_def check_signature_Inr w(3)
        intro: that[OF _ _ w(1,2) _ _ _ w(4,5)])
qed

section \<open>Authentication\<close>

text \<open>Unforgeability, for the signature a message carries: whatever text it verifies for under the key is
  one the key's holder signed. How honest devices use their key: every text they sign that starts with one of the two handshake
  domains was signed in one of their runs of that role.\<close>

definition genuine_signature :: "ed25519 \<Rightarrow> bytes \<Rightarrow> bool \<Rightarrow> string \<Rightarrow> hs_state \<Rightarrow> bytes set \<Rightarrow> bool" where
  "genuine_signature ed pk timely t s texts \<longleftrightarrow> (\<forall>d s' g sig m.
     recv_message timely t s = (Inr d, s') \<longrightarrow> str_item d ''signature'' = Inr g \<longrightarrow> bytes_fromhex g = Some sig \<longrightarrow>
     ed_verify ed pk sig m \<longrightarrow> m \<in> texts)"

definition signs_as_responder :: "x25519 \<Rightarrow> bytes set \<Rightarrow> hs_run set \<Rightarrow> bool" where
  "signs_as_responder x texts runs \<longleftrightarrow> (\<forall>m\<in>texts. prefix (utf8_encode RESPONDER_DOMAIN) m \<longrightarrow>
     (\<exists>r\<in>runs. \<exists>u. m = responder_transcript u (response_view x r)))"

definition signs_as_initiator :: "x25519 \<Rightarrow> bytes set \<Rightarrow> hs_run set \<Rightarrow> bool" where
  "signs_as_initiator x texts runs \<longleftrightarrow> (\<forall>m\<in>texts. prefix (utf8_encode INITIATOR_DOMAIN) m \<longrightarrow>
     (\<exists>i\<in>runs. \<exists>v g b. bytes_fromhex g = Some b \<and> m = initiator_transcript (init_view x i) v g))"

lemma responder_transcript_domain: "prefix (utf8_encode RESPONDER_DOMAIN) (responder_transcript u v)"
  unfolding responder_transcript_text responder_text_def utf8_encode_append by simp

lemma initiator_transcript_domain: "prefix (utf8_encode INITIATOR_DOMAIN) (initiator_transcript u v g)"
  unfolding initiator_transcript_def utf8_encode_append by simp

text \<open>
  (C1) The initiator authenticates the responder. When the initiator's handshake returns, whatever the
  network did, and signatures under the peer's key cannot be forged, then the device it names as its
  peer, whose id is the digest of that key, ran the responder role for exactly this run: it received
  the initiator's own id, key, ephemeral key, nonce and name, it answered with its own, and the shared
  secret the initiator returns is the one computed with that responder's ephemeral key.
\<close>

theorem initiator_authenticates_responder:
  assumes "initiator_finish ed x i timely s = (Inr res, s')"
    and "bytes_fromhex (peer_public_key res) = Some pk"
    and "genuine_signature ed pk timely ''handshake_response'' s texts" "signs_as_responder x texts runs"
  shows "\<exists>r\<in>runs. responder_transcript (init_view x i) (response_view x r) \<in> texts \<and>
    peer_device_id res = kp_device_id (my_identity r) \<and> peer_device_id res = compute_device_id pk \<and>
    peer_name res = my_name r \<and>
    session_secret x (my_ephemeral i) (to_hex (x_public x (my_ephemeral r))) = Inr (shared_secret res)"
proof -
  from initiator_finish_checked[OF assms(1)] obtain d s1 v pub sig g where
    d: "recv_message timely ''handshake_response'' s = (Inr d, s1)" "str_item d ''signature'' = Inr g"
      "bytes_fromhex g = Some sig" and v:
    "peer_device_id res = v_device v" "peer_public_key res = v_public v" "peer_name res = v_name v"
    "bytes_fromhex (v_public v) = Some pub" "compute_device_id pub = v_device v"
    "ed_verify ed pub sig (responder_transcript (init_view x i) v)"
    "session_secret x (my_ephemeral i) (v_ephemeral v) = Inr (shared_secret res)"
    by metis
  then have "pub = pk"
    using assms(2) by simp
  then have sgn: "responder_transcript (init_view x i) v \<in> texts"
    using assms(3) v(6) d by (auto simp: genuine_signature_def)
  then obtain r u where r: "r \<in> runs" "responder_transcript (init_view x i) v = responder_transcript u (response_view x r)"
    using assms(4) responder_transcript_domain unfolding signs_as_responder_def by blast
  then have "v = response_view x r"
    using responder_transcript_inject by blast
  with v r(1) sgn \<open>pub = pk\<close> show ?thesis
    by (intro bexI[of _ r]) (auto simp: response_view_def init_view_def)
qed

text \<open>
  (C2) The responder authenticates the initiator. When the responder's handshake returns, and
  signatures under the peer's key cannot be forged, then the device it names ran the initiator role
  and, in that run, accepted exactly this responder's answer and signature; both hold the same view of
  the whole transcript, and the responder's secret is computed with that initiator's ephemeral key.
\<close>

theorem responder_authenticates_initiator:
  assumes "responder_answer ed x r timely s0 = (Inr w, s1)"
    and "responder_finish ed x r timely' w s = (Inr res, s')"
    and "bytes_fromhex (peer_public_key res) = Some pk"
    and "genuine_signature ed pk timely' ''handshake_finish'' s texts" "signs_as_initiator x texts runs"
  shows "\<exists>i\<in>runs. initiator_transcript (init_view x i) (response_view x r) (rw_signature w) \<in> texts \<and>
    shows_view (rw_init w) (init_view x i) \<and>
    peer_device_id res = kp_device_id (my_identity i) \<and> peer_device_id res = compute_device_id pk \<and>
    peer_name res = my_name i \<and>
    session_secret x (my_ephemeral r) (to_hex (x_public x (my_ephemeral i))) = Inr (shared_secret res)"
proof -
  have sig: "\<exists>b. bytes_fromhex (rw_signature w) = Some b"
    using responder_answer_checked[OF assms(1)] by (metis bytes_fromhex_to_hex)
  from responder_finish_checked[OF assms(1,2)] obtain d s2 u pub sig g where
    d: "recv_message timely' ''handshake_finish'' s = (Inr d, s2)" "str_item d ''signature'' = Inr g"
      "bytes_fromhex g = Some sig" and w: "shows_view (rw_init w) u" and u:
    "peer_device_id res = v_device u" "peer_public_key res = v_public u" "peer_name res = v_name u"
    "bytes_fromhex (v_public u) = Some pub" "compute_device_id pub = v_device u"
    "ed_verify ed pub sig (initiator_transcript u (response_view x r) (rw_signature w))"
    "session_secret x (my_ephemeral r) (v_ephemeral u) = Inr (shared_secret res)"
    by metis
  then have "pub = pk"
    using assms(3) by simp
  then have sgn: "initiator_transcript u (response_view x r) (rw_signature w) \<in> texts"
    using assms(4) u(6) d by (auto simp: genuine_signature_def)
  then obtain i v g b where i: "i \<in> runs" "bytes_fromhex g = Some b"
      "initiator_transcript u (response_view x r) (rw_signature w) = initiator_transcript (init_view x i) v g"
    using assms(5) initiator_transcript_domain unfolding signs_as_initiator_def by blast
  then have "u = init_view x i"
    using sig initiator_transcript_inject by metis
  with u w i(1) sgn \<open>pub = pk\<close> show ?thesis
    by (intro bexI[of _ i]) (auto simp: init_view_def)
qed

section \<open>Trust is recorded only after proof\<close>

definition quiet :: "(hs_state, 'a) op \<Rightarrow> bool" where
  "quiet m \<longleftrightarrow> (\<forall>s. hs_trust (snd (m s)) = hs_trust s)"

lemma ts_check_state [simp]: "snd (ts_check i pk ts) = ts"
  by (cases "ts_conn ts") (simp_all add: ts_check_def sbind_def)

lemma quiet_sbind: "quiet m \<Longrightarrow> (\<And>a. quiet (f a)) \<Longrightarrow> quiet (sbind m f)"
  by (auto simp: quiet_def sbind_def split: prod.splits sum.splits) (metis snd_conv)+

lemma quiet_basic [simp]:
  "quiet (slift e)" "quiet (sret a)" "quiet (send_frame v)" "quiet (recv_frame timely)"
  "quiet (check_nonce now n)"
  by (auto simp: quiet_def send_frame_def recv_frame_def check_nonce_def split: prod.splits sum.splits)

lemma quiet_recv_message [simp]: "quiet (recv_message timely t)"
  by (simp add: recv_message_def quiet_sbind)

lemma quiet_check_trust [simp]: "quiet (check_trust dev pk)"
proof -
  have "hs_trust (snd (check_trust dev pk s)) = hs_trust s" for s
    by (cases "hs_trust s"; cases "ts_check dev pk (the (hs_trust s))")
      (use ts_check_state[of dev pk "the (hs_trust s)"] in
        \<open>auto simp: check_trust_def sbind_def on_trust_def split: sum.splits\<close>)
  then show ?thesis
    by (simp add: quiet_def)
qed

definition changed :: "(hs_state, 'a) op \<Rightarrow> hs_state \<Rightarrow> bool" where
  "changed m s \<longleftrightarrow> hs_trust (snd (m s)) \<noteq> hs_trust s"

lemma changed_sbind:
  "quiet m \<Longrightarrow> changed (sbind m f) s \<longleftrightarrow> (\<exists>a s1. m s = (Inr a, s1) \<and> changed (f a) s1)"
  by (auto simp: quiet_def changed_def sbind_def split: prod.splits sum.splits) (metis snd_conv)+

lemma responder_answer_quiet: "quiet (responder_answer ed x r timely)"
  unfolding responder_answer_def Let_def by (intro quiet_sbind quiet_basic quiet_recv_message quiet_check_trust)


section \<open>Replay protection\<close>

fun check_all :: "(time \<times> string) list \<Rightarrow> nonce_cache \<Rightarrow> nonce_cache" where
  "check_all [] c = c"
| "check_all ((t, n) # qs) c = check_all qs (snd (check_and_add t n c))"

definition remembers :: "nonce_cache \<Rightarrow> string \<Rightarrow> time \<Rightarrow> bool" where
  "remembers c n t \<longleftrightarrow> dict_get (nc_seen c) n = Some t \<and> distinct (map fst (nc_seen c))"

lemma dict_get_filter:
  "distinct (map fst d) \<Longrightarrow> dict_get [(k, t) \<leftarrow> d. P t] n = (case dict_get d n of Some t \<Rightarrow> if P t then Some t else None | None \<Rightarrow> None)"
  by (induction d) (auto split: option.splits simp: map_of_eq_None_iff)

lemma distinct_filter_keys: "distinct (map fst d) \<Longrightarrow> distinct (map fst [(k, t) \<leftarrow> d. P t])"
  by (induction d) auto

lemma check_and_add_ttl [simp]: "nc_ttl (snd (check_and_add t n c)) = nc_ttl c"
  by (simp add: check_and_add_def Let_def)

lemma check_and_add_distinct:
  "distinct (map fst (nc_seen c)) \<Longrightarrow> distinct (map fst (nc_seen (snd (check_and_add t n c))))"
  by (simp add: check_and_add_def Let_def distinct_filter_keys distinct_update)

lemma check_and_add_remembers:
  assumes "remembers c n t" "u - t \<le> nc_ttl c"
  shows "remembers (snd (check_and_add u m c)) n t"
  using assms check_and_add_distinct[of c u m]
  by (auto simp: remembers_def check_and_add_def Let_def dict_get_filter
      simp del: map_of_eq_Some_iff Some_eq_map_of_iff split: option.splits)

lemma check_all_remembers:
  "remembers c n t \<Longrightarrow> list_all (\<lambda>(u, _). u - t \<le> nc_ttl c) qs \<Longrightarrow> remembers (check_all qs c) n t \<and> nc_ttl (check_all qs c) = nc_ttl c"
proof (induction qs arbitrary: c)
  case (Cons q qs)
  obtain u m where q: "q = (u, m)"
    by (cases q)
  have "remembers (snd (check_and_add u m c)) n t"
    using Cons.prems by (intro check_and_add_remembers) (auto simp: q)
  then show ?case
    using Cons.IH[of "snd (check_and_add u m c)"] Cons.prems by (simp add: q)
qed simp

text \<open>
  (C13) A handshake nonce is accepted once. After a nonce was accepted at time t, and whatever nonces are
  presented after it within the cache's lifetime, presenting it again within the lifetime is refused.
\<close>

theorem nonce_accepted_once:
  assumes "distinct (map fst (nc_seen c))" "fst (check_and_add t n c)"
    and "list_all (\<lambda>(u, _). u - t \<le> nc_ttl c) qs" "v - t \<le> nc_ttl c"
  shows "\<not> fst (check_and_add v n (check_all qs (snd (check_and_add t n c))))"
proof -
  define c' where "c' = snd (check_and_add t n c)"
  have "remembers c' n t"
    using assms(1,2) check_and_add_distinct[OF assms(1), of t n]
    by (auto simp: c'_def remembers_def check_and_add_def Let_def
        simp del: map_of_eq_Some_iff Some_eq_map_of_iff split: if_splits)
  then have "remembers (check_all qs c') n t" "nc_ttl (check_all qs c') = nc_ttl c"
    using check_all_remembers[of c' n t qs] assms(3) by (simp_all add: c'_def)
  then show ?thesis
    using assms(4) unfolding c'_def[symmetric] by (auto simp: check_and_add_def Let_def remembers_def dict_get_filter
        simp del: map_of_eq_Some_iff Some_eq_map_of_iff)
qed

theorem nonce_accepted_once_witness:
  "fst (check_and_add 0 ''n'' \<lparr> nc_ttl = 300, nc_seen = [] \<rparr>) \<and>
   \<not> fst (check_and_add 10 ''n'' (check_all [(5, ''m'')] (snd (check_and_add 0 ''n'' \<lparr> nc_ttl = 300, nc_seen = [] \<rparr>))))"
proof -
  have first: "fst (check_and_add 0 ''n'' \<lparr> nc_ttl = 300, nc_seen = [] \<rparr>)"
    by (simp add: check_and_add_def)
  from nonce_accepted_once[OF _ first, of "[(5, ''m'')]" 10] first show ?thesis
    by simp
qed

section \<open>Two honest devices complete\<close>

lemma send_frame_ok: "encode_frame m = Inr f \<Longrightarrow> send_frame m s = (Inr (), s\<lparr> hs_out := hs_out s @ f \<rparr>)"
  by (simp add: send_frame_def write_frame_def)

lemma recv_message_ok:
  assumes "encode_frame m = Inr f" "wf_json m" "conforms m" "m = JDict d" "dict_get d ''type'' = Some (JStr t)"
    and "hs_in s = f"
  shows "recv_message True t s = (Inr d, s\<lparr> hs_in := [] \<rparr>)"
  using assms control.get_put[OF assms(2,1), of "[]"]
  by (simp add: recv_message_Inr recv_frame_def)

text \<open>A trust store that lets the peer in: none at all, or one where the peer is unknown and the policy
  has no objection, or known under the same key and not revoked.\<close>

definition welcomes :: "trust_store option \<Rightarrow> (string \<Rightarrow> unit result) option \<Rightarrow> string \<Rightarrow> string \<Rightarrow> bool" where
  "welcomes tr policy dev pk = (case tr of
     None \<Rightarrow> True
   | Some ts \<Rightarrow> (case ts_conn ts of
         None \<Rightarrow> False
       | Some db \<Rightarrow> (case dict_get (trusted_devices db) dev of
             None \<Rightarrow> (case policy of None \<Rightarrow> True | Some c \<Rightarrow> c dev = Inr ())
           | Some d \<Rightarrow> td_public_key d = pk \<and> td_status d \<noteq> REVOKED)))"

lemma welcomes_check:
  assumes "welcomes tr policy dev pk"
  obtains d d' tr' where "\<And>s. hs_trust s = tr \<Longrightarrow> check_trust dev pk s = (Inr d, s)"
    "\<And>s. hs_trust s = tr \<Longrightarrow> record_trust policy now dev pk name d s = (Inr d', s\<lparr> hs_trust := tr' \<rparr>)"
proof (cases tr)
  case None
  show ?thesis
    by (rule that[of D_UNKNOWN D_UNKNOWN None]) (simp_all add: check_trust_def record_trust_def None)
next
  case (Some ts)
  then obtain db where db: "ts_conn ts = Some db"
    using assms by (auto simp: welcomes_def split: option.splits)
  show ?thesis
  proof (cases "dict_get (trusted_devices db) dev")
    case None
    have "(case policy of None \<Rightarrow> Inr () | Some check \<Rightarrow> check dev) = Inr ()"
      using assms Some db None by (auto simp: welcomes_def split: option.splits)
    then show ?thesis
      using Some db None
      by (intro that[of D_UNKNOWN D_PENDING])
        (auto simp: check_trust_def record_trust_def sbind_def on_trust_def ts_check_def decide_def record_first_seen_def)
  next
    case dev: (Some e)
    then have "td_public_key e = pk" "td_status e \<noteq> REVOKED"
      using assms Some db by (auto simp: welcomes_def)
    then show ?thesis
      using Some db dev
      by (intro that[of "if td_status e = TRUSTED then D_TRUSTED else D_PENDING" "if td_status e = TRUSTED then D_TRUSTED else D_PENDING"])
        (auto simp: check_trust_def record_trust_def sbind_def on_trust_def ts_check_def decide_def touch_last_seen_def)
  qed
qed

definition honest_keypair :: "ed25519 \<Rightarrow> device_keypair \<Rightarrow> bool" where
  "honest_keypair ed kp \<longleftrightarrow> kp = keypair_from_private_key ed (private_key kp)"

lemma honest_keypair_facts:
  assumes "ed_laws ed" "honest_keypair ed kp"
  shows "length (public_key_bytes kp) = 32" "kp_device_id kp = compute_device_id (public_key_bytes kp)"
    "ed_verify ed (public_key_bytes kp) (kp_sign ed kp m) m" "kp_device_id kp \<noteq> []" "public_key_bytes kp \<noteq> []"
proof -
  have kp: "public_key_bytes kp = ed_public ed (private_key kp)" "kp_device_id kp = compute_device_id (public_key_bytes kp)"
    using assms(2) by (cases kp, simp add: honest_keypair_def keypair_from_private_key_def)+
  show "kp_device_id kp = compute_device_id (public_key_bytes kp)"
    by (rule kp(2))
  show "length (public_key_bytes kp) = 32" "ed_verify ed (public_key_bytes kp) (kp_sign ed kp m) m"
    using assms(1) kp(1) by (simp_all add: ed_laws_def kp_sign_def)
  then show "public_key_bytes kp \<noteq> []"
    by auto
  show "kp_device_id kp \<noteq> []"
    unfolding kp(2) using length_device_id[of "public_key_bytes kp"] by (metis list.size(3) zero_neq_numeral)
qed

definition my_response_msg :: "ed25519 \<Rightarrow> x25519 \<Rightarrow> hs_run \<Rightarrow> hs_view \<Rightarrow> json" where
  "my_response_msg ed x r u = make_handshake_response (clock r 1) (kp_device_id (my_identity r))
     (to_hex (public_key_bytes (my_identity r))) (to_hex (x_public x (my_ephemeral r))) (my_nonce r) (my_name r)
     (to_hex (kp_sign ed (my_identity r) (responder_transcript u (response_view x r))))"

definition my_finish_msg :: "ed25519 \<Rightarrow> hs_run \<Rightarrow> bytes \<Rightarrow> json" where
  "my_finish_msg ed i transcript = make_handshake_finish (clock i 3) (to_hex (kp_sign ed (my_identity i) transcript))"

text \<open>The run as it is played between two processes: what one writes is what the other reads next.\<close>

definition exchange :: "ed25519 \<Rightarrow> x25519 \<Rightarrow> hs_run \<Rightarrow> hs_run \<Rightarrow> hs_state \<Rightarrow> hs_state \<Rightarrow>
    (handshake_result \<times> handshake_result) option" where
  "exchange ed x i r si sr =
    (case initiator_start x i si of (Inl _, _) \<Rightarrow> None | (Inr _, si1) \<Rightarrow>
     (case responder_answer ed x r True (sr\<lparr> hs_in := drop (length (hs_out si)) (hs_out si1) \<rparr>) of
        (Inl _, _) \<Rightarrow> None
      | (Inr w, sr1) \<Rightarrow>
     (case initiator_finish ed x i True (si1\<lparr> hs_in := drop (length (hs_out sr)) (hs_out sr1) \<rparr>) of
        (Inl _, _) \<Rightarrow> None
      | (Inr ri, si2) \<Rightarrow>
     (case responder_finish ed x r True w (sr1\<lparr> hs_in := drop (length (hs_out si1)) (hs_out si2) \<rparr>) of
        (Inl _, _) \<Rightarrow> None
      | (Inr rr, _) \<Rightarrow> Some (ri, rr)))))"

lemma conforms_init:
  assumes "u = init_view x i" "v_device u \<noteq> []" "v_public u \<noteq> []" "v_ephemeral u \<noteq> []" "v_nonce u \<noteq> []"
  shows "conforms (my_init_msg x i)"
  using assms unfolding my_init_msg_def init_view_def by (intro built_conforms built.intros) simp_all

lemma to_hex_nonempty [simp]: "to_hex b = [] \<longleftrightarrow> b = []"
  by (metis length_0_conv length_to_hex mult_eq_0_iff numeral_neq_zero)

lemma responder_answer_ok:
  assumes "encode_frame (my_init_msg x i) = Inr f1" "wf_json (my_init_msg x i)" "conforms (my_init_msg x i)"
    and "encode_frame (my_response_msg ed x r (init_view x i)) = Inr f2"
    and "fst (check_and_add (time_of (clock r 0)) (my_nonce i) (hs_cache sr))"
    and "compute_device_id (public_key_bytes (my_identity i)) = kp_device_id (my_identity i)"
    and "\<And>s. hs_trust s = hs_trust sr \<Longrightarrow>
      check_trust (kp_device_id (my_identity i)) (to_hex (public_key_bytes (my_identity i))) s = (Inr d, s)"
    and "hs_in sr = f1"
  shows "\<exists>sr1. responder_answer ed x r True sr =
     (Inr \<lparr> rw_init = items_of (my_init_msg x i), rw_pub = public_key_bytes (my_identity i), rw_decision = d,
            rw_transcript = responder_transcript (init_view x i) (response_view x r),
            rw_signature = to_hex (kp_sign ed (my_identity r) (responder_transcript (init_view x i) (response_view x r))) \<rparr>,
      sr1) \<and> hs_out sr1 = hs_out sr @ f2 \<and> hs_trust sr1 = hs_trust sr"
proof -
  define e where "e = items_of (my_init_msg x i)"
  have e: "my_init_msg x i = JDict e" "dict_get e ''type'' = Some (JStr ''handshake_init'')"
    by (simp_all add: e_def my_init_msg_def make_handshake_init_def items_of_def)
  have view: "shows_view e (init_view x i)"
    unfolding e_def by (rule shows_init_view)
  note recv = recv_message_ok[OF assms(1,2,3) e assms(8)]
  have tr: "compute_responder_transcript e (response_no_sig x r) = Inr (responder_transcript (init_view x i) (response_view x r))"
    by (rule compute_responder_transcript_view[OF view shows_response_view])
  obtain cache where cache: "check_and_add (time_of (clock r 0)) (my_nonce i) (hs_cache sr) = (True, cache)"
    using assms(5) by (metis prod.collapse)
  have ident: "verify_device_identity (kp_device_id (my_identity i)) (to_hex (public_key_bytes (my_identity i))) =
      Inr (public_key_bytes (my_identity i))"
    using assms(6) by (simp add: verify_device_identity_Inr)
  show ?thesis
    unfolding responder_answer_def e_def[symmetric]
    using assms(4) cache
    by (simp add: sbind_def recv str_item_view[OF view] check_nonce_def ident assms(7) tr Let_def init_view_def
        send_frame_ok my_response_msg_def)
qed

lemma session_secret_ok:
  assumes "x_laws x"
  obtains z where "session_secret x a (to_hex (x_public x b)) = Inr z" "session_secret x b (to_hex (x_public x a)) = Inr z"
proof -
  obtain z where "x_exchange x a (x_public x b) = Some z" "x_exchange x b (x_public x a) = Some z"
    using assms by (metis x_laws_def not_None_eq)
  then show thesis
    using that[of z] assms
    by (simp add: session_secret_def ephemeral_public_from_hex_def ephemeral_public_from_bytes_def
        X25519_KEY_SIZE_def compute_shared_secret_def x_laws_def)
qed

lemma response_msg_view:
  "\<exists>e. my_response_msg ed x r u = JDict e \<and> dict_get e ''type'' = Some (JStr ''handshake_response'') \<and>
     shows_view e (response_view x r) \<and>
     str_item e ''signature'' = Inr (to_hex (kp_sign ed (my_identity r) (responder_transcript u (response_view x r))))"
  by (simp add: my_response_msg_def make_handshake_response_def shows_view_def response_view_def init_view_def str_item_def)

lemma initiator_finish_ok:
  assumes "encode_frame (my_response_msg ed x r (init_view x i)) = Inr f2"
    and "wf_json (my_response_msg ed x r (init_view x i))" "conforms (my_response_msg ed x r (init_view x i))"
    and "encode_frame (my_finish_msg ed i (initiator_transcript (init_view x i) (response_view x r) g)) = Inr f3"
    and "fst (check_and_add (time_of (clock i 1)) (my_nonce r) (hs_cache si))"
    and "ed_laws ed" "honest_keypair ed (my_identity r)"
    and "\<And>s. hs_trust s = hs_trust si \<Longrightarrow>
      check_trust (kp_device_id (my_identity r)) (to_hex (public_key_bytes (my_identity r))) s = (Inr d, s)"
    and "\<And>s. hs_trust s = hs_trust si \<Longrightarrow>
      record_trust (run_policy i) (time_of (clock i 2)) (kp_device_id (my_identity r))
        (to_hex (public_key_bytes (my_identity r))) (my_name r) d s = (Inr d', s\<lparr> hs_trust := tr' \<rparr>)"
    and "session_secret x (my_ephemeral i) (to_hex (x_public x (my_ephemeral r))) = Inr z"
    and "hs_in si = f2"
    and g: "g = to_hex (kp_sign ed (my_identity r) (responder_transcript (init_view x i) (response_view x r)))"
    and h: "h = to_hex (kp_sign ed (my_identity i) (initiator_transcript (init_view x i) (response_view x r) g))"
  shows "\<exists>si1. initiator_finish ed x i True si =
     (Inr \<lparr> peer_device_id = kp_device_id (my_identity r), peer_public_key = to_hex (public_key_bytes (my_identity r)),
            peer_name = my_name r, shared_secret = z,
            transcript_hash = sha256 (initiator_transcript (init_view x i) (response_view x r) g @ [10] @ utf8_encode h),
            hr_trust_decision = d' \<rparr>, si1) \<and> hs_out si1 = hs_out si @ f3 \<and> hs_trust si1 = tr'"
proof -
  obtain e where e: "my_response_msg ed x r (init_view x i) = JDict e" "dict_get e ''type'' = Some (JStr ''handshake_response'')"
      and view: "shows_view e (response_view x r)" and sig: "str_item e ''signature'' = Inr g"
    using response_msg_view[of ed x r "init_view x i"] g by blast
  note recv = recv_message_ok[OF assms(1,2,3) e assms(11)]
  have tr: "compute_responder_transcript (items_of (my_init_msg x i)) e = Inr (responder_transcript (init_view x i) (response_view x r))"
    by (rule compute_responder_transcript_view[OF shows_init_view view])
  have hex: "bytes_fromhex g = Some (kp_sign ed (my_identity r) (responder_transcript (init_view x i) (response_view x r)))"
    by (simp add: g)
  note tr2 = compute_initiator_transcript_view[OF hex]
  have hash: "compute_final_transcript_hash t h = Inr (sha256 (t @ [10] @ utf8_encode h))" for t
    unfolding compute_final_transcript_hash_def h hex_sig_encode(1)[OF bytes_fromhex_to_hex] by simp
  obtain cache where cache: "check_and_add (time_of (clock i (Suc 0))) (my_nonce r) (hs_cache si) = (True, cache)"
    using assms(5) by (metis One_nat_def prod.collapse)
  note kp = honest_keypair_facts[OF assms(6,7)]
  have ident: "verify_device_identity (kp_device_id (my_identity r)) (to_hex (public_key_bytes (my_identity r))) =
      Inr (public_key_bytes (my_identity r))"
    using kp(2) by (simp add: verify_device_identity_Inr)
  have sigok: "check_signature ed (public_key_bytes (my_identity r)) g (responder_transcript (init_view x i) (response_view x r)) = Inr ()"
    using kp(1,3) hex by (simp add: check_signature_Inr)
  have items: "str_item e ''device_id'' = Inr (kp_device_id (my_identity r))"
      "str_item e ''public_key'' = Inr (to_hex (public_key_bytes (my_identity r)))"
      "str_item e ''ephemeral_key'' = Inr (to_hex (x_public x (my_ephemeral r)))"
      "str_item e ''nonce'' = Inr (my_nonce r)" "str_item e ''sender_name'' = Inr (my_name r)"
    using str_item_view[OF view] by (simp_all add: response_view_def init_view_def)
  show ?thesis
    unfolding initiator_finish_def using assms(4) cache
    by (simp add: sbind_def recv items sig check_nonce_def ident assms(8,9,10) tr sigok tr2 Let_def
        send_frame_ok my_finish_msg_def flip: h) (simp add: hash)
qed

lemma responder_finish_ok:
  assumes "encode_frame (my_finish_msg ed i t) = Inr f3" "wf_json (my_finish_msg ed i t)"
    and "ed_laws ed" "honest_keypair ed (my_identity i)"
    and w: "rw_init w = items_of (my_init_msg x i)" "rw_pub w = public_key_bytes (my_identity i)"
      "compute_initiator_transcript (rw_transcript w) (rw_signature w) = Inr t"
    and "kp_sign ed (my_identity i) t \<noteq> []"
    and "\<And>s. hs_trust s = hs_trust sr \<Longrightarrow>
      record_trust (run_policy r) (time_of (clock r 2)) (kp_device_id (my_identity i))
        (to_hex (public_key_bytes (my_identity i))) (my_name i) (rw_decision w) s = (Inr d', s\<lparr> hs_trust := tr' \<rparr>)"
    and "session_secret x (my_ephemeral r) (to_hex (x_public x (my_ephemeral i))) = Inr z"
    and "hs_in sr = f3"
    and h: "h = to_hex (kp_sign ed (my_identity i) t)"
  shows "\<exists>sr1. responder_finish ed x r True w sr =
     (Inr \<lparr> peer_device_id = kp_device_id (my_identity i), peer_public_key = to_hex (public_key_bytes (my_identity i)),
            peer_name = my_name i, shared_secret = z, transcript_hash = sha256 (t @ [10] @ utf8_encode h),
            hr_trust_decision = d' \<rparr>, sr1) \<and> hs_trust sr1 = tr'"
proof -
  obtain e where e: "my_finish_msg ed i t = JDict e" "dict_get e ''type'' = Some (JStr ''handshake_finish'')"
      and sig: "str_item e ''signature'' = Inr h"
    by (simp add: my_finish_msg_def make_handshake_finish_def str_item_def h)
  have "conforms (my_finish_msg ed i t)"
    unfolding my_finish_msg_def using assms(8) by (intro built_conforms built.intros) simp
  note recv = recv_message_ok[OF assms(1,2) this e assms(11)]
  have items: "str_item (items_of (my_init_msg x i)) ''device_id'' = Inr (kp_device_id (my_identity i))"
      "str_item (items_of (my_init_msg x i)) ''public_key'' = Inr (to_hex (public_key_bytes (my_identity i)))"
      "str_item (items_of (my_init_msg x i)) ''ephemeral_key'' = Inr (to_hex (x_public x (my_ephemeral i)))"
      "str_item (items_of (my_init_msg x i)) ''sender_name'' = Inr (my_name i)"
    using str_item_view[OF shows_init_view, of x i] by (simp_all add: init_view_def)
  note kp = honest_keypair_facts[OF assms(3,4)]
  have sigok: "check_signature ed (public_key_bytes (my_identity i)) h t = Inr ()"
    using kp(1,3) by (simp add: check_signature_Inr h)
  have hash: "compute_final_transcript_hash t h = Inr (sha256 (t @ [10] @ utf8_encode h))"
    unfolding compute_final_transcript_hash_def h hex_sig_encode(1)[OF bytes_fromhex_to_hex] by simp
  show ?thesis
    unfolding responder_finish_def
    by (simp add: sbind_def recv w items sig sigok assms(9,10)) (simp add: hash)
qed

text \<open>Runs that can succeed: honest keys, non-empty nonces, clock readings that are floats.\<close>

definition proper_run :: "ed25519 \<Rightarrow> hs_run \<Rightarrow> bool" where
  "proper_run ed r \<longleftrightarrow> honest_keypair ed (my_identity r) \<and> my_nonce r \<noteq> [] \<and>
     (\<forall>n. wf_json (py_float (clock r n))) \<and> (\<forall>m. kp_sign ed (my_identity r) m \<noteq> [])"

lemma handshake_completes:
  assumes laws: "ed_laws ed" "x_laws x" and proper: "proper_run ed i" "proper_run ed r"
    and fresh: "fst (check_and_add (time_of (clock i 1)) (my_nonce r) (hs_cache si))"
      "fst (check_and_add (time_of (clock r 0)) (my_nonce i) (hs_cache sr))"
    and trust: "welcomes (hs_trust si) (run_policy i) (kp_device_id (my_identity r)) (to_hex (public_key_bytes (my_identity r)))"
      "welcomes (hs_trust sr) (run_policy r) (kp_device_id (my_identity i)) (to_hex (public_key_bytes (my_identity i)))"
    and fits: "is_ok (encode_frame (my_init_msg x i))" "is_ok (encode_frame (my_response_msg ed x r (init_view x i)))"
      "is_ok (encode_frame (my_finish_msg ed i (initiator_transcript (init_view x i) (response_view x r)
        (to_hex (kp_sign ed (my_identity r) (responder_transcript (init_view x i) (response_view x r)))))))"
  shows "\<exists>ri rr. exchange ed x i r si sr = Some (ri, rr) \<and>
    peer_device_id ri = kp_device_id (my_identity r) \<and> peer_device_id rr = kp_device_id (my_identity i) \<and>
    shared_secret ri = shared_secret rr \<and> transcript_hash ri = transcript_hash rr"
proof -
  define g where "g = to_hex (kp_sign ed (my_identity r) (responder_transcript (init_view x i) (response_view x r)))"
  define t where "t = initiator_transcript (init_view x i) (response_view x r) g"
  obtain f1 f2 f3 where f: "encode_frame (my_init_msg x i) = Inr f1"
      "encode_frame (my_response_msg ed x r (init_view x i)) = Inr f2" "encode_frame (my_finish_msg ed i t) = Inr f3"
    using fits by (auto simp: is_ok_iff t_def g_def)
  have hon: "honest_keypair ed (my_identity i)" "honest_keypair ed (my_identity r)"
    using proper by (simp_all add: proper_run_def)
  note ki = honest_keypair_facts[OF laws(1) hon(1)] and kr = honest_keypair_facts[OF laws(1) hon(2)]
  have eph: "x_public x a \<noteq> []" for a
    using laws(2) by (metis x_laws_def list.size(3) zero_neq_numeral)
  have wf: "wf_json (my_init_msg x i)" "wf_json (my_response_msg ed x r (init_view x i))" "wf_json (my_finish_msg ed i t)"
    using proper by (simp_all add: proper_run_def my_init_msg_def make_handshake_init_def my_response_msg_def
        make_handshake_response_def my_finish_msg_def make_handshake_finish_def)
  have conf: "conforms (my_init_msg x i)" "conforms (my_response_msg ed x r (init_view x i))"
    using proper ki kr eph unfolding my_init_msg_def my_response_msg_def
    by (auto simp: proper_run_def intro!: built_conforms built.intros(13,14))
  obtain z where z: "session_secret x (my_ephemeral i) (to_hex (x_public x (my_ephemeral r))) = Inr z"
      "session_secret x (my_ephemeral r) (to_hex (x_public x (my_ephemeral i))) = Inr z"
    by (rule session_secret_ok[OF laws(2)])
  obtain di di' ti where ti:
    "\<And>s. hs_trust s = hs_trust si \<Longrightarrow> check_trust (kp_device_id (my_identity r)) (to_hex (public_key_bytes (my_identity r))) s = (Inr di, s)"
    "\<And>s. hs_trust s = hs_trust si \<Longrightarrow> record_trust (run_policy i) (time_of (clock i 2)) (kp_device_id (my_identity r))
        (to_hex (public_key_bytes (my_identity r))) (my_name r) di s = (Inr di', s\<lparr> hs_trust := ti \<rparr>)"
    by (rule welcomes_check[OF trust(1), where now = "time_of (clock i 2)" and name = "my_name r"]) blast
  obtain dr dr' tr where tr:
    "\<And>s. hs_trust s = hs_trust sr \<Longrightarrow> check_trust (kp_device_id (my_identity i)) (to_hex (public_key_bytes (my_identity i))) s = (Inr dr, s)"
    "\<And>s. hs_trust s = hs_trust sr \<Longrightarrow> record_trust (run_policy r) (time_of (clock r 2)) (kp_device_id (my_identity i))
        (to_hex (public_key_bytes (my_identity i))) (my_name i) dr s = (Inr dr', s\<lparr> hs_trust := tr \<rparr>)"
    by (rule welcomes_check[OF trust(2), where now = "time_of (clock r 2)" and name = "my_name i"]) blast
  define si1 where "si1 = si\<lparr> hs_out := hs_out si @ f1 \<rparr>"
  have 1: "initiator_start x i si = (Inr (), si1)"
    by (simp add: initiator_start_def send_frame_ok[OF f(1)] si1_def)
  define w where "w = \<lparr> rw_init = items_of (my_init_msg x i), rw_pub = public_key_bytes (my_identity i),
    rw_decision = dr, rw_transcript = responder_transcript (init_view x i) (response_view x r), rw_signature = g \<rparr>"
  have w: "rw_init w = items_of (my_init_msg x i)" "rw_pub w = public_key_bytes (my_identity i)"
      "rw_transcript w = responder_transcript (init_view x i) (response_view x r)" "rw_signature w = g" "rw_decision w = dr"
    by (simp_all add: w_def)
  obtain sr1 where 2: "responder_answer ed x r True (sr\<lparr> hs_in := f1 \<rparr>) = (Inr w, sr1)"
      "hs_out sr1 = hs_out sr @ f2" "hs_trust sr1 = hs_trust sr"
    using responder_answer_ok[OF f(1) wf(1) conf(1) f(2), of "sr\<lparr> hs_in := f1 \<rparr>" dr] fresh(2) ki(2) tr(1)
    by (auto simp: g_def w_def)
  define ri where "ri = \<lparr> peer_device_id = kp_device_id (my_identity r),
    peer_public_key = to_hex (public_key_bytes (my_identity r)), peer_name = my_name r, shared_secret = z,
    transcript_hash = sha256 (t @ [10] @ utf8_encode (to_hex (kp_sign ed (my_identity i) t))), hr_trust_decision = di' \<rparr>"
  obtain si2 where 3: "initiator_finish ed x i True (si1\<lparr> hs_in := f2 \<rparr>) = (Inr ri, si2)" "hs_out si2 = hs_out si1 @ f3"
    using initiator_finish_ok[OF f(2) wf(2) conf(2) f(3)[unfolded t_def], of "si1\<lparr> hs_in := f2 \<rparr>" di di' ti z,
        OF _ laws(1) hon(2)] fresh(1) ti z(1)
    by (auto simp: g_def t_def si1_def ri_def)
  have comp: "compute_initiator_transcript (rw_transcript w) (rw_signature w) = Inr t"
    unfolding w t_def by (rule compute_initiator_transcript_view) (simp add: g_def)
  define rr where "rr = \<lparr> peer_device_id = kp_device_id (my_identity i),
    peer_public_key = to_hex (public_key_bytes (my_identity i)), peer_name = my_name i, shared_secret = z,
    transcript_hash = sha256 (t @ [10] @ utf8_encode (to_hex (kp_sign ed (my_identity i) t))), hr_trust_decision = dr' \<rparr>"
  obtain sr2 where 4: "responder_finish ed x r True w (sr1\<lparr> hs_in := f3 \<rparr>) = (Inr rr, sr2)"
    using responder_finish_ok[OF f(3) wf(3) laws(1) hon(1) w(1,2) comp, of "sr1\<lparr> hs_in := f3 \<rparr>" r dr' tr z] proper(1) tr(2) z(2) 2(3) w(5)
    by (auto simp: proper_run_def rr_def)
  have "exchange ed x i r si sr = Some (ri, rr)"
    using 1 2 3 4 by (simp add: exchange_def si1_def)
  then show ?thesis
    by (auto simp: ri_def rr_def)
qed

text \<open>
  (C3) Two honest devices complete. For any two runs with honest keys, nonces the peer has not seen,
  messages that fit a frame and stores that let the peer in, playing the three messages against each
  other ends in both roles with a result: each names the other's device id, the shared secrets and the
  transcript digests are equal, and so the session keys derived from them fit crosswise.
\<close>

theorem handshake_of_honest_devices:
  assumes "ed_laws ed" "x_laws x" "proper_run ed i" "proper_run ed r"
    and "fst (check_and_add (time_of (clock i 1)) (my_nonce r) (hs_cache si))"
    and "fst (check_and_add (time_of (clock r 0)) (my_nonce i) (hs_cache sr))"
    and "welcomes (hs_trust si) (run_policy i) (kp_device_id (my_identity r)) (to_hex (public_key_bytes (my_identity r)))"
    and "welcomes (hs_trust sr) (run_policy r) (kp_device_id (my_identity i)) (to_hex (public_key_bytes (my_identity i)))"
    and "is_ok (encode_frame (my_init_msg x i))" "is_ok (encode_frame (my_response_msg ed x r (init_view x i)))"
    and "is_ok (encode_frame (my_finish_msg ed i (initiator_transcript (init_view x i) (response_view x r)
      (to_hex (kp_sign ed (my_identity r) (responder_transcript (init_view x i) (response_view x r)))))))"
  shows "\<exists>ri rr. exchange ed x i r si sr = Some (ri, rr) \<and>
    peer_device_id ri = kp_device_id (my_identity r) \<and> peer_device_id rr = kp_device_id (my_identity i) \<and>
    shared_secret ri = shared_secret rr \<and> transcript_hash ri = transcript_hash rr \<and>
    (\<forall>hkdf ki kr. result_session_keys hkdf ri True = Inr ki \<longrightarrow> result_session_keys hkdf rr False = Inr kr \<longrightarrow>
       send_key ki = recv_key kr \<and> recv_key ki = send_key kr \<and> session_id ki = session_id kr)"
proof -
  obtain ri rr where r: "exchange ed x i r si sr = Some (ri, rr)"
    "peer_device_id ri = kp_device_id (my_identity r)" "peer_device_id rr = kp_device_id (my_identity i)"
    "shared_secret ri = shared_secret rr" "transcript_hash ri = transcript_hash rr"
    using handshake_completes[OF assms] by blast
  have "send_key ki = recv_key kr \<and> recv_key ki = send_key kr \<and> session_id ki = session_id kr"
    if "result_session_keys hkdf ri True = Inr ki" "result_session_keys hkdf rr False = Inr kr" for hkdf ki kr
    using that r(4,5) by (auto simp: result_session_keys_def derive_session_keys_def split: if_splits option.splits)
  with r show ?thesis
    by blast
qed

section \<open>A concrete run\<close>

text \<open>Bounds on the size of printed messages, to see that a concrete message fits a frame.\<close>

fun jbound :: "json \<Rightarrow> nat" where
  "jbound (JStr s) = 6 * length s + 2"
| "jbound v = length (dumps v)"

definition items_bound :: "(string \<times> json) list \<Rightarrow> nat" where
  "items_bound kvs = sum_list (map (\<lambda>(k, v). 6 * length k + 6 + jbound v) kvs)"

lemma length_esc_char: "length (esc_char c) \<le> 6"
  by (simp add: esc_char_def u_escape_def Let_def)

lemma length_dump_string: "length (dump_string s) \<le> 6 * length s + 2"
proof -
  have "length (concat (map esc_char s)) \<le> 6 * length s"
  proof (induction s)
    case (Cons c s)
    then show ?case
      using length_esc_char[of c] by simp
  qed simp
  then show ?thesis
    by (simp add: dump_string_def)
qed

definition atomic :: "json \<Rightarrow> bool" where
  "atomic v \<longleftrightarrow> (case v of JList _ \<Rightarrow> False | JDict _ \<Rightarrow> False | _ \<Rightarrow> True)"

lemma length_print_atomic: "atomic v \<Longrightarrow> length (print_json w v) \<le> jbound v"
  by (cases v) (use length_dump_string in \<open>auto simp: atomic_def\<close>)

lemma length_print_items:
  "length w \<le> 1 \<Longrightarrow> list_all (atomic \<circ> snd) kvs \<Longrightarrow> length (print_items w kvs) \<le> items_bound kvs"
proof (induction kvs rule: induct_list012)
  case (2 p)
  then show ?case
    using length_dump_string[of "fst p"] length_print_atomic[of "snd p" w]
    by (cases p) (simp add: items_bound_def)
next
  case (3 p q kvs)
  then show ?case
    using length_dump_string[of "fst p"] length_print_atomic[of "snd p" w]
    by (cases p) (simp add: items_bound_def)
qed (simp add: items_bound_def)

lemma length_utf8_encode: "length (utf8_encode s) \<le> 2 * length s"
  by (induction s) (simp_all add: utf8_encode_def utf8_char_def Let_def)

lemma length_utf8_ge: "length s \<le> length (utf8_encode s)"
  by (induction s) (simp_all add: utf8_encode_def utf8_char_def Let_def)

lemma encode_frame_fits:
  assumes "list_all (atomic \<circ> snd) kvs" "2 * (items_bound kvs + 2) \<le> MAX_MESSAGE_SIZE"
  shows "is_ok (encode_frame (JDict kvs))"
proof -
  have "length (utf8_encode (dumps (JDict kvs))) \<le> 2 * (items_bound kvs + 2)"
    using length_utf8_encode[of "dumps (JDict kvs)"] length_print_items[OF _ assms(1), of "'' ''"] by simp
  with assms(2) have "length (utf8_encode (dumps (JDict kvs))) \<le> MAX_MESSAGE_SIZE"
    by linarith
  then show ?thesis
    by (simp only: is_ok_iff encode_frame_eq) blast
qed

lemma items_bound_sort: "items_bound (sort_key f kvs) = items_bound kvs"
proof -
  have "items_bound (insort_key f p kvs) = items_bound (p # kvs)" for p kvs
    by (induction kvs) (auto simp: items_bound_def)
  then show ?thesis
    by (induction kvs) (simp_all add: items_bound_def)
qed

lemma length_canonical_view:
  "length (canonical_json (view_json v)) \<le> 500 +
     6 * (length (v_type v) + length (v_device v) + length (v_public v) + length (v_ephemeral v) +
          length (v_nonce v) + length (v_name v))"
proof -
  define kvs where "kvs = sort_items (items_of (view_json v))"
  have kvs: "kvs = items_of (view_json v)"
    by (simp add: kvs_def view_json_def items_of_def)
  have perm: "items_bound (sort_key fst kvs) = items_bound kvs" "list_all (atomic \<circ> snd) (sort_key fst kvs)"
    by (simp_all add: items_bound_sort list_all_iff) (auto simp: kvs view_json_def items_of_def atomic_def)
  have "length (print_items [] (sort_key fst kvs)) \<le> items_bound kvs"
    using length_print_items[of "[]" "sort_key fst kvs"] perm by simp
  moreover have "canonical_json (view_json v) = ''{'' @ print_items [] (sort_key fst kvs) @ ''}''"
    by (simp add: canonical_json_def kvs_def view_json_def items_of_def)
  ultimately show ?thesis
    by (simp add: kvs items_bound_def view_json_def items_of_def)
qed

definition demo_x :: x25519 where
  "demo_x = \<lparr> x_public = (\<lambda>a. take 32 (a @ replicate 32 0)),
     x_exchange = (\<lambda>a p. Some (map2 (+) (take 32 (a @ replicate 32 0)) p)) \<rparr>"

lemma demo_x_laws: "x_laws demo_x"
proof -
  have "map2 (+) p q = map2 (+) q p" for p q :: bytes
    by (induction p arbitrary: q) (auto split: list.split simp: zip_Cons1 add.commute)
  then show ?thesis
    by (auto simp: x_laws_def demo_x_def min_def)
qed

definition sample_run :: "byte \<Rightarrow> string \<Rightarrow> hs_run" where
  "sample_run b name = \<lparr> my_identity = keypair_from_private_key demo_ed [b], my_name = name, my_ephemeral = [b],
     my_nonce = name, run_policy = None, clock = (\<lambda>n. (15, 1)) \<rparr>"

definition sample_state :: hs_state where
  "sample_state = \<lparr> hs_in = [], hs_out = [], hs_cache = \<lparr> nc_ttl = 300, nc_seen = [] \<rparr>,
     hs_trust = Some \<lparr> ts_conn = Some empty_trust_db, ts_owns_conn = True \<rparr> \<rparr>"

lemma sample_proper: "name \<noteq> [] \<Longrightarrow> proper_run demo_ed (sample_run b name)"
  by (simp add: proper_run_def sample_run_def honest_keypair_def keypair_from_private_key_def py_float_def
      kp_sign_def demo_ed_def)

lemma sample_keys [simp]:
  "length (kp_device_id (my_identity (sample_run b name))) = 64"
  "length (public_key_bytes (my_identity (sample_run b name))) = 32"
  "length (x_public demo_x e) = 32" "my_name (sample_run b name) = name" "my_nonce (sample_run b name) = name"
  "length (kp_sign demo_ed (my_identity (sample_run b name)) m) = 32 + length m"
  using demo_x_laws by (auto simp: sample_run_def keypair_from_private_key_def demo_ed_def kp_sign_def min_def x_laws_def)

lemma sample_views [simp]:
  "length (v_type (init_view demo_x (sample_run b name))) = 14"
  "length (v_type (response_view demo_x (sample_run b name))) = 18"
  "length (v_device (init_view demo_x (sample_run b name))) = 64" "length (v_device (response_view demo_x (sample_run b name))) = 64"
  "length (v_public (init_view demo_x (sample_run b name))) = 64" "length (v_public (response_view demo_x (sample_run b name))) = 64"
  "length (v_ephemeral (init_view demo_x (sample_run b name))) = 64" "length (v_ephemeral (response_view demo_x (sample_run b name))) = 64"
  "v_nonce (init_view demo_x (sample_run b name)) = name" "v_nonce (response_view demo_x (sample_run b name)) = name"
  "v_name (init_view demo_x (sample_run b name)) = name" "v_name (response_view demo_x (sample_run b name)) = name"
  by (simp_all add: init_view_def response_view_def)

lemma sample_transcript_size:
  "length (responder_transcript (init_view demo_x (sample_run a n)) (response_view demo_x (sample_run b m)))
     \<le> 8000 + 24 * length n + 24 * length m"
proof -
  define u v where "u = init_view demo_x (sample_run a n)" and "v = response_view demo_x (sample_run b m)"
  have "length (responder_text u v) \<le> 30 + length (canonical_json (view_json u)) + length (canonical_json (view_json v))"
    by (simp add: responder_text_def RESPONDER_DOMAIN_def)
  then show ?thesis
    using length_utf8_encode[of "responder_text u v"] length_canonical_view[of u] length_canonical_view[of v]
    unfolding responder_transcript_text u_def[symmetric] v_def[symmetric]
    by (simp add: u_def v_def)
qed

lemma int_str_2 [simp]: "length (int_str 2) = 1" "length (float_str 15 (Suc 0)) = 3"
  by code_simp+

lemma sample_fits:
  "is_ok (encode_frame (my_init_msg demo_x (sample_run 1 ''A'')))"
  "is_ok (encode_frame (my_response_msg demo_ed demo_x (sample_run 2 ''B'') (init_view demo_x (sample_run 1 ''A''))))"
  "is_ok (encode_frame (my_finish_msg demo_ed (sample_run 1 ''A'') (initiator_transcript (init_view demo_x (sample_run 1 ''A''))
      (response_view demo_x (sample_run 2 ''B''))
      (to_hex (kp_sign demo_ed (my_identity (sample_run 2 ''B''))
        (responder_transcript (init_view demo_x (sample_run 1 ''A'')) (response_view demo_x (sample_run 2 ''B''))))))))"
proof -
  have clk: "clock (sample_run b n) = (\<lambda>_. (15, 1))" for b n
    by (simp add: sample_run_def)
  define T where "T = responder_transcript (init_view demo_x (sample_run 1 ''A'')) (response_view demo_x (sample_run 2 ''B''))"
  define g where "g = to_hex (kp_sign demo_ed (my_identity (sample_run 2 ''B'')) T)"
  define I where "I = initiator_transcript (init_view demo_x (sample_run 1 ''A'')) (response_view demo_x (sample_run 2 ''B'')) g"
  have T: "length T \<le> 9000"
    using sample_transcript_size[of 1 "''A''" 2 "''B''"] by (simp add: T_def)
  have g: "length g \<le> 20000"
    using T by (simp add: g_def)
  have I: "length I \<le> 60000"
  proof -
    have "length (INITIATOR_DOMAIN @ responder_text (init_view demo_x (sample_run 1 ''A'')) (response_view demo_x (sample_run 2 ''B'')) @ [CHR 0x0A] @ g)
        \<le> 30 + length T + 1 + length g"
      using length_utf8_ge[of "responder_text (init_view demo_x (sample_run 1 ''A'')) (response_view demo_x (sample_run 2 ''B''))"]
      by (simp add: INITIATOR_DOMAIN_def T_def responder_transcript_text)
    then show ?thesis
      using length_utf8_encode[of "INITIATOR_DOMAIN @ responder_text (init_view demo_x (sample_run 1 ''A'')) (response_view demo_x (sample_run 2 ''B'')) @ [CHR 0x0A] @ g"] T g
      unfolding I_def initiator_transcript_def by linarith
  qed
  show "is_ok (encode_frame (my_init_msg demo_x (sample_run 1 ''A'')))"
    unfolding my_init_msg_def make_handshake_init_def
    by (rule encode_frame_fits) (simp_all add: atomic_def py_float_def PROTOCOL_VERSION_def items_bound_def clk MAX_MESSAGE_SIZE_def)
  show "is_ok (encode_frame (my_response_msg demo_ed demo_x (sample_run 2 ''B'') (init_view demo_x (sample_run 1 ''A''))))"
    unfolding my_response_msg_def make_handshake_response_def T_def[symmetric] g_def[symmetric]
    by (rule encode_frame_fits)
      (use g in \<open>simp_all add: atomic_def py_float_def PROTOCOL_VERSION_def items_bound_def clk MAX_MESSAGE_SIZE_def\<close>)
  have "is_ok (encode_frame (my_finish_msg demo_ed (sample_run 1 ''A'') I))"
    unfolding my_finish_msg_def make_handshake_finish_def
    by (rule encode_frame_fits)
      (use I in \<open>simp_all add: atomic_def py_float_def PROTOCOL_VERSION_def items_bound_def clk MAX_MESSAGE_SIZE_def\<close>)
  then show "is_ok (encode_frame (my_finish_msg demo_ed (sample_run 1 ''A'') (initiator_transcript (init_view demo_x (sample_run 1 ''A''))
      (response_view demo_x (sample_run 2 ''B''))
      (to_hex (kp_sign demo_ed (my_identity (sample_run 2 ''B''))
        (responder_transcript (init_view demo_x (sample_run 1 ''A'')) (response_view demo_x (sample_run 2 ''B''))))))))"
    by (simp only: I_def g_def T_def)
qed

lemma sample_lets_in:
  "fst (check_and_add t n (hs_cache sample_state))" "welcomes (hs_trust sample_state) None dev pk"
  by (simp_all add: check_and_add_def sample_state_def welcomes_def empty_trust_db_def)

lemma sample_policy [simp]: "run_policy (sample_run b n) = None"
  by (simp add: sample_run_def)

theorem handshake_of_honest_devices_witness:
  "\<exists>ri rr. exchange demo_ed demo_x (sample_run 1 ''A'') (sample_run 2 ''B'') sample_state sample_state = Some (ri, rr) \<and>
     shared_secret ri = shared_secret rr \<and> transcript_hash ri = transcript_hash rr"
proof -
  have proper: "proper_run demo_ed (sample_run 1 ''A'')" "proper_run demo_ed (sample_run 2 ''B'')"
    by (simp_all add: sample_proper)
  show ?thesis
    using handshake_of_honest_devices[OF demo_ed_laws demo_x_laws proper, of sample_state sample_state]
      sample_lets_in sample_fits by auto
qed

abbreviation run_a :: hs_run where "run_a \<equiv> sample_run 1 ''A''"
abbreviation run_b :: hs_run where "run_b \<equiv> sample_run 2 ''B''"

definition sample_T :: bytes where
  "sample_T = responder_transcript (init_view demo_x run_a) (response_view demo_x run_b)"

definition sample_g :: string where
  "sample_g = to_hex (kp_sign demo_ed (my_identity run_b) sample_T)"

definition sample_I :: bytes where
  "sample_I = initiator_transcript (init_view demo_x run_a) (response_view demo_x run_b) sample_g"

lemma sample_honest: "honest_keypair demo_ed (my_identity (sample_run b n))"
  by (simp add: honest_keypair_def sample_run_def keypair_from_private_key_def)

lemma sample_public_nonempty [simp]: "public_key_bytes (my_identity (sample_run b n)) \<noteq> []"
  using sample_keys(2)[of b n] by (metis list.size(3) zero_neq_numeral)

lemma sample_conforms:
  "conforms (my_init_msg demo_x run_a)" "conforms (my_response_msg demo_ed demo_x run_b u)"
  "wf_json (my_init_msg demo_x run_a)" "wf_json (my_response_msg demo_ed demo_x run_b u)" "wf_json (my_finish_msg demo_ed run_a t)"
proof -
  have ne: "kp_device_id (my_identity (sample_run b n)) \<noteq> []" "public_key_bytes (my_identity (sample_run b n)) \<noteq> []"
      "x_public demo_x e \<noteq> []" "kp_sign demo_ed (my_identity (sample_run b n)) m \<noteq> []" for b n e m
    using sample_keys by (metis list.size(3) zero_neq_numeral add_is_0)+
  show "conforms (my_init_msg demo_x run_a)" "conforms (my_response_msg demo_ed demo_x run_b u)"
    unfolding my_init_msg_def my_response_msg_def using ne by (auto intro!: built_conforms built.intros(13,14))
  show "wf_json (my_init_msg demo_x run_a)" "wf_json (my_response_msg demo_ed demo_x run_b u)" "wf_json (my_finish_msg demo_ed run_a t)"
    by (simp_all add: my_init_msg_def make_handshake_init_def my_response_msg_def make_handshake_response_def
        my_finish_msg_def make_handshake_finish_def py_float_def sample_run_def)
qed

definition sample_after :: "hs_run \<Rightarrow> trust_store option" where
  "sample_after peer = Some \<lparr> ts_conn = Some (insert_device (kp_device_id (my_identity peer))
     (new_device (to_hex (public_key_bytes (my_identity peer))) (my_name peer) (time_of (15, 1)) PENDING) empty_trust_db),
     ts_owns_conn = True \<rparr>"

lemma sample_after_changed: "sample_after peer \<noteq> hs_trust sample_state"
  by (simp add: sample_after_def sample_state_def insert_device_def empty_trust_db_def)

lemma sample_trust:
  assumes "hs_trust s = hs_trust sample_state"
  shows "check_trust (kp_device_id (my_identity (sample_run b n))) pk s = (Inr D_UNKNOWN, s)"
    "length n \<le> 64 \<Longrightarrow> record_trust None (time_of (15, 1)) (kp_device_id (my_identity (sample_run b n)))
        (to_hex (public_key_bytes (my_identity (sample_run b n)))) n D_UNKNOWN s =
      (Inr D_PENDING, s\<lparr> hs_trust := sample_after (sample_run b n) \<rparr>)"
  using assms
  by (simp_all add: sample_state_def check_trust_def record_trust_def sbind_def on_trust_def ts_check_def decide_def
      record_first_seen_def empty_trust_db_def sample_after_def MAX_PEER_NAME_LENGTH_def)

lemma sample_clock [simp]: "clock (sample_run b n) k = (15, 1)"
  by (simp add: sample_run_def)

lemma sample_initiator_run:
  obtains f2 e ri s' s1 where "hs_trust s' = sample_after run_b"
    "initiator_finish demo_ed demo_x run_a True (sample_state\<lparr> hs_in := f2 \<rparr>) = (Inr ri, s')"
    "peer_public_key ri = to_hex (public_key_bytes (my_identity run_b))"
    "recv_message True ''handshake_response'' (sample_state\<lparr> hs_in := f2 \<rparr>) = (Inr e, s1)"
    "str_item e ''signature'' = Inr sample_g"
proof -
  obtain f2 f3 where f: "encode_frame (my_response_msg demo_ed demo_x run_b (init_view demo_x run_a)) = Inr f2"
      "encode_frame (my_finish_msg demo_ed run_a sample_I) = Inr f3"
    using sample_fits by (auto simp: is_ok_iff sample_I_def sample_g_def sample_T_def)
  obtain z where z: "session_secret demo_x (my_ephemeral run_a) (to_hex (x_public demo_x (my_ephemeral run_b))) = Inr z"
    by (rule session_secret_ok[OF demo_x_laws])
  obtain e where e: "my_response_msg demo_ed demo_x run_b (init_view demo_x run_a) = JDict e"
      "dict_get e ''type'' = Some (JStr ''handshake_response'')" "str_item e ''signature'' = Inr sample_g"
    using response_msg_view[of demo_ed demo_x run_b "init_view demo_x run_a"] by (auto simp: sample_g_def sample_T_def)
  have recv: "recv_message True ''handshake_response'' (sample_state\<lparr> hs_in := f2 \<rparr>) = (Inr e, sample_state\<lparr> hs_in := f2, hs_in := [] \<rparr>)"
    by (rule recv_message_ok[OF f(1) sample_conforms(4) sample_conforms(2) e(1,2)]) simp
  from initiator_finish_ok[OF f(1) sample_conforms(4) sample_conforms(2) f(2)[unfolded sample_I_def], of "sample_state\<lparr> hs_in := f2 \<rparr>"
      D_UNKNOWN D_PENDING "sample_after run_b" z]
  show thesis
    using sample_lets_in(1) sample_trust z demo_ed_laws sample_honest that[OF _ _ _ recv e(3)]
    by (auto simp: sample_g_def sample_T_def)
qed

lemma demo_verify: "ed_verify demo_ed pk sig m \<longleftrightarrow> sig = pk @ m"
  by (simp add: demo_ed_def)

lemma sample_sign: "kp_sign demo_ed (my_identity (sample_run b n)) m = public_key_bytes (my_identity (sample_run b n)) @ m"
  by (simp add: kp_sign_def demo_ed_def sample_run_def keypair_from_private_key_def)

theorem initiator_authenticates_responder_witness:
  "\<exists>s res s'. initiator_finish demo_ed demo_x run_a True s = (Inr res, s') \<and>
     peer_device_id res = kp_device_id (my_identity run_b) \<and>
     peer_device_id res = compute_device_id (public_key_bytes (my_identity run_b))"
proof -
  obtain f2 e ri s' s1 where run: "initiator_finish demo_ed demo_x run_a True (sample_state\<lparr> hs_in := f2 \<rparr>) = (Inr ri, s')"
    and pk: "peer_public_key ri = to_hex (public_key_bytes (my_identity run_b))"
    and recv: "recv_message True ''handshake_response'' (sample_state\<lparr> hs_in := f2 \<rparr>) = (Inr e, s1)"
      "str_item e ''signature'' = Inr sample_g"
    by (rule sample_initiator_run)
  have gen: "genuine_signature demo_ed (public_key_bytes (my_identity run_b)) True ''handshake_response'' (sample_state\<lparr> hs_in := f2 \<rparr>) {sample_T}"
    using recv by (auto simp: genuine_signature_def demo_verify sample_g_def sample_sign)
  have sgn: "signs_as_responder demo_x {sample_T} {run_b}"
    by (auto simp: signs_as_responder_def sample_T_def)
  have "bytes_fromhex (peer_public_key ri) = Some (public_key_bytes (my_identity run_b))"
    by (simp add: pk)
  from initiator_authenticates_responder[OF run this gen sgn] run show ?thesis
    by auto
qed


lemma sample_responder_run:
  obtains f1 w s1 f3 e rr s' s2 where "responder_answer demo_ed demo_x run_b True (sample_state\<lparr> hs_in := f1 \<rparr>) = (Inr w, s1)"
    "responder_finish demo_ed demo_x run_b True w (sample_state\<lparr> hs_in := f3 \<rparr>) = (Inr rr, s')"
    "peer_public_key rr = to_hex (public_key_bytes (my_identity run_a))"
    "recv_message True ''handshake_finish'' (sample_state\<lparr> hs_in := f3 \<rparr>) = (Inr e, s2)"
    "str_item e ''signature'' = Inr (to_hex (kp_sign demo_ed (my_identity run_a) sample_I))"
proof -
  obtain f1 f2 f3 where f: "encode_frame (my_init_msg demo_x run_a) = Inr f1"
      "encode_frame (my_response_msg demo_ed demo_x run_b (init_view demo_x run_a)) = Inr f2"
      "encode_frame (my_finish_msg demo_ed run_a sample_I) = Inr f3"
    using sample_fits by (auto simp: is_ok_iff sample_I_def sample_g_def sample_T_def)
  define w where "w = \<lparr> rw_init = items_of (my_init_msg demo_x run_a), rw_pub = public_key_bytes (my_identity run_a),
    rw_decision = D_UNKNOWN, rw_transcript = sample_T, rw_signature = sample_g \<rparr>"
  have id: "compute_device_id (public_key_bytes (my_identity run_a)) = kp_device_id (my_identity run_a)"
    by (simp add: sample_run_def keypair_from_private_key_def)
  obtain s1 where 1: "responder_answer demo_ed demo_x run_b True (sample_state\<lparr> hs_in := f1 \<rparr>) = (Inr w, s1)"
    using responder_answer_ok[OF f(1) sample_conforms(3,1) f(2), of "sample_state\<lparr> hs_in := f1 \<rparr>" D_UNKNOWN]
      sample_lets_in(1) sample_trust(1) id
    by (auto simp: w_def sample_g_def sample_T_def)
  obtain z where z: "session_secret demo_x (my_ephemeral run_b) (to_hex (x_public demo_x (my_ephemeral run_a))) = Inr z"
    by (rule session_secret_ok[OF demo_x_laws])
  have comp: "compute_initiator_transcript (rw_transcript w) (rw_signature w) = Inr sample_I"
    unfolding w_def sample_I_def sample_T_def
    by (simp, rule compute_initiator_transcript_view) (simp add: sample_g_def)
  obtain rr s' where 2: "responder_finish demo_ed demo_x run_b True w (sample_state\<lparr> hs_in := f3 \<rparr>) = (Inr rr, s')"
      "peer_public_key rr = to_hex (public_key_bytes (my_identity run_a))"
    using responder_finish_ok[OF f(3) sample_conforms(5) demo_ed_laws sample_honest _ _ comp, of demo_x
        "sample_state\<lparr> hs_in := f3 \<rparr>" run_b D_PENDING "sample_after run_a" z] sample_trust(2) z
    by (auto simp: w_def sample_sign sample_keys)
  obtain e where e: "my_finish_msg demo_ed run_a sample_I = JDict e" "dict_get e ''type'' = Some (JStr ''handshake_finish'')"
      "str_item e ''signature'' = Inr (to_hex (kp_sign demo_ed (my_identity run_a) sample_I))"
    by (simp add: my_finish_msg_def make_handshake_finish_def str_item_def)
  have "kp_sign demo_ed (my_identity run_a) sample_I \<noteq> []"
    using sample_keys(6)[of 1 "''A''" sample_I] by (metis list.size(3) add_is_0 zero_neq_numeral)
  then have conf: "conforms (my_finish_msg demo_ed run_a sample_I)"
    unfolding my_finish_msg_def by (intro built_conforms built.intros(15)) simp
  have "recv_message True ''handshake_finish'' (sample_state\<lparr> hs_in := f3 \<rparr>) = (Inr e, sample_state\<lparr> hs_in := f3, hs_in := [] \<rparr>)"
    by (rule recv_message_ok[OF f(3) sample_conforms(5) conf e(1,2)]) simp
  with 1 2 e(3) show thesis
    using that by blast
qed

theorem responder_authenticates_initiator_witness:
  "\<exists>s0 w s1 s res s'. responder_answer demo_ed demo_x run_b True s0 = (Inr w, s1) \<and>
     responder_finish demo_ed demo_x run_b True w s = (Inr res, s') \<and>
     peer_device_id res = kp_device_id (my_identity run_a) \<and> shows_view (rw_init w) (init_view demo_x run_a)"
proof -
  obtain f1 w s1 f3 e rr s' s2 where run: "responder_answer demo_ed demo_x run_b True (sample_state\<lparr> hs_in := f1 \<rparr>) = (Inr w, s1)"
      "responder_finish demo_ed demo_x run_b True w (sample_state\<lparr> hs_in := f3 \<rparr>) = (Inr rr, s')"
    and pk: "peer_public_key rr = to_hex (public_key_bytes (my_identity run_a))"
    and recv: "recv_message True ''handshake_finish'' (sample_state\<lparr> hs_in := f3 \<rparr>) = (Inr e, s2)"
      "str_item e ''signature'' = Inr (to_hex (kp_sign demo_ed (my_identity run_a) sample_I))"
    by (rule sample_responder_run)
  have gen: "genuine_signature demo_ed (public_key_bytes (my_identity run_a)) True ''handshake_finish'' (sample_state\<lparr> hs_in := f3 \<rparr>) {sample_I}"
    using recv by (auto simp: genuine_signature_def demo_verify sample_sign)
  have sgn: "signs_as_initiator demo_x {sample_I} {run_a}"
    using bytes_fromhex_to_hex by (auto simp: signs_as_initiator_def sample_I_def sample_g_def intro!: exI)
  have "bytes_fromhex (peer_public_key rr) = Some (public_key_bytes (my_identity run_a))"
    by (simp add: pk)
  from responder_authenticates_initiator[OF run this gen sgn] run show ?thesis
    by blast
qed

end
