(* ===== verification/EndpointUpdate.thy ===== *)
theory EndpointUpdate
  imports Locator ExportAuth Handshake
begin

text \<open>
  Model of src/core/connectivity/endpoint_update.py: the signed statement of a device that it is now
  reachable at an address. The clock readings, the random nonce and Ed25519 are arguments; the security
  event of a refusal is an observation and left out. The timestamp of a received update is a JSON number, which
  may be no number at all (None); an infinite one is refused when the message is read. The lemmas show that
  what is created verifies once and only once, that a signature pins down every field, and where the
  freshness check and the replay cache do not fit together.
\<close>

section \<open>Creating and verifying\<close>

definition ENDPOINT_UPDATE_DOMAIN :: bytes where
  "ENDPOINT_UPDATE_DOMAIN = utf8_encode ''peerc-endpoint-update'' @ [0]"

definition DEFAULT_MAX_AGE_SECONDS :: time where
  "DEFAULT_MAX_AGE_SECONDS = 300"

record endpoint_update =
  eu_device_id :: string
  eu_kind :: string
  eu_host :: string
  eu_port :: int
  eu_timestamp :: "pyfloat option"
  eu_nonce :: string
  eu_signature :: string

text \<open>\<open>struct.pack(">d", nan)\<close> is the quiet NaN.\<close>

definition pack_stamp :: "pyfloat option \<Rightarrow> bytes" where
  "pack_stamp t = (case t of None \<Rightarrow> [0x7f, 0xf8, 0, 0, 0, 0, 0, 0] | Some f \<Rightarrow> pack_double (time_of f))"

definition update_payload :: "string \<Rightarrow> string \<Rightarrow> string \<Rightarrow> int \<Rightarrow> pyfloat option \<Rightarrow> string \<Rightarrow> bytes result" where
  "update_payload device_id kind host port timestamp nonce =
    rbind (lp_fields (map utf8_encode [device_id, kind, host])) (\<lambda>a.
    rbind (pack_uint 4 port) (\<lambda>p.
    rbind (lp_fields [utf8_encode nonce]) (\<lambda>b.
    Inr (ENDPOINT_UPDATE_DOMAIN @ a @ p @ pack_stamp timestamp @ b))))"

definition create_endpoint_update ::
  "ed25519 \<Rightarrow> pyfloat \<Rightarrow> string \<Rightarrow> device_keypair \<Rightarrow> string \<Rightarrow> string \<Rightarrow> int \<Rightarrow> endpoint_update result" where
  "create_endpoint_update ed now uuid_hex kp kind host port =
    rbind (require (kind \<in> set VALID_KINDS) (Conn EndpointUpdateError)) (\<lambda>_.
    rbind (require (host \<noteq> []) (Conn EndpointUpdateError)) (\<lambda>_.
    rbind (require (0 < port \<and> port \<le> 65535) (Conn EndpointUpdateError)) (\<lambda>_.
    rbind (update_payload (kp_device_id kp) kind host port (Some now) uuid_hex) (\<lambda>payload.
    Inr \<lparr> eu_device_id = kp_device_id kp, eu_kind = kind, eu_host = host, eu_port = port, eu_timestamp = Some now,
          eu_nonce = uuid_hex, eu_signature = sign_b64 ed kp payload \<rparr>))))"

definition update_text :: "endpoint_update \<Rightarrow> bytes result" where
  "update_text u = update_payload (eu_device_id u) (eu_kind u) (eu_host u) (eu_port u) (eu_timestamp u) (eu_nonce u)"

definition update_signed :: "ed25519 \<Rightarrow> bytes \<Rightarrow> endpoint_update \<Rightarrow> bool" where
  "update_signed ed pk u = (case update_text u of Inl _ \<Rightarrow> False | Inr m \<Rightarrow> verifies ed pk (eu_signature u) m)"

text \<open>\<open>abs(now - timestamp) > max_age\<close>, which is false when the timestamp is not a number.\<close>

definition outside_window :: "time \<Rightarrow> time \<Rightarrow> pyfloat option \<Rightarrow> bool" where
  "outside_window now max_age t = (case t of None \<Rightarrow> False | Some f \<Rightarrow> \<bar>now - time_of f\<bar> > max_age)"

definition verify_endpoint_update ::
  "ed25519 \<Rightarrow> (nat \<Rightarrow> time) \<Rightarrow> endpoint_update \<Rightarrow> bytes \<Rightarrow> time \<Rightarrow> nonce_cache \<Rightarrow> bool \<times> nonce_cache" where
  "verify_endpoint_update ed tick u pk max_age cache =
    (if \<not> update_signed ed pk u then (False, cache)
     else if outside_window (tick 0) max_age (eu_timestamp u) then (False, cache)
     else check_and_add (tick 1) (eu_nonce u) cache)"

definition endpoint_update_to_endpoint :: "endpoint_update \<Rightarrow> endpoint result" where
  "endpoint_update_to_endpoint u =
    mk_endpoint (eu_device_id u) (eu_kind u) (eu_host u) (eu_port u) (map_option time_of (eu_timestamp u))"

section \<open>Lemmas\<close>

lemma verify_endpoint_update_True:
  "fst (verify_endpoint_update ed tick u pk age c) \<longleftrightarrow>
    update_signed ed pk u \<and> \<not> outside_window (tick 0) age (eu_timestamp u) \<and>
    fst (check_and_add (tick 1) (eu_nonce u) c)"
  by (simp add: verify_endpoint_update_def)

text \<open>A forged update consumes no slot of the replay cache.\<close>

lemma forged_update_leaves_cache:
  "\<not> update_signed ed pk u \<Longrightarrow> verify_endpoint_update ed tick u pk age c = (False, c)"
  by (simp add: verify_endpoint_update_def)

lemma created_update_is_signed:
  assumes "ed_laws ed" "genuine_keypair ed kp" "create_endpoint_update ed now uid kp kind host port = Inr u"
  shows "update_signed ed (public_key_bytes kp) u \<and> eu_device_id u = kp_device_id kp \<and> eu_timestamp u = Some now \<and>
    eu_nonce u = uid \<and> (\<exists>e. endpoint_update_to_endpoint u = Inr e)"
  using assms
  by (auto simp: create_endpoint_update_def rbind_eq_Inr update_signed_def update_text_def endpoint_update_to_endpoint_def
      mk_endpoint_Inr valid_endpoint_def)

lemma length_pack_stamp [simp]: "length (pack_stamp t) = 8"
  by (simp add: pack_stamp_def split: option.split)

lemma update_text_inject:
  assumes "update_text u = Inr m" "update_text v = Inr m"
  shows "eu_device_id u = eu_device_id v \<and> eu_kind u = eu_kind v \<and> eu_host u = eu_host v \<and> eu_port u = eu_port v \<and>
    pack_stamp (eu_timestamp u) = pack_stamp (eu_timestamp v) \<and> eu_nonce u = eu_nonce v"
proof -
  define fs where "fs u = map utf8_encode [eu_device_id u, eu_kind u, eu_host u]" for u :: endpoint_update
  have split: "\<exists>a p b. lp_fields (fs u) = Inr a \<and> pack_uint 4 (eu_port u) = Inr p \<and> lp_fields [utf8_encode (eu_nonce u)] = Inr b \<and>
      m = ENDPOINT_UPDATE_DOMAIN @ a @ p @ pack_stamp (eu_timestamp u) @ b" if "update_text u = Inr m" for u
    using that unfolding update_text_def update_payload_def fs_def[symmetric] by (auto simp: rbind_eq_Inr simp del: lp_fields.simps)
  obtain a p b a' p' b' where
    1: "lp_fields (fs u) = Inr a" "pack_uint 4 (eu_port u) = Inr p" "lp_fields [utf8_encode (eu_nonce u)] = Inr b"
    and 2: "lp_fields (fs v) = Inr a'" "pack_uint 4 (eu_port v) = Inr p'" "lp_fields [utf8_encode (eu_nonce v)] = Inr b'"
    and eq: "a @ p @ pack_stamp (eu_timestamp u) @ b = a' @ p' @ pack_stamp (eu_timestamp v) @ b'"
    using split[OF assms(1)] split[OF assms(2)] by auto
  have f: "fs u = fs v \<and> p @ pack_stamp (eu_timestamp u) @ b = p' @ pack_stamp (eu_timestamp v) @ b'"
    using eq by (intro lp_fields_inject[OF 1(1) 2(1)]) (simp_all add: fs_def)
  have "length p = length p'"
    using be_nat_pack[OF 1(2)] be_nat_pack[OF 2(2)] by simp
  with f have p: "p = p'" and rest: "pack_stamp (eu_timestamp u) = pack_stamp (eu_timestamp v)" "b @ [] = b' @ []"
    by (simp_all add: append_eq_append_conv)
  from p have port: "eu_port u = eu_port v"
    using be_nat_pack[OF 1(2)] be_nat_pack[OF 2(2)] by simp
  have "[utf8_encode (eu_nonce u)] = [utf8_encode (eu_nonce v)]"
    using lp_fields_inject[OF 1(3) 2(3) _ rest(2)] by simp
  with f port rest(1) show ?thesis
    by (simp add: fs_def)
qed

text \<open>
  The window and the replay cache. An update is accepted from max_age before its timestamp until max_age after it,
  a nonce is remembered for the lifetime of the cache: with both at 300 seconds, an update dated 300 seconds ahead
  is accepted twice, and one whose timestamp is not a number is accepted again and again.
\<close>

lemma fresh_cache_accepts:
  "nc_seen c = [] \<Longrightarrow> check_and_add t n c = (True, c\<lparr> nc_seen := [(n, t)] \<rparr>)"
  by (simp add: check_and_add_def)

lemma expired_nonce_accepted:
  "t - s > nc_ttl c \<Longrightarrow> nc_seen c = [(n, s)] \<Longrightarrow> check_and_add t n c = (True, c\<lparr> nc_seen := [(n, t)] \<rparr>)"
  by (simp add: check_and_add_def)

lemma future_update_accepted_twice:
  assumes "update_signed ed pk u" "eu_timestamp u = Some f" "nc_ttl c = 300" "nc_seen c = []"
    and "tick 0 = time_of f - 300" "tick 1 = time_of f - 300" "tock 0 = time_of f + 1" "tock 1 = time_of f + 1"
  shows "fst (verify_endpoint_update ed tick u pk DEFAULT_MAX_AGE_SECONDS c) \<and>
    fst (verify_endpoint_update ed tock u pk DEFAULT_MAX_AGE_SECONDS
      (snd (verify_endpoint_update ed tick u pk DEFAULT_MAX_AGE_SECONDS c)))"
  using assms
  by (simp add: verify_endpoint_update_def outside_window_def DEFAULT_MAX_AGE_SECONDS_def fresh_cache_accepts
      expired_nonce_accepted[where s = "time_of f - 300"])

lemma undated_update_never_expires:
  assumes "update_signed ed pk u" "eu_timestamp u = None" "nc_seen c = [(eu_nonce u, s)]" "tick 1 - s > nc_ttl c"
  shows "verify_endpoint_update ed tick u pk age c = (True, c\<lparr> nc_seen := [(eu_nonce u, tick 1)] \<rparr>)"
  using assms by (simp add: verify_endpoint_update_def outside_window_def expired_nonce_accepted)

end
