(* ===== verification/RelayStream.thy ===== *)
theory RelayStream
  imports Wire Steps
begin

text \<open>
  Model of src/core/transport/relay_stream.py: the reader and the writer that carry a connection through a
  relay as opaque chunks. A read that has too few bytes waits; the wait ends when bytes or the end of the
  stream arrive and the read is tried again, so one attempt is one operation here. The property says that
  the two ends behave as one byte stream, however the bytes are cut into chunks.
\<close>

section \<open>Reader and writer\<close>

record relay_reader =
  rr_buffer :: bytes
  rr_eof :: bool

definition new_reader :: relay_reader where
  "new_reader = \<lparr> rr_buffer = [], rr_eof = False \<rparr>"

definition feed_data :: "bytes \<Rightarrow> relay_reader \<Rightarrow> relay_reader" where
  "feed_data data r = (if rr_eof r \<or> data = [] then r else r\<lparr> rr_buffer := rr_buffer r @ data \<rparr>)"

definition feed_eof :: "relay_reader \<Rightarrow> relay_reader" where
  "feed_eof r = (if rr_eof r then r else r\<lparr> rr_eof := True \<rparr>)"

text \<open>The value None is a read that waits.\<close>

definition relay_readexactly :: "nat \<Rightarrow> (relay_reader, bytes option) op" where
  "relay_readexactly n r =
    (if length (rr_buffer r) < n
     then (if rr_eof r then (Inl (Py IncompleteReadError), r\<lparr> rr_buffer := [] \<rparr>) else (Inr None, r))
     else (Inr (Some (take n (rr_buffer r))), r\<lparr> rr_buffer := drop n (rr_buffer r) \<rparr>))"

record relay_writer =
  rw_pending :: bytes
  rw_closed :: bool

definition new_writer :: relay_writer where
  "new_writer = \<lparr> rw_pending = [], rw_closed = False \<rparr>"

definition relay_write :: "bytes \<Rightarrow> relay_writer \<Rightarrow> relay_writer" where
  "relay_write data w = (if rw_closed w \<or> data = [] then w else w\<lparr> rw_pending := rw_pending w @ data \<rparr>)"

text \<open>The chunk handed to \<open>send_fn\<close>, if any.\<close>

definition relay_drain :: "relay_writer \<Rightarrow> bytes option \<times> relay_writer" where
  "relay_drain w = (if rw_closed w \<or> rw_pending w = [] then (None, w) else (Some (rw_pending w), w\<lparr> rw_pending := [] \<rparr>))"

definition relay_close :: "relay_writer \<Rightarrow> relay_writer" where
  "relay_close w = w\<lparr> rw_closed := True \<rparr>"

section \<open>The two ends together\<close>

text \<open>The chunks between the ends travel in order: each hop is an encrypted channel over TCP. The last two
  fields are what has been accepted by write() and returned by readexactly() so far.\<close>

record tunnel =
  tn_writer :: relay_writer
  tn_chunks :: "bytes list"
  tn_reader :: relay_reader
  tn_written :: bytes
  tn_read :: bytes

definition new_tunnel :: tunnel where
  "new_tunnel = \<lparr> tn_writer = new_writer, tn_chunks = [], tn_reader = new_reader, tn_written = [], tn_read = [] \<rparr>"

datatype tunnel_event = Write bytes | Drain | Deliver | Read nat | Close | Eof

text \<open>The end of the stream is fed when the session that carries the chunks is gone, after what it carried.\<close>

fun tunnel_step :: "tunnel_event \<Rightarrow> tunnel \<Rightarrow> tunnel" where
  "tunnel_step (Write d) t = (if rw_closed (tn_writer t) then t
     else t\<lparr> tn_writer := relay_write d (tn_writer t), tn_written := tn_written t @ d \<rparr>)"
| "tunnel_step Drain t = (case relay_drain (tn_writer t) of
     (None, w) \<Rightarrow> t\<lparr> tn_writer := w \<rparr>
   | (Some c, w) \<Rightarrow> t\<lparr> tn_writer := w, tn_chunks := tn_chunks t @ [c] \<rparr>)"
| "tunnel_step Deliver t = (case tn_chunks t of
     [] \<Rightarrow> t
   | c # cs \<Rightarrow> t\<lparr> tn_chunks := cs, tn_reader := feed_data c (tn_reader t) \<rparr>)"
| "tunnel_step (Read n) t = (case relay_readexactly n (tn_reader t) of
     (Inr (Some d), r) \<Rightarrow> t\<lparr> tn_reader := r, tn_read := tn_read t @ d \<rparr>
   | (_, r) \<Rightarrow> t\<lparr> tn_reader := r \<rparr>)"
| "tunnel_step Close t = t\<lparr> tn_writer := relay_close (tn_writer t) \<rparr>"
| "tunnel_step Eof t = t\<lparr> tn_reader := feed_eof (tn_reader t) \<rparr>"

definition tunnel_run :: "tunnel_event list \<Rightarrow> tunnel" where
  "tunnel_run es = fold tunnel_step es new_tunnel"

definition in_tunnel :: "tunnel \<Rightarrow> bytes" where
  "in_tunnel t = rr_buffer (tn_reader t) @ concat (tn_chunks t) @ rw_pending (tn_writer t)"

text \<open>Until the end of the stream is fed nothing is lost; afterwards what was read is still a prefix.\<close>

definition conserved :: "tunnel \<Rightarrow> bool" where
  "conserved t \<longleftrightarrow> (if rr_eof (tn_reader t) then prefix (tn_read t @ rr_buffer (tn_reader t)) (tn_written t)
     else tn_written t = tn_read t @ in_tunnel t)"

lemma conserved_prefix: "conserved t \<Longrightarrow> prefix (tn_read t @ rr_buffer (tn_reader t)) (tn_written t)"
  by (simp add: conserved_def in_tunnel_def split: if_splits)

lemma tunnel_step_conserved: "conserved t \<Longrightarrow> conserved (tunnel_step e t)"
proof (cases e)
  case (Write d)
  moreover assume "conserved t"
  ultimately show ?thesis
    by (auto simp: conserved_def in_tunnel_def relay_write_def intro: prefix_prefix split: if_splits)
next
  case Drain
  moreover assume "conserved t"
  ultimately show ?thesis
    by (auto simp: conserved_def in_tunnel_def relay_drain_def)
next
  case Deliver
  moreover assume "conserved t"
  ultimately show ?thesis
    by (auto simp: conserved_def in_tunnel_def feed_data_def split: list.split)
next
  case (Read n)
  moreover assume "conserved t"
  ultimately show ?thesis
    by (auto simp: conserved_def in_tunnel_def relay_readexactly_def intro: append_prefixD)
next
  case Close
  moreover assume "conserved t"
  ultimately show ?thesis
    by (simp add: conserved_def in_tunnel_def relay_close_def)
next
  case Eof
  moreover assume "conserved t"
  ultimately show ?thesis
    using conserved_prefix[of t] by (auto simp: conserved_def feed_eof_def)
qed

interpretation tunnels: step_invariant "\<lambda>t u. \<exists>e. u = tunnel_step e t" conserved
  by unfold_locales (auto intro: tunnel_step_conserved)

lemma tunnel_run_steps: "(\<lambda>t u. \<exists>e. u = tunnel_step e t)\<^sup>*\<^sup>* t (fold tunnel_step es t)"
  by (induction es arbitrary: t) (auto intro: converse_rtranclp_into_rtranclp)

lemma tunnel_run_conserved: "conserved (tunnel_run es)"
  unfolding tunnel_run_def
  by (rule tunnels.after_steps[OF tunnel_run_steps])
    (simp add: conserved_def in_tunnel_def new_tunnel_def new_reader_def new_writer_def)

lemma deliver_all:
  "\<not> rr_eof (tn_reader t) \<Longrightarrow> fold tunnel_step (replicate (length (tn_chunks t)) Deliver) t =
    t\<lparr> tn_chunks := [], tn_reader := (tn_reader t)\<lparr> rr_buffer := rr_buffer (tn_reader t) @ concat (tn_chunks t) \<rparr> \<rparr>"
proof (induction "tn_chunks t" arbitrary: t)
  case (Cons c cs)
  let ?u = "tunnel_step Deliver t"
  have fd: "feed_data c (tn_reader t) = (tn_reader t)\<lparr> rr_buffer := rr_buffer (tn_reader t) @ c \<rparr>"
    using Cons.prems by (simp add: feed_data_def)
  have "length (tn_chunks t) = Suc (length cs)"
    using Cons.hyps(2) by (metis length_Cons)
  then show ?case
    using Cons.hyps(1)[of ?u] Cons.prems Cons.hyps(2)[symmetric] fd by simp
qed simp

text \<open>
  (C?) A relayed connection is a byte stream. Whatever the order in which one end writes and flushes, chunks arrive and
  the other end reads, what has been read is a prefix of what was written; and as long as neither end has closed,
  flushing and delivering makes every byte that was written and not yet read available: a read of that many bytes returns
  exactly them.
\<close>

theorem tunnel_is_a_byte_stream:
  "prefix (tn_read (tunnel_run es)) (tn_written (tunnel_run es)) \<and>
   (\<not> rr_eof (tn_reader (tunnel_run es)) \<and> \<not> rw_closed (tn_writer (tunnel_run es)) \<longrightarrow>
     (\<exists>fs. let t = tunnel_run (es @ fs); n = length (tn_written (tunnel_run es)) - length (tn_read (tunnel_run es)) in
       tn_written t = tn_written (tunnel_run es) \<and> fst (relay_readexactly n (tn_reader t)) = Inr (Some (drop (length (tn_read t)) (tn_written t)))))"
proof (intro conjI impI)
  let ?t = "tunnel_run es"
  show "prefix (tn_read ?t) (tn_written ?t)"
    using conserved_prefix[OF tunnel_run_conserved] by (rule append_prefixD)
  assume open_ends: "\<not> rr_eof (tn_reader ?t) \<and> \<not> rw_closed (tn_writer ?t)"
  define u where "u = tunnel_step Drain ?t"
  have u: "tn_reader u = tn_reader ?t" "tn_written u = tn_written ?t" "tn_read u = tn_read ?t" "rw_pending (tn_writer u) = []"
      "concat (tn_chunks u) = concat (tn_chunks ?t) @ rw_pending (tn_writer ?t)"
    using open_ends by (auto simp: u_def relay_drain_def)
  define fs where "fs = Drain # replicate (length (tn_chunks u)) Deliver"
  have run: "tunnel_run (es @ fs) = u\<lparr> tn_chunks := [], tn_reader := (tn_reader u)\<lparr> rr_buffer := rr_buffer (tn_reader u) @ concat (tn_chunks u) \<rparr> \<rparr>"
    using deliver_all[of u] open_ends u(1) by (simp add: tunnel_run_def fs_def u_def)
  have "tn_written ?t = tn_read ?t @ rr_buffer (tn_reader u) @ concat (tn_chunks u)"
    using tunnel_run_conserved[of es] open_ends u by (simp add: conserved_def in_tunnel_def)
  then have "tn_written (tunnel_run (es @ fs)) = tn_written ?t \<and>
      fst (relay_readexactly (length (tn_written ?t) - length (tn_read ?t)) (tn_reader (tunnel_run (es @ fs)))) =
        Inr (Some (drop (length (tn_read (tunnel_run (es @ fs)))) (tn_written (tunnel_run (es @ fs)))))"
    using u run by (simp add: relay_readexactly_def)
  then show "\<exists>fs. let t = tunnel_run (es @ fs); n = length (tn_written ?t) - length (tn_read ?t) in
      tn_written t = tn_written ?t \<and> fst (relay_readexactly n (tn_reader t)) = Inr (Some (drop (length (tn_read t)) (tn_written t)))"
    unfolding Let_def by blast
qed

theorem tunnel_is_a_byte_stream_witness:
  "tn_read (tunnel_run [Write [1, 2, 3], Drain, Deliver, Read 2, Write [4]]) = [1, 2] \<and>
   (\<exists>fs. tn_written (tunnel_run ([Write [1, 2, 3], Drain, Deliver, Read 2, Write [4]] @ fs)) = [1, 2, 3, 4] \<and>
     fst (relay_readexactly 2 (tn_reader (tunnel_run ([Write [1, 2, 3], Drain, Deliver, Read 2, Write [4]] @ fs)))) =
       Inr (Some (drop (length (tn_read (tunnel_run ([Write [1, 2, 3], Drain, Deliver, Read 2, Write [4]] @ fs)))) [1, 2, 3, 4])))"
proof -
  define es where "es = [Write [1, 2, 3], Drain, Deliver, Read 2, Write [4]]"
  have run: "tn_read (tunnel_run es) = [1, 2]" "tn_written (tunnel_run es) = [1, 2, 3, 4]"
      "\<not> rr_eof (tn_reader (tunnel_run es))" "\<not> rw_closed (tn_writer (tunnel_run es))"
    by (simp_all add: es_def tunnel_run_def new_tunnel_def new_reader_def new_writer_def relay_write_def relay_drain_def
        feed_data_def relay_readexactly_def)
  obtain fs where fs: "tn_written (tunnel_run (es @ fs)) = [1, 2, 3, 4]"
      "fst (relay_readexactly 2 (tn_reader (tunnel_run (es @ fs)))) = Inr (Some (drop (length (tn_read (tunnel_run (es @ fs)))) [1, 2, 3, 4]))"
    using tunnel_is_a_byte_stream[of es] run by (auto simp: Let_def numeral_2_eq_2)
  show ?thesis
    unfolding es_def[symmetric] using run(1) fs by (intro conjI exI[of _ fs])
qed

end
