(* ===== verification/Spec2Isabelle.thy ===== *)
theory Spec2Isabelle
  imports Lifecycle TransferDelivery EnforcerDemo EndpointUpdate RelayStream
begin

text \<open>
  Verification of peerc, a peer-to-peer chat and file-transfer program for a local network.

  \<^bold>\<open>The program.\<close> Two devices connect over TCP, prove their Ed25519 identities to each other and agree
  on keys (core/crypto/handshake.py), consult the table of known devices (core/trust/) and then exchange
  encrypted frames (core/transport/secure.py over core/crypto/encryption.py). A frame is a JSON message
  checked against a schema (core/protocol/messages.py) or a file chunk (core/protocol/binary.py); the
  sessions of core/transfer/ act on them. Groups (core/group/) put devices under
  administrators who sign memberships, policies and export capabilities; the policy enforcer is asked
  before a first contact is recorded, a message is sent or a file leaves a group.

  \<^bold>\<open>Where each part is modelled.\<close>
  \<^item> Prelude: exceptions, results, state-passing operations, dictionaries, bytes and big-endian integers.
    Text, Json, Regex, Paths, Codecs, Sha256: the parts of Python's str, json, re, os.path, base64,
    struct and hashlib that the program calls.
  \<^item> Lifecycle: core/connection_state.py and core/transfer_state.py. The locale \<open>lifecycle\<close> is the contract
    of a transition table; the three tables interpret it.
  \<^item> Wire, ErrorCodes, Messages: core/protocol/ (frame.py, binary.py, error_codes.py, messages.py). The
    locale \<open>framing\<close> is the contract between a frame codec and the stream above it.
  \<^item> Channel: core/crypto/kdf.py, core/crypto/encryption.py, core/transport/tcp.py and secure.py.
  \<^item> Identity, Trust, Handshake: core/identity/ (device_identity.py, fingerprint.py, rotation.py),
    core/trust/, core/crypto/handshake.py and key_exchange.py. Steps holds the locale
    \<open>step_invariant\<close>, interpreted on the step relations of the trust store and of the group store.
  \<^item> Filenames, Files, Partial, TransferSession: core/security/filenames.py, core/transfer/chunker.py,
    hashing.py, resume.py, partial.py, the functions of receiver.py and session.py. TransferSafety
    and TransferDelivery hold what is proved of them.
  \<^item> SecurityEvents: core/security/events.py and core/group/audit.py. Membership, GroupProtocol, ExportAuth,
    Policy, GroupStore, Enforcer: core/group/. GroupAuthority and EnforcerDemo hold what is proved of
    them and the concrete groups on which it is applied.

  \<^bold>\<open>How state and operations correspond.\<close> A class with fields is a record; an operation that changes it
  is a function from the state to a result and the new state, and a raised exception is the result
  \<open>Inl e\<close> with the state as it was at the raise. An SQL table is a dictionary from its primary key to the
  other columns. A coroutine is cut where it waits: each stretch between two waits is one step, and the
  theorems on sessions quantify over arbitrary sequences of steps. Clock readings, random numbers,
  generated identifiers and the outcome of system calls are arguments. Ed25519, X25519, HKDF and
  ChaCha20-Poly1305 belong to the cryptography package and are parameters; \<open>ed_laws\<close> and its like
  state what their documentation promises, and every theorem that uses them is applied to a concrete
  instance by its witness.

  \<^bold>\<open>What is shown.\<close>
  \<^item> Handshake: each role ends with the peer it reports only if that peer's key signed this very exchange;
    two honest devices end with matching keys and paired channels; nonces are accepted once; trust is
    recorded only after the proof.
  \<^item> Channel: frames arrive in order, an accepted frame is the next one sent, replays are refused, no nonce
    repeats under a key. The bounds of the sequence header are made explicit.
  \<^item> Trust: revocation is final, trust goes back to an approval, the rotation check equals its specification.
  \<^item> Transfer: whatever a peer sends, only the downloads directory changes and a completed file has the
    offered digest; between two sessions an accepted offer arrives byte for byte, also when it resumes.
  \<^item> Groups: the store refines a five-rule specification of authority; a group keeps an administrator,
    every membership is signed, revocation stays; approvals need the votes of distinct administrators;
    an export burns a capability; first contacts respect every group of the device.
  \<^item> Protocol: the schema check equals a declarative schema, factories build what it accepts, frames and
    error messages survive the round trip.

  \<^bold>\<open>Bounds and fuel.\<close> No definition that models code runs on fuel. The loops whose end is not structural
  (the JSON parser, the walk of a rotation chain, the choice of a free file name) have termination proofs;
  for the free name the number of names in the directory bounds the search. SHA-256 and the byte encodings
  are at the width the code has (32-bit and 8-bit words); Python integers are unbounded.

  \<^bold>\<open>Abstractions.\<close> Characters are the code points up to U+00FF; times and JSON floats are exact decimals
  and the rounding of sums of doubles is not modelled; file writes are unbuffered; the texts of
  exceptions and log lines are left out.

  \<^bold>\<open>Not modelled.\<close> The terminal user interface (app/), the event bus and the task registry only pass calls
  on between components through asyncio. Discovery is socket and zeroconf input and output. The vault
  (core/vault/) is a composition of scrypt, AES-GCM, SQLCipher and the file system, with little logic of
  its own. The connection manager (core/transport/manager.py) composes the operations modelled here with
  asyncio servers and tasks. core/logging_setup.py, benchmarking.py, device_info.py and the scripts have
  no effect on what peers exchange.
\<close>

end
